(* ===== verification/Calendar_Base.thy ===== *)
theory Calendar_Base
  imports Main
begin

text \<open>
  Prelude of the development. It holds what every component of the
  date-range calendar (src/my-date-range-calendar.js) shares: the names of
  the model's basic types, the collections of equations that carry the
  component proofs, the JavaScript exception value and the sequencing of a
  handler that may throw half-way, \<open>Math.ceil\<close> of an integer quotient, and
  the decimal printing of an integer that a template literal performs.
\<close>

named_theorems date_simps "equations of the ECMAScript date arithmetic"
named_theorems widget_simps "equations of the widget operations"

subsection \<open>Basic types\<close>

text \<open>
  Every JavaScript \<open>Date\<close> the component keeps is a local midnight
  (\<open>new Date(year, month, i)\<close>, or the parse of its ISO string, which is
  the same instant). Such a value is determined by its local day number,
  counted from 1970-01-01; the instant in milliseconds is recovered from the
  time zone (theory \<open>Js_Date\<close>, \<open>get_time\<close>).
\<close>

type_synonym jsdate = int
type_synonym millis = int

text \<open>The number of milliseconds in a day, written as the code writes it.\<close>

definition ms_per_day :: int where
  "ms_per_day = 24 * 60 * 60 * 1000"

lemma ms_per_day_value [date_simps]: "ms_per_day = 86400000"
  by (simp add: ms_per_day_def)

lemma ms_per_day_pos [simp]: "0 < ms_per_day"
  by (simp add: ms_per_day_def)

lemma abs_ms_per_day [simp]: "\<bar>ms_per_day\<bar> = ms_per_day"
  by (simp add: ms_per_day_def)

subsection \<open>Exceptions\<close>

text \<open>
  A JavaScript handler that throws keeps every assignment it made before the
  throw: there is no rollback. An outcome is therefore the state reached
  together with the exception that ended the handler, if any.
\<close>

datatype js_error = TypeError

type_synonym 'w outcome = "'w \<times> js_error option"

definition returns :: "'w \<Rightarrow> 'w outcome" where
  "returns w = (w, None)"

definition throws :: "'w \<Rightarrow> js_error \<Rightarrow> 'w outcome" where
  "throws w e = (w, Some e)"

definition then_js :: "'w outcome \<Rightarrow> ('w \<Rightarrow> 'w outcome) \<Rightarrow> 'w outcome" where
  "then_js r f = (case r of (w, None) \<Rightarrow> f w | (w, Some e) \<Rightarrow> (w, Some e))"

lemma then_js_returns [simp]: "then_js (returns w) f = f w"
  by (simp add: then_js_def returns_def)

lemma then_js_throws [simp]: "then_js (throws w e) f = throws w e"
  by (simp add: then_js_def throws_def)

lemma then_js_None [simp]: "then_js (w, None) f = f w"
  by (simp add: then_js_def)

lemma then_js_Some [simp]: "then_js (w, Some e) f = (w, Some e)"
  by (simp add: then_js_def)

lemma then_js_no_error:
  "snd (then_js r f) = None \<longleftrightarrow> snd r = None \<and> snd (f (fst r)) = None"
  by (cases r) (auto simp: then_js_def split: option.splits)

lemma then_js_state:
  "snd r = None \<Longrightarrow> then_js r f = f (fst r)"
  by (cases r) (simp add: then_js_def)

subsection \<open>Math.ceil of a quotient\<close>

text \<open>
  \<open>Math.ceil(a / b)\<close> for integers \<open>a\<close> and \<open>b > 0\<close>. The quotient of two
  doubles is rounded, but for the differences of dates between the years
  -271821 and 275760 that JavaScript can represent the rounding never
  reaches the next integer below 2^53; the model takes the exact ceiling.
\<close>

definition ceil_div :: "int \<Rightarrow> int \<Rightarrow> int" where
  "ceil_div a b = - ((- a) div b)"

lemma ceil_div_zero [simp]: "ceil_div 0 b = 0"
  by (simp add: ceil_div_def)

lemma ceil_div_shift:
  assumes "0 < b"
  shows "ceil_div (a + k * b) b = ceil_div a b + k"
proof -
  have e: "- (a + k * b) = - a + (- k) * b" by simp
  have "(- a + (- k) * b) div b = - k + (- a) div b"
    using assms by (intro div_mult_self1) simp
  then show ?thesis by (simp only: ceil_div_def e)
qed

lemma ceil_div_exact [simp]: "0 < b \<Longrightarrow> ceil_div (k * b) b = k"
  using ceil_div_shift [of b 0 k] by (simp add: ceil_div_def)

lemma ceil_div_above:
  assumes "0 < b" "0 < r" "r < b"
  shows "ceil_div (k * b + r) b = k + 1"
proof -
  have "- r = (b - r) + (- 1) * b" by simp
  then have "(- r) div b = (b - r) div b - 1"
    using assms(1) by (metis add.commute div_mult_self1 less_irrefl diff_conv_add_uminus)
  also have "(b - r) div b = 0"
    using assms by simp
  finally have "ceil_div r b = 1" by (simp add: ceil_div_def)
  with ceil_div_shift [OF assms(1), of r k] show ?thesis by (simp add: add.commute)
qed

lemma ceil_div_below:
  assumes "0 < b" "0 \<le> r" "r < b"
  shows "ceil_div (k * b - r) b = k"
proof -
  have "r div b = 0"
    using assms by simp
  then have "ceil_div (- r) b = 0" by (simp add: ceil_div_def)
  with ceil_div_shift [OF assms(1), of "- r" k] show ?thesis by simp
qed

subsection \<open>Integer division one step further\<close>

lemma div_succ_int:
  fixes a n :: int
  assumes n: "0 < n"
  shows "(a + 1) div n = a div n + (if (a + 1) mod n = 0 then 1 else 0)"
proof -
  define q r where "q = a div n" and "r = a mod n"
  have a: "a = r + q * n" and r: "0 \<le> r" "r < n"
    using n by (simp_all add: q_def r_def)
  show ?thesis
  proof (cases "r + 1 = n")
    case True
    then have "a + 1 = 0 + (q + 1) * n" using a by (simp add: algebra_simps)
    then show ?thesis using n r a by simp
  next
    case False
    have e: "a + 1 = (r + 1) + q * n" and lt: "r + 1 < n" using a r False by simp_all
    have d: "(a + 1) div n = q"
      unfolding e using n r lt by (subst div_mult_self1) simp_all
    have m: "(a + 1) mod n = r + 1"
      unfolding e using n r lt by (subst mod_mult_self1) simp
    show ?thesis using d m r a n by simp
  qed
qed

text \<open>The form in which the leap-year corrections of \<open>DayFromYear\<close> step.\<close>

lemma shifted_div_succ:
  fixes y c n :: int
  assumes "0 < n"
  shows "(y + 1 - (c * n + 1)) div n = (y - (c * n + 1)) div n + (if y mod n = 0 then 1 else 0)"
proof -
  have "y + 1 - (c * n + 1) = y + (- c) * n" by simp
  then have "(y + 1 - (c * n + 1)) mod n = y mod n" by (metis mod_mult_self1)
  moreover have "y - (c * n + 1) + 1 = y + 1 - (c * n + 1)" by simp
  ultimately show ?thesis using div_succ_int [OF assms, of "y - (c * n + 1)"] by simp
qed

lemma mod_cycle_add:
  fixes n x k :: int
  shows "(n + x mod n + k) mod n = (x + k) mod n"
proof -
  have "n + x mod n + k = (x mod n + k) + n" by simp
  then have "(n + x mod n + k) mod n = (x mod n + k) mod n" by (metis mod_add_self2)
  also have "\<dots> = (x + k) mod n" by (simp add: mod_add_left_eq)
  finally show ?thesis .
qed

subsection \<open>Decimal printing\<close>

text \<open>
  A template literal \<open>`${year}`\<close> prints an integer in decimal, with a
  leading minus sign when it is negative.
\<close>

fun nat_str :: "nat \<Rightarrow> string" where
  "nat_str n =
     (if n < 10 then [char_of (48 + n)]
      else nat_str (n div 10) @ [char_of (48 + n mod 10)])"

declare nat_str.simps [simp del]

definition int_str :: "int \<Rightarrow> string" where
  "int_str i = (if i < 0 then ''-'' @ nat_str (nat (- i)) else nat_str (nat i))"

end
