(* ===== verification/Js_Date.thy ===== *)
theory Js_Date
  imports Calendar_Base
begin

text \<open>
  The part of the JavaScript \<open>Date\<close> built-in the component relies on,
  after the ECMAScript specification (section "Date Objects"): the day number
  of the first day of a year (\<open>DayFromYear\<close>), \<open>MakeDay\<close> with its
  normalisation of an out-of-range month or day, the decomposition of a day
  number into year, month and date (\<open>YearFromTime\<close>, \<open>MonthFromTime\<close>,
  \<open>DateFromTime\<close>), the weekday (\<open>WeekDay\<close>), and the instant of a local
  midnight in a time zone. The calls of the component are
  \<open>new Date(y, m, d)\<close> (\<open>make_day\<close>), \<open>getFullYear\<close>, \<open>getMonth\<close>,
  \<open>getDate\<close>, \<open>getDay\<close> (\<open>year_from_day\<close>, \<open>month_from_day\<close>,
  \<open>date_from_day\<close>, \<open>week_day\<close>) and \<open>getTime\<close> or a relational operator
  on two dates (\<open>get_time\<close>).
\<close>

subsection \<open>Years\<close>

definition leap_year :: "int \<Rightarrow> bool" where
  "leap_year y \<longleftrightarrow> y mod 4 = 0 \<and> (y mod 100 \<noteq> 0 \<or> y mod 400 = 0)"

definition days_in_year :: "int \<Rightarrow> int" where
  "days_in_year y = (if leap_year y then 366 else 365)"

definition day_from_year :: "int \<Rightarrow> int" where
  "day_from_year y =
     365 * (y - 1970) + (y - 1969) div 4 - (y - 1901) div 100 + (y - 1601) div 400"

subsection \<open>Months\<close>

definition month_lengths :: "int \<Rightarrow> int list" where
  "month_lengths y =
     [31, if leap_year y then 29 else 28, 31, 30, 31, 30, 31, 31, 30, 31, 30, 31]"

definition month_length :: "int \<Rightarrow> int \<Rightarrow> int" where
  "month_length y m = month_lengths y ! nat m"

definition days_before_month :: "int \<Rightarrow> nat \<Rightarrow> int" where
  "days_before_month y m = sum_list (take m (month_lengths y))"

text \<open>
  \<open>MakeDay(year, month, date)\<close>: the month is first brought into
  \<open>0..11\<close> by moving whole years, then the date is added as an offset, so
  that \<open>date = 0\<close> is the last day of the month before and a date beyond
  the month's length runs into the next.
\<close>

definition make_day :: "int \<Rightarrow> int \<Rightarrow> int \<Rightarrow> jsdate" where
  "make_day year month date =
     (let ym = year + month div 12; mn = nat (month mod 12)
      in day_from_year ym + days_before_month ym mn + date - 1)"

subsection \<open>Decomposition of a day number\<close>

text \<open>
  \<open>YearFromTime\<close> is the largest year whose first day is not after the given
  day. The search starts at a year known to be early enough and moves up one
  year at a time; each step lowers the distance to the day, which is the
  termination measure.
\<close>

lemma day_from_year_succ [date_simps]:
  "day_from_year (y + 1) = day_from_year y + days_in_year y"
proof -
  have d4: "(y + 1 - 1969) div 4 = (y - 1969) div 4 + (if y mod 4 = 0 then 1 else 0)"
    using shifted_div_succ [of 4 y 492] by simp
  have d100: "(y + 1 - 1901) div 100 = (y - 1901) div 100 + (if y mod 100 = 0 then 1 else 0)"
    using shifted_div_succ [of 100 y 19] by simp
  have d400: "(y + 1 - 1601) div 400 = (y - 1601) div 400 + (if y mod 400 = 0 then 1 else 0)"
    using shifted_div_succ [of 400 y 4] by simp
  have leap: "days_in_year y = 365 + (if y mod 4 = 0 then 1 else 0)
      - (if y mod 100 = 0 then 1 else 0) + (if y mod 400 = 0 then 1 else 0)"
    unfolding days_in_year_def leap_year_def by auto
  have ring: "\<And>A B C a b c :: int. 365 * (y + 1 - 1970) + (A + a) - (B + b) + (C + c) =
      365 * (y - 1970) + A - B + C + (365 + a - b + c)"
    by (simp add: algebra_simps)
  show ?thesis
    unfolding day_from_year_def d4 d100 d400 leap by (rule ring)
qed

lemma days_in_year_bounds [simp]: "365 \<le> days_in_year y" "days_in_year y \<le> 366"
  by (simp_all add: days_in_year_def)

lemma day_from_year_succ_less [simp]: "day_from_year y < day_from_year (y + 1)"
  using days_in_year_bounds(1) [of y] day_from_year_succ [of y] by linarith

function find_year :: "jsdate \<Rightarrow> int \<Rightarrow> int" where
  "find_year t y = (if day_from_year (y + 1) \<le> t then find_year t (y + 1) else y)"
  by pat_completeness auto
termination
  by (relation "measure (\<lambda>(t, y). nat (t - day_from_year y))")
     (simp_all, meson day_from_year_succ_less less_le_trans)

declare find_year.simps [simp del]

definition year_lower :: "jsdate \<Rightarrow> int" where
  "year_lower t = 1970 + (if 0 \<le> t then t div 366 else t div 365)"

definition year_from_day :: "jsdate \<Rightarrow> int" where
  "year_from_day t = find_year t (year_lower t)"

text \<open>
  \<open>MonthFromTime\<close> and \<open>DateFromTime\<close>: the day within the year is
  compared with the month lengths in order.
\<close>

fun month_scan :: "int list \<Rightarrow> int \<Rightarrow> nat \<Rightarrow> nat \<times> int" where
  "month_scan [] d m = (m, d)"
| "month_scan (l # ls) d m = (if d < l then (m, d) else month_scan ls (d - l) (Suc m))"

definition day_within_year :: "jsdate \<Rightarrow> int" where
  "day_within_year t = t - day_from_year (year_from_day t)"

definition month_from_day :: "jsdate \<Rightarrow> int" where
  "month_from_day t =
     int (fst (month_scan (month_lengths (year_from_day t)) (day_within_year t) 0))"

definition date_from_day :: "jsdate \<Rightarrow> int" where
  "date_from_day t =
     snd (month_scan (month_lengths (year_from_day t)) (day_within_year t) 0) + 1"

text \<open>\<open>WeekDay\<close>: 1970-01-01 was a Thursday; 0 is Sunday.\<close>

definition week_day :: "jsdate \<Rightarrow> int" where
  "week_day t = (t + 4) mod 7"

subsection \<open>Instants of local midnights\<close>

text \<open>
  A time zone is given by its offset from UTC, in milliseconds, at the local
  midnight that starts each local day; with daylight saving time the offset
  changes between days. The instant of the local midnight of day \<open>d\<close> is
  what \<open>getTime()\<close> returns and what \<open><\<close>, \<open><=\<close>, \<open>>\<close> and
  \<open>toISOString()\<close> compare. A zone is well formed when its offsets differ by
  less than a day, which every zone of the time-zone database satisfies
  within a span of years.
\<close>

type_synonym time_zone = "jsdate \<Rightarrow> millis"

definition get_time :: "time_zone \<Rightarrow> jsdate \<Rightarrow> millis" where
  "get_time tz d = d * ms_per_day - tz d"

definition tz_ok :: "time_zone \<Rightarrow> bool" where
  "tz_ok tz \<longleftrightarrow> (\<forall>a b. \<bar>tz a - tz b\<bar> < ms_per_day)"

subsection \<open>Properties of the year arithmetic\<close>

lemma day_from_year_1970 [simp]: "day_from_year 1970 = 0"
  by (simp add: day_from_year_def)

lemma day_from_year_add_bounds:
  "day_from_year y + 365 * int k \<le> day_from_year (y + int k) \<and>
   day_from_year (y + int k) \<le> day_from_year y + 366 * int k"
proof (induction k)
  case 0
  then show ?case by simp
next
  case (Suc k)
  have e: "y + (1 + int k) = (y + int k) + 1" by simp
  have A: "day_from_year (y + (1 + int k)) = day_from_year (y + int k) + days_in_year (y + int k)"
    by (simp only: e day_from_year_succ)
  show ?case
    unfolding of_nat_Suc A using Suc.IH days_in_year_bounds [of "y + int k"]
    by (simp only: distrib_left mult_1_right, intro conjI; linarith)
qed

lemma day_from_year_mono: "a \<le> b \<Longrightarrow> day_from_year a \<le> day_from_year b"
  using day_from_year_add_bounds [of a "nat (b - a)"] by simp

lemma day_from_year_strict_mono: "a < b \<Longrightarrow> day_from_year a < day_from_year b"
  using day_from_year_add_bounds [of a "nat (b - a)"] by simp

lemma day_from_year_less_iff [simp]: "day_from_year a < day_from_year b \<longleftrightarrow> a < b"
  by (metis day_from_year_mono day_from_year_strict_mono not_le)

lemma day_from_year_le_iff [simp]: "day_from_year a \<le> day_from_year b \<longleftrightarrow> a \<le> b"
  by (metis day_from_year_mono day_from_year_strict_mono not_le)

lemma year_lower_le: "day_from_year (year_lower t) \<le> t"
proof (cases "0 \<le> t")
  case True
  then have pos: "0 \<le> t div 366" by simp
  have "day_from_year (1970 + int (nat (t div 366))) \<le> 366 * int (nat (t div 366))"
    using day_from_year_add_bounds [of 1970 "nat (t div 366)"] by simp
  moreover have "366 * (t div 366) \<le> t" by simp
  ultimately show ?thesis using True pos by (simp add: year_lower_def)
next
  case False
  then have neg: "t div 365 < 0" by simp
  have "365 * int (nat (- (t div 365))) \<le> - day_from_year (1970 - int (nat (- (t div 365))))"
    using day_from_year_add_bounds [of "1970 - int (nat (- (t div 365)))" "nat (- (t div 365))"]
    by simp
  moreover have "365 * (t div 365) \<le> t" by simp
  ultimately show ?thesis using False neg by (simp add: year_lower_def)
qed

lemma find_year_bounds:
  "day_from_year y \<le> t \<Longrightarrow>
   day_from_year (find_year t y) \<le> t \<and> t < day_from_year (find_year t y + 1)"
proof (induction t y rule: find_year.induct)
  case (1 t y)
  show ?case
  proof (cases "day_from_year (y + 1) \<le> t")
    case True
    with "1.IH" show ?thesis by (simp add: find_year.simps [of t y])
  next
    case False
    with "1.prems" show ?thesis by (simp add: find_year.simps [of t y])
  qed
qed

theorem year_from_day_iff:
  "year_from_day t = y \<longleftrightarrow> day_from_year y \<le> t \<and> t < day_from_year (y + 1)"
proof -
  let ?z = "year_from_day t"
  have z: "day_from_year ?z \<le> t" "t < day_from_year (?z + 1)"
    using find_year_bounds [OF year_lower_le [of t]] by (simp_all add: year_from_day_def)
  show ?thesis
  proof
    assume "?z = y"
    with z show "day_from_year y \<le> t \<and> t < day_from_year (y + 1)" by simp
  next
    assume y: "day_from_year y \<le> t \<and> t < day_from_year (y + 1)"
    have "\<not> ?z < y"
    proof
      assume "?z < y"
      then have "day_from_year (?z + 1) \<le> day_from_year y" by simp
      with y z show False by simp
    qed
    moreover have "\<not> y < ?z"
    proof
      assume "y < ?z"
      then have "day_from_year (y + 1) \<le> day_from_year ?z" by simp
      with y z show False by simp
    qed
    ultimately show "?z = y" by simp
  qed
qed

lemma find_year_result:
  assumes "day_from_year y \<le> t"
  shows "find_year t y = year_from_day t"
proof -
  have "day_from_year (find_year t y) \<le> t \<and> t < day_from_year (find_year t y + 1)"
    using assms by (rule find_year_bounds)
  then show ?thesis using year_from_day_iff [of t "find_year t y"] by simp
qed

text \<open>The year search of YearFromTime (getFullYear) terminates from every start year whose first day is not after the date, with the year containing the date, after at most (t - DayFromYear(start)) div 365 steps.\<close>

theorem find_year_terminates:
  assumes start: "day_from_year y \<le> t"
  shows "find_year t y = year_from_day t \<and>
         day_from_year (year_from_day t) \<le> t \<and> t < day_from_year (year_from_day t + 1) \<and>
         y \<le> year_from_day t \<and> year_from_day t - y \<le> (t - day_from_year y) div 365"
proof -
  let ?z = "year_from_day t"
  have eq: "find_year t y = ?z" using start by (rule find_year_result)
  have b: "day_from_year ?z \<le> t" "t < day_from_year (?z + 1)"
    using find_year_bounds [OF start] eq by simp_all
  have le: "y \<le> ?z"
  proof (rule ccontr)
    assume "\<not> y \<le> ?z"
    then have "day_from_year (?z + 1) \<le> day_from_year y" by simp
    with b start show False by simp
  qed
  have "day_from_year y + 365 * int (nat (?z - y)) \<le> day_from_year (y + int (nat (?z - y)))"
    using day_from_year_add_bounds [of y "nat (?z - y)"] by simp
  with le b have "365 * (?z - y) \<le> t - day_from_year y" by simp
  then have "(365 * (?z - y)) div 365 \<le> (t - day_from_year y) div 365"
    by (rule zdiv_mono1) simp
  then have "?z - y \<le> (t - day_from_year y) div 365" by simp
  with eq b le show ?thesis by simp
qed

subsection \<open>Properties of the month arithmetic\<close>

lemma length_month_lengths [simp]: "length (month_lengths y) = 12"
  by (simp add: month_lengths_def)

lemma month_lengths_pos: "l \<in> set (month_lengths y) \<Longrightarrow> 0 < l"
  by (auto simp: month_lengths_def)

lemma sum_month_lengths [simp]: "sum_list (month_lengths y) = days_in_year y"
  by (simp add: month_lengths_def days_in_year_def)

lemma month_length_pos: "0 \<le> m \<Longrightarrow> m < 12 \<Longrightarrow> 0 < month_length y m"
  using month_lengths_pos [of "month_lengths y ! nat m" y]
  by (simp add: month_length_def)

lemma month_lengths_ge_28: "l \<in> set (month_lengths y) \<Longrightarrow> 28 \<le> l"
  by (auto simp: month_lengths_def)

lemma month_length_ge_28: "0 \<le> m \<Longrightarrow> m < 12 \<Longrightarrow> 28 \<le> month_length y m"
  using month_lengths_ge_28 [of "month_lengths y ! nat m" y]
  by (simp add: month_length_def)

lemma days_before_month_Suc:
  "m < 12 \<Longrightarrow> days_before_month y (Suc m) = days_before_month y m + month_lengths y ! m"
  by (simp add: days_before_month_def take_Suc_conv_app_nth)

lemma days_before_month_0 [simp]: "days_before_month y 0 = 0"
  by (simp add: days_before_month_def)

lemma days_before_month_12 [simp]: "days_before_month y 12 = days_in_year y"
  by (simp add: days_before_month_def)

lemma days_before_month_nonneg: "0 \<le> days_before_month y m"
  unfolding days_before_month_def
  by (rule sum_list_nonneg) (meson in_set_takeD less_imp_le month_lengths_pos)

lemma days_before_month_le_year: "days_before_month y m \<le> days_in_year y"
proof -
  have "sum_list (month_lengths y) = days_before_month y m + sum_list (drop m (month_lengths y))"
    unfolding days_before_month_def by (metis append_take_drop_id sum_list_append)
  moreover have "0 \<le> sum_list (drop m (month_lengths y))"
    by (rule sum_list_nonneg) (meson in_set_dropD less_imp_le month_lengths_pos)
  ultimately show ?thesis by simp
qed

text \<open>The scan finds the month of a day that lies inside it.\<close>

lemma month_scan_take:
  assumes "\<forall>l \<in> set ls. 0 \<le> l" "m < length ls" "0 \<le> e" "e < ls ! m"
  shows "month_scan ls (sum_list (take m ls) + e) k = (k + m, e)"
  using assms
proof (induction ls arbitrary: m k)
  case Nil
  then show ?case by simp
next
  case (Cons l ls)
  show ?case
  proof (cases m)
    case 0
    with Cons.prems show ?thesis by simp
  next
    case (Suc m')
    have "0 \<le> sum_list (take m' ls)"
      using Cons.prems(1) by (auto intro: sum_list_nonneg dest: in_set_takeD)
    then have "\<not> l + sum_list (take m' ls) + e < l" using Cons.prems(3) by simp
    moreover have "month_scan ls (sum_list (take m' ls) + e) (Suc k) = (Suc k + m', e)"
      using Cons.prems Suc by (intro Cons.IH) auto
    ultimately show ?thesis using Suc by (simp add: add.assoc)
  qed
qed

text \<open>Whatever the scan returns splits the day into whole months and a rest.\<close>

lemma month_scan_split:
  assumes "month_scan ls d k = (m, e)" "0 \<le> d"
  shows "k \<le> m \<and> d = sum_list (take (m - k) ls) + e \<and> (d < sum_list ls \<longrightarrow> m - k < length ls)"
  using assms
proof (induction ls arbitrary: d k)
  case Nil
  then show ?case by simp
next
  case (Cons l ls)
  show ?case
  proof (cases "d < l")
    case True
    with Cons.prems show ?thesis by auto
  next
    case False
    with Cons.prems have "month_scan ls (d - l) (Suc k) = (m, e)" "0 \<le> d - l" by simp_all
    from Cons.IH [OF this] have ih: "Suc k \<le> m" "d - l = sum_list (take (m - Suc k) ls) + e"
      "d - l < sum_list ls \<longrightarrow> m - Suc k < length ls" by auto
    then have "m - k = Suc (m - Suc k)" by simp
    with ih show ?thesis by auto
  qed
qed

subsection \<open>new Date(y, m, d) and its getters\<close>

lemma make_day_in_year:
  "0 \<le> m \<Longrightarrow> m < 12 \<Longrightarrow>
   make_day y m d = day_from_year y + days_before_month y (nat m) + d - 1"
  by (simp add: make_day_def)

lemma make_day_norm: "make_day y m d = make_day (y + m div 12) (m mod 12) d"
  by (simp add: make_day_def)

lemma make_day_offset: "make_day y m d = make_day y m 1 + (d - 1)"
  by (simp add: make_day_def Let_def)

theorem make_day_roundtrip:
  assumes m: "0 \<le> m" "m < 12" and d: "1 \<le> d" "d \<le> month_length y m"
  shows "year_from_day (make_day y m d) = y \<and> month_from_day (make_day y m d) = m \<and>
         date_from_day (make_day y m d) = d"
proof -
  let ?t = "make_day y m d" and ?b = "days_before_month y (nat m)"
  have t: "?t = day_from_year y + ?b + d - 1" using m by (rule make_day_in_year)
  have "?b + month_length y m = days_before_month y (Suc (nat m))"
    using m by (simp add: days_before_month_Suc month_length_def)
  also have "\<dots> \<le> days_in_year y" by (rule days_before_month_le_year)
  finally have upper: "?t < day_from_year (y + 1)"
    using t d by (simp add: day_from_year_succ)
  have "day_from_year y \<le> ?t" using t d days_before_month_nonneg [of y "nat m"] by simp
  with upper have year: "year_from_day ?t = y" by (simp add: year_from_day_iff)
  have "month_scan (month_lengths y) (sum_list (take (nat m) (month_lengths y)) + (d - 1)) 0
        = (0 + nat m, d - 1)"
    using m d by (intro month_scan_take) (auto simp: month_length_def dest: month_lengths_pos)
  then have scan: "month_scan (month_lengths y) (day_within_year ?t) 0 = (nat m, d - 1)"
    using t year by (simp add: day_within_year_def days_before_month_def)
  show ?thesis using year scan m by (simp add: month_from_day_def date_from_day_def)
qed

lemma scan_within_year:
  assumes scan: "month_scan (month_lengths (year_from_day t)) (day_within_year t) 0 = (mm, e)"
  shows "mm < 12 \<and> day_within_year t = days_before_month (year_from_day t) mm + e"
proof -
  let ?y = "year_from_day t"
  have bounds: "day_from_year ?y \<le> t" "t < day_from_year (?y + 1)"
    using year_from_day_iff [of t ?y] by simp_all
  then have lt: "day_within_year t < sum_list (month_lengths ?y)"
    by (simp add: day_within_year_def day_from_year_succ)
  have nn: "0 \<le> day_within_year t" using bounds by (simp add: day_within_year_def)
  show ?thesis
    using month_scan_split [OF scan nn] lt by (simp add: days_before_month_def)
qed

lemma month_from_day_bounds: "0 \<le> month_from_day t \<and> month_from_day t < 12"
proof -
  obtain mm e where scan: "month_scan (month_lengths (year_from_day t)) (day_within_year t) 0 = (mm, e)"
    by (metis prod.exhaust)
  then show ?thesis using scan_within_year [OF scan] by (simp add: month_from_day_def)
qed

text \<open>Every day is MakeDay of its own year, month and date.\<close>

lemma day_roundtrip:
  "make_day (year_from_day t) (month_from_day t) (date_from_day t) = t"
proof -
  let ?y = "year_from_day t"
  obtain mm e where scan: "month_scan (month_lengths ?y) (day_within_year t) 0 = (mm, e)"
    by (metis prod.exhaust)
  have split: "mm < 12" "day_within_year t = days_before_month ?y mm + e"
    using scan_within_year [OF scan] by simp_all
  have "make_day ?y (int mm) (e + 1) = day_from_year ?y + days_before_month ?y mm + e"
    using split by (simp add: make_day_in_year)
  then show ?thesis
    using scan split by (simp add: month_from_day_def date_from_day_def day_within_year_def)
qed

lemma month_succ_div_mod:
  fixes m :: int
  shows "(m + 1) div 12 = m div 12 + (if m mod 12 = 11 then 1 else 0) \<and>
         (m + 1) mod 12 = (if m mod 12 = 11 then 0 else m mod 12 + 1)"
proof -
  have r: "0 \<le> m mod 12" "m mod 12 < 12" by simp_all
  have mod: "(m + 1) mod 12 = (m mod 12 + 1) mod 12" by (simp add: mod_add_left_eq)
  have "(m + 1) mod 12 = (if m mod 12 = 11 then 0 else m mod 12 + 1)"
    unfolding mod using r by auto
  moreover have "(m + 1) div 12 = m div 12 + (if (m + 1) mod 12 = 0 then 1 else 0)"
    by (rule div_succ_int) simp
  ultimately show ?thesis using r by auto
qed

lemma make_day_next_month:
  "make_day y (m + 1) 1 = make_day y m 1 + month_length (y + m div 12) (m mod 12)"
proof (cases "m mod 12 = 11")
  case True
  then have "(m + 1) div 12 = m div 12 + 1" "(m + 1) mod 12 = 0"
    using month_succ_div_mod [of m] by simp_all
  moreover have "days_before_month (y + m div 12) 12 =
      days_before_month (y + m div 12) 11 + month_lengths (y + m div 12) ! 11"
    using days_before_month_Suc [of 11 "y + m div 12"] by simp
  moreover have "day_from_year (y + (m div 12 + 1)) =
      day_from_year (y + m div 12) + days_in_year (y + m div 12)"
    using day_from_year_succ [of "y + m div 12"] by (simp add: add.assoc)
  ultimately show ?thesis using True
    by (simp add: make_day_def Let_def month_length_def)
next
  case False
  then have "(m + 1) div 12 = m div 12" "(m + 1) mod 12 = m mod 12 + 1"
    using month_succ_div_mod [of m] by simp_all
  moreover have "nat (m mod 12 + 1) = Suc (nat (m mod 12))" by simp
  moreover have "nat (m mod 12) < 12" by simp
  ultimately show ?thesis
    by (simp add: make_day_def Let_def month_length_def days_before_month_Suc)
qed

text \<open>
  The values the component reads back: \<open>getDate()\<close> of
  \<open>new Date(y, m + 1, 0)\<close> is the length of month \<open>m\<close>, and the getters of
  \<open>new Date(y, m, 1)\<close> give the normalised month and year.
\<close>

theorem make_day_first_decompose:
  "year_from_day (make_day y m 1) = y + m div 12 \<and>
   month_from_day (make_day y m 1) = m mod 12 \<and> date_from_day (make_day y m 1) = 1"
proof -
  have "0 < month_length (y + m div 12) (m mod 12)" by (simp add: month_length_pos)
  then show ?thesis
    using make_day_roundtrip [of "m mod 12" 1 "y + m div 12"]
    by (simp add: make_day_norm [of y m 1])
qed

theorem days_in_month_last_day:
  "date_from_day (make_day y (m + 1) 0) = month_length (y + m div 12) (m mod 12)"
proof -
  let ?y = "y + m div 12" and ?m = "m mod 12"
  let ?l = "month_length ?y ?m"
  have "make_day y (m + 1) 0 = make_day y m 1 + ?l - 1"
    using make_day_offset [of y "m + 1" 0] by (simp add: make_day_next_month)
  also have "\<dots> = make_day ?y ?m ?l"
    using make_day_offset [of ?y ?m ?l] make_day_norm [of y m 1] by simp
  finally have e: "make_day y (m + 1) 0 = make_day ?y ?m ?l" .
  have "1 \<le> ?l" using month_length_pos [of ?m ?y] by simp
  then show ?thesis unfolding e using make_day_roundtrip [of ?m ?l ?y] by simp
qed

subsection \<open>Comparing local midnights\<close>

lemma get_time_diff:
  "get_time tz b - get_time tz a = (b - a) * ms_per_day - (tz b - tz a)"
  by (simp add: get_time_def algebra_simps)

lemma day_diff_scaled:
  "a < b \<Longrightarrow> ms_per_day \<le> (b - a) * ms_per_day"
  "b < a \<Longrightarrow> (b - a) * ms_per_day \<le> - ms_per_day"
proof -
  assume "a < b"
  then show "ms_per_day \<le> (b - a) * ms_per_day"
    using mult_right_mono [of 1 "b - a" ms_per_day] by simp
next
  assume "b < a"
  then have "b - a \<le> - 1" by simp
  from mult_right_mono [OF this, of ms_per_day]
  show "(b - a) * ms_per_day \<le> - ms_per_day" by (simp add: less_imp_le)
qed

lemma get_time_less_iff:
  assumes "tz_ok tz"
  shows "get_time tz a < get_time tz b \<longleftrightarrow> a < b"
proof -
  have off: "\<bar>tz b - tz a\<bar> < ms_per_day" using assms by (simp add: tz_ok_def)
  have diff: "get_time tz b - get_time tz a = (b - a) * ms_per_day - (tz b - tz a)"
    by (rule get_time_diff)
  consider "a < b" | "a = b" | "b < a" by linarith
  then show ?thesis
  proof cases
    case 1
    with off diff day_diff_scaled(1) [of a b] show ?thesis by linarith
  next
    case 2
    then show ?thesis by simp
  next
    case 3
    with off diff day_diff_scaled(2) [of b a] show ?thesis by linarith
  qed
qed

lemma get_time_le_iff: "tz_ok tz \<Longrightarrow> get_time tz a \<le> get_time tz b \<longleftrightarrow> a \<le> b"
  by (metis get_time_less_iff not_le)

lemma get_time_eq_iff: "tz_ok tz \<Longrightarrow> get_time tz a = get_time tz b \<longleftrightarrow> a = b"
  by (metis get_time_less_iff not_less_iff_gr_or_eq)

end
