(* ===== verification/Js_Iso.thy ===== *)
theory Js_Iso
  imports Js_Date
begin

text \<open>
  \<open>Date.prototype.toISOString\<close> and the parse of its output by
  \<open>new Date(string)\<close>. A day cell stores the ISO string of its local
  midnight in \<open>data-date\<close> (src/my-date-range-calendar.js, line 337) and the
  handlers read the clicked or hovered date back with \<open>new Date(...)\<close>
  (lines 421 and 463); the event's detail carries \<open>toISOString()\<close> of the two
  dates (lines 442-443). \<open>iso_string\<close> prints an instant as
  \<open>YYYY-MM-DDTHH:mm:ss.sssZ\<close> (with the expanded year \<open>+YYYYYY\<close> or
  \<open>-YYYYYY\<close> outside 0..9999) and is \<open>None\<close> beyond the time range
  of a \<open>Date\<close> (\<open>8.64e15\<close> ms), where \<open>toISOString\<close> throws a
  \<open>RangeError\<close>. \<open>parse_iso\<close> is \<open>Date.parse\<close> on the complete
  form with \<open>Z\<close>, which is the only form the code parses; it checks the
  separators, the digits and the ranges of the fields and applies MakeDay,
  MakeTime and TimeClip. The main lemma is the round trip: every instant in
  range is printed and read back unchanged, so keeping the date itself in the
  model of a day cell loses nothing. \<open>month_in_range\<close> names the months
  every day of which a \<open>Date\<close> holds, and \<open>iso_date\<close> the date part of
  the printed string, which is that of the UTC day of the instant.
\<close>

subsection \<open>Digits\<close>

definition pad :: "nat \<Rightarrow> nat \<Rightarrow> string" where
  "pad k n = replicate (k - length (nat_str n)) (CHR ''0'') @ nat_str n"

fun digits_acc :: "nat \<Rightarrow> string \<Rightarrow> nat option" where
  "digits_acc n [] = Some n"
| "digits_acc n (c # cs) =
     (if 48 \<le> (of_char c :: nat) \<and> (of_char c :: nat) \<le> 57
      then digits_acc (10 * n + (of_char c - 48)) cs else None)"

definition digits_val :: "string \<Rightarrow> nat option" where
  "digits_val s = (if s = [] then None else digits_acc 0 s)"

lemma digits_acc_append:
  "digits_acc n (xs @ ys) = (case digits_acc n xs of None \<Rightarrow> None | Some m \<Rightarrow> digits_acc m ys)"
  by (induction n xs rule: digits_acc.induct) simp_all

lemma of_char_digit [simp]: "k < 10 \<Longrightarrow> (of_char (char_of (48 + k)) :: nat) = 48 + k"
  by (simp add: of_char_of)

lemma nat_str_digits: "digits_acc n (nat_str k) = Some (n * 10 ^ length (nat_str k) + k)"
proof (induction k arbitrary: n rule: nat_str.induct)
  case (1 k)
  show ?case
  proof (cases "k < 10")
    case True
    then show ?thesis by (simp add: nat_str.simps [of k])
  next
    case False
    let ?s = "nat_str (k div 10)"
    have "digits_acc n (nat_str k) = digits_acc (n * 10 ^ length ?s + k div 10) [char_of (48 + k mod 10)]"
      using False "1.IH" [OF False, of n] by (simp add: nat_str.simps [of k] digits_acc_append)
    also have "\<dots> = Some ((n * 10 ^ length ?s + k div 10) * 10 + k mod 10)" by simp
    also have "(n * 10 ^ length ?s + k div 10) * 10 + k mod 10 = n * 10 ^ length (nat_str k) + k"
      using False by (simp add: nat_str.simps [of k] algebra_simps)
    finally show ?thesis .
  qed
qed

lemma nat_str_not_Nil [simp]: "nat_str k \<noteq> []"
  by (simp add: nat_str.simps [of k])

lemma length_nat_str: "k < 10 ^ j \<Longrightarrow> 0 < j \<Longrightarrow> length (nat_str k) \<le> j"
proof (induction k arbitrary: j rule: nat_str.induct)
  case (1 k)
  show ?case
  proof (cases "k < 10")
    case True
    with "1.prems" show ?thesis by (simp add: nat_str.simps [of k])
  next
    case False
    then obtain j' where j: "j = Suc j'" using "1.prems" by (cases j) simp_all
    have "0 < j'" using False "1.prems" j by (cases j') simp_all
    moreover have "k div 10 < 10 ^ j'" using "1.prems" j by (simp add: less_mult_imp_div_less mult.commute)
    ultimately have "length (nat_str (k div 10)) \<le> j'" using "1.IH" [OF False] by blast
    with j False show ?thesis by (simp add: nat_str.simps [of k])
  qed
qed

lemma digits_acc_zeros: "digits_acc 0 (replicate j (CHR ''0'') @ s) = digits_acc 0 s"
  by (induction j) simp_all

lemma length_pad [simp]: "n < 10 ^ k \<Longrightarrow> 0 < k \<Longrightarrow> length (pad k n) = k"
proof -
  assume "n < 10 ^ k" "0 < k"
  then have "length (nat_str n) \<le> k" by (rule length_nat_str)
  then show ?thesis unfolding pad_def length_append length_replicate by (rule le_add_diff_inverse2)
qed

lemma digits_val_pad [simp]: "digits_val (pad k n) = Some n"
proof -
  have "pad k n \<noteq> []" unfolding pad_def by simp
  moreover have "digits_acc 0 (pad k n) = Some n"
    unfolding pad_def digits_acc_zeros nat_str_digits by simp
  ultimately show ?thesis by (simp add: digits_val_def)
qed

subsection \<open>toISOString and Date.parse\<close>

definition max_time :: int where
  "max_time = 8640000000000000"

definition iso_year :: "int \<Rightarrow> string" where
  "iso_year y =
     (if 0 \<le> y \<and> y \<le> 9999 then pad 4 (nat y)
      else (if y < 0 then ''-'' else ''+'') @ pad 6 (nat \<bar>y\<bar>))"

definition iso_string :: "millis \<Rightarrow> string option" where
  "iso_string t =
     (if \<bar>t\<bar> \<le> max_time then
        (let d = t div ms_per_day; r = t mod ms_per_day in
         Some (iso_year (year_from_day d) @ ''-'' @ pad 2 (nat (month_from_day d + 1)) @ ''-'' @
               pad 2 (nat (date_from_day d)) @ ''T'' @ pad 2 (nat (r div 3600000)) @ '':'' @
               pad 2 (nat (r div 60000 mod 60)) @ '':'' @ pad 2 (nat (r div 1000 mod 60)) @ ''.'' @
               pad 3 (nat (r mod 1000)) @ ''Z''))
      else None)"

text \<open>The date part \<open>YYYY-MM-DD\<close> of the string \<open>toISOString()\<close> prints for an instant of the UTC day \<open>d\<close>.\<close>

definition iso_date :: "jsdate \<Rightarrow> string" where
  "iso_date d = iso_year (year_from_day d) @ ''-'' @ pad 2 (nat (month_from_day d + 1)) @ ''-'' @
     pad 2 (nat (date_from_day d))"

definition iso_year_val :: "string \<Rightarrow> int option" where
  "iso_year_val ys =
     (if length ys = 4 then map_option int (digits_val ys)
      else if length ys = 7 \<and> hd ys = CHR ''+'' then map_option int (digits_val (tl ys))
      else if length ys = 7 \<and> hd ys = CHR ''-'' \<and> tl ys \<noteq> ''000000''
      then map_option (\<lambda>n. - int n) (digits_val (tl ys))
      else None)"

definition field :: "nat \<Rightarrow> nat \<Rightarrow> string \<Rightarrow> nat option" where
  "field i n s = digits_val (take n (drop i s))"

definition parse_iso :: "string \<Rightarrow> millis option" where
  "parse_iso s =
     (let k = (if length s = 27 then 7 else 4); r = drop k s in
      if length r = 20 \<and> r ! 0 = CHR ''-'' \<and> r ! 3 = CHR ''-'' \<and> r ! 6 = CHR ''T'' \<and>
         r ! 9 = CHR '':'' \<and> r ! 12 = CHR '':'' \<and> r ! 15 = CHR ''.'' \<and> r ! 19 = CHR ''Z''
      then
        (case (iso_year_val (take k s), field 1 2 r, field 4 2 r, field 7 2 r, field 10 2 r,
               field 13 2 r, field 16 3 r) of
           (Some y, Some mo, Some d, Some h, Some mi, Some se, Some ms) \<Rightarrow>
             (if 1 \<le> mo \<and> mo \<le> 12 \<and> 1 \<le> d \<and> int d \<le> month_length y (int mo - 1) \<and>
                 (h < 24 \<or> (h = 24 \<and> mi = 0 \<and> se = 0 \<and> ms = 0)) \<and> mi \<le> 59 \<and> se \<le> 59
              then
                (let t = make_day y (int mo - 1) (int d) * ms_per_day +
                         int (((h * 60 + mi) * 60 + se) * 1000 + ms)
                 in if \<bar>t\<bar> \<le> max_time then Some t else None)
              else None)
         | _ \<Rightarrow> None)
      else None)"

subsection \<open>The months a Date holds\<close>

text \<open>
  A month every day of which \<open>new Date(year, month, i)\<close> holds as a valid
  date: the local midnight is within \<open>max_time\<close> of the epoch (TimeClip).
  Outside such months the code's dates become invalid (\<open>NaN\<close>) and
  \<open>toISOString()\<close> throws; the model of \<open>generateCalendar\<close> is the
  code's behaviour for months of this range.
\<close>

definition month_in_range :: "time_zone \<Rightarrow> int \<Rightarrow> int \<Rightarrow> bool" where
  "month_in_range tz month year \<longleftrightarrow>
     list_all (\<lambda>i. \<bar>get_time tz (make_day year month i)\<bar> \<le> max_time) [1..month_length year month]"

subsection \<open>Bounds of the getters\<close>

lemma month_scan_rest:
  assumes "month_scan ls d k = (m, e)" "0 \<le> d" "d < sum_list ls"
  shows "0 \<le> e \<and> e < ls ! (m - k)"
  using assms
proof (induction ls arbitrary: d k)
  case Nil
  then show ?case by simp
next
  case (Cons l ls)
  show ?case
  proof (cases "d < l")
    case True
    with Cons.prems show ?thesis by simp
  next
    case False
    with Cons.prems have scan: "month_scan ls (d - l) (Suc k) = (m, e)" "0 \<le> d - l"
      "d - l < sum_list ls" by simp_all
    have "Suc k \<le> m" using month_scan_split [OF scan(1,2)] by simp
    then have "(l # ls) ! (m - k) = ls ! (m - Suc k)" by (simp add: Suc_diff_Suc [symmetric])
    with Cons.IH [OF scan] show ?thesis by simp
  qed
qed

lemma date_from_day_bounds:
  "1 \<le> date_from_day t \<and> date_from_day t \<le> month_length (year_from_day t) (month_from_day t)"
proof -
  let ?y = "year_from_day t"
  obtain mm e where scan: "month_scan (month_lengths ?y) (day_within_year t) 0 = (mm, e)"
    by (metis prod.exhaust)
  have bounds: "day_from_year ?y \<le> t" "t < day_from_year (?y + 1)"
    using year_from_day_iff [of t ?y] by simp_all
  then have "0 \<le> day_within_year t" "day_within_year t < sum_list (month_lengths ?y)"
    by (simp_all add: day_within_year_def day_from_year_succ)
  from month_scan_rest [OF scan this] show ?thesis
    using scan by (simp add: date_from_day_def month_from_day_def month_length_def)
qed

lemma day_from_year_low: "day_from_year (- 271821) < - 100000000"
  by (simp add: day_from_year_def)

lemma day_from_year_high: "100000000 < day_from_year 275761"
  by (simp add: day_from_year_def)

lemma year_from_day_range:
  assumes "\<bar>d\<bar> \<le> 100000000"
  shows "- 271821 \<le> year_from_day d \<and> year_from_day d \<le> 275760"
proof -
  let ?y = "year_from_day d"
  have b: "day_from_year ?y \<le> d" "d < day_from_year (?y + 1)"
    using year_from_day_iff [of d ?y] by simp_all
  have "\<not> ?y + 1 \<le> - 271821"
  proof
    assume "?y + 1 \<le> - 271821"
    then have "day_from_year (?y + 1) \<le> day_from_year (- 271821)" by simp
    with b day_from_year_low assms show False by simp
  qed
  moreover have "\<not> 275761 \<le> ?y"
  proof
    assume "275761 \<le> ?y"
    then have "day_from_year 275761 \<le> day_from_year ?y" by simp
    with b day_from_year_high assms show False by simp
  qed
  ultimately show ?thesis by simp
qed

subsection \<open>The round trip of an ISO string\<close>

lemma list_of_length_2: "length xs = 2 \<Longrightarrow> xs = [xs ! 0, xs ! 1]"
  by (cases xs; cases "tl xs") auto

lemma list_of_length_3: "length xs = 3 \<Longrightarrow> xs = [xs ! 0, xs ! 1, xs ! 2]"
  by (cases xs; cases "tl xs"; cases "tl (tl xs)") auto

lemma iso_rest_parts:
  assumes "length A = 2" "length B = 2" "length C = 2" "length E = 2" "length F = 2" "length G = 3"
      and R: "R = ''-'' @ A @ ''-'' @ B @ ''T'' @ C @ '':'' @ E @ '':'' @ F @ ''.'' @ G @ ''Z''"
  shows "length R = 20 \<and> R ! 0 = CHR ''-'' \<and> R ! 3 = CHR ''-'' \<and> R ! 6 = CHR ''T'' \<and>
         R ! 9 = CHR '':'' \<and> R ! 12 = CHR '':'' \<and> R ! 15 = CHR ''.'' \<and> R ! 19 = CHR ''Z'' \<and>
         field 1 2 R = digits_val A \<and> field 4 2 R = digits_val B \<and> field 7 2 R = digits_val C \<and>
         field 10 2 R = digits_val E \<and> field 13 2 R = digits_val F \<and> field 16 3 R = digits_val G"
proof -
  obtain a0 a1 where a: "A = [a0, a1]" using list_of_length_2 [OF assms(1)] by blast
  obtain b0 b1 where b: "B = [b0, b1]" using list_of_length_2 [OF assms(2)] by blast
  obtain c0 c1 where c: "C = [c0, c1]" using list_of_length_2 [OF assms(3)] by blast
  obtain e0 e1 where e: "E = [e0, e1]" using list_of_length_2 [OF assms(4)] by blast
  obtain f0 f1 where f: "F = [f0, f1]" using list_of_length_2 [OF assms(5)] by blast
  obtain g0 g1 g2 where g: "G = [g0, g1, g2]" using list_of_length_3 [OF assms(6)] by blast
  show ?thesis by (simp add: R a b c e f g field_def)
qed

lemma digits_val_zeros: "digits_val ''000000'' = Some 0"
  by (simp add: digits_val_def)

lemma iso_year_parse:
  assumes "- 999999 \<le> y" "y \<le> 999999"
  shows "iso_year_val (iso_year y) = Some y \<and>
         length (iso_year y) = (if 0 \<le> y \<and> y \<le> 9999 then 4 else 7)"
proof (cases "0 \<le> y \<and> y \<le> 9999")
  case True
  then have "nat y < 10 ^ 4" by (simp add: nat_less_iff)
  with True show ?thesis by (simp add: iso_year_def iso_year_val_def)
next
  case False
  have n: "nat \<bar>y\<bar> < 10 ^ 6" using assms by simp
  show ?thesis
  proof (cases "y < 0")
    case True
    have "pad 6 (nat \<bar>y\<bar>) \<noteq> ''000000''"
    proof
      assume "pad 6 (nat \<bar>y\<bar>) = ''000000''"
      then have "digits_val (pad 6 (nat \<bar>y\<bar>)) = Some 0" by (simp only: digits_val_zeros)
      with True show False by simp
    qed
    with True n show ?thesis by (simp add: iso_year_def iso_year_val_def)
  next
    case False
    with \<open>\<not> (0 \<le> y \<and> y \<le> 9999)\<close> n show ?thesis by (simp add: iso_year_def iso_year_val_def)
  qed
qed

lemma time_of_day_parts:
  "((r div 3600000 * 60 + r div 60000 mod 60) * 60 + r div 1000 mod 60) * 1000 + r mod 1000 = (r::nat)"
proof -
  have d1: "r div 60000 = r div 1000 div 60" and d2: "r div 3600000 = r div 1000 div 60 div 60"
    by (simp_all add: div_mult2_eq [symmetric])
  let ?a = "r div 1000"
  have "r = ?a * 1000 + r mod 1000" by simp
  moreover have "?a = ?a div 60 * 60 + ?a mod 60" by simp
  moreover have "?a div 60 = ?a div 60 div 60 * 60 + ?a div 60 mod 60" by simp
  ultimately show ?thesis unfolding d1 d2 by presburger
qed

lemma month_length_le_31: "0 \<le> m \<Longrightarrow> m < 12 \<Longrightarrow> month_length y m \<le> 31"
proof -
  assume "0 \<le> m" "m < 12"
  then have "nat m < length (month_lengths y)" by simp
  moreover have "\<forall>l \<in> set (month_lengths y). l \<le> 31" by (simp add: month_lengths_def)
  ultimately show ?thesis unfolding month_length_def by (meson nth_mem)
qed

lemma time_fields_nat:
  "0 \<le> x \<Longrightarrow> nat (x div 3600000) = nat x div 3600000 \<and>
     nat (x div 60000 mod 60) = nat x div 60000 mod 60 \<and>
     nat (x div 1000 mod 60) = nat x div 1000 mod 60 \<and> nat (x mod 1000) = nat x mod 1000"
  by (simp add: nat_div_distrib nat_mod_distrib)

lemma day_of_time_bounds:
  assumes "\<bar>t\<bar> \<le> max_time"
  shows "\<bar>t div ms_per_day\<bar> \<le> 100000000"
proof -
  have "t div ms_per_day \<le> max_time div ms_per_day"
    using assms by (intro zdiv_mono1) simp_all
  moreover have "(- max_time) div ms_per_day \<le> t div ms_per_day"
    using assms by (intro zdiv_mono1) simp_all
  ultimately show ?thesis by (simp add: max_time_def ms_per_day_value)
qed

text \<open>Every instant within the range of a JavaScript Date is printed by toISOString and read back by new Date(string) unchanged: the data-date of a day cell gives back exactly the cell's local midnight.\<close>

theorem iso_parse_roundtrip:
  assumes t: "\<bar>t\<bar> \<le> max_time"
  shows "\<exists>s. iso_string t = Some s \<and> parse_iso s = Some t"
proof -
  define D where "D = t div ms_per_day"
  define r where "r = nat (t mod ms_per_day)"
  define y where "y = year_from_day D"
  define m where "m = month_from_day D"
  define dd where "dd = date_from_day D"
  define Y where "Y = iso_year y"
  define R where "R = ''-'' @ pad 2 (nat (m + 1)) @ ''-'' @ pad 2 (nat dd) @ ''T'' @
    pad 2 (r div 3600000) @ '':'' @ pad 2 (r div 60000 mod 60) @ '':'' @
    pad 2 (r div 1000 mod 60) @ ''.'' @ pad 3 (r mod 1000) @ ''Z''"
  have iso: "iso_string t = Some (Y @ R)"
    using t time_fields_nat [of "t mod ms_per_day"]
    by (simp add: iso_string_def Let_def Y_def R_def y_def m_def dd_def D_def r_def)
  have tr: "t = D * ms_per_day + int r"
    by (simp add: D_def r_def)
  have rlt: "r < 86400000"
    by (simp add: r_def ms_per_day_value nat_less_iff)
  have yr: "- 271821 \<le> y \<and> y \<le> 275760"
    unfolding y_def D_def by (rule year_from_day_range [OF day_of_time_bounds [OF t]])
  have mr: "0 \<le> m \<and> m < 12" unfolding m_def by (rule month_from_day_bounds)
  have dr: "1 \<le> dd \<and> dd \<le> month_length y m"
    unfolding dd_def y_def m_def by (rule date_from_day_bounds)
  have d31: "dd \<le> 31" using dr mr month_length_le_31 [of m y] by simp
  have yv: "iso_year_val Y = Some y \<and> length Y = (if 0 \<le> y \<and> y \<le> 9999 then 4 else 7)"
    unfolding Y_def using yr by (intro iso_year_parse) simp_all
  have parts: "length R = 20 \<and> R ! 0 = CHR ''-'' \<and> R ! 3 = CHR ''-'' \<and> R ! 6 = CHR ''T'' \<and>
      R ! 9 = CHR '':'' \<and> R ! 12 = CHR '':'' \<and> R ! 15 = CHR ''.'' \<and> R ! 19 = CHR ''Z'' \<and>
      field 1 2 R = Some (nat (m + 1)) \<and> field 4 2 R = Some (nat dd) \<and>
      field 7 2 R = Some (r div 3600000) \<and> field 10 2 R = Some (r div 60000 mod 60) \<and>
      field 13 2 R = Some (r div 1000 mod 60) \<and> field 16 3 R = Some (r mod 1000)"
  proof -
    have "nat (m + 1) < 10 ^ 2" "nat dd < 10 ^ 2" "r div 3600000 < 10 ^ 2"
      "r div 60000 mod 60 < 10 ^ 2" "r div 1000 mod 60 < 10 ^ 2" "r mod 1000 < 10 ^ 3"
      using mr d31 rlt by (simp_all add: nat_less_iff less_mult_imp_div_less)
    then show ?thesis using iso_rest_parts [OF _ _ _ _ _ _ R_def] by simp
  qed
  have k: "(if length (Y @ R) = 27 then 7 else 4) = length Y" using yv parts by auto
  have make: "make_day y (int (nat (m + 1)) - 1) (int (nat dd)) = D"
    using mr dr day_roundtrip [of D] by (simp add: y_def m_def dd_def)
  have time: "int (((r div 3600000 * 60 + r div 60000 mod 60) * 60 + r div 1000 mod 60) * 1000 +
      r mod 1000) = int r" by (simp only: time_of_day_parts)
  have valid: "1 \<le> nat (m + 1) \<and> nat (m + 1) \<le> 12 \<and> 1 \<le> nat dd \<and>
      int (nat dd) \<le> month_length y (int (nat (m + 1)) - 1) \<and> r div 3600000 < 24 \<and>
      r div 60000 mod 60 \<le> 59 \<and> r div 1000 mod 60 \<le> 59"
  proof -
    have "1 \<le> nat (m + 1) \<and> nat (m + 1) \<le> 12 \<and> 1 \<le> nat dd"
      using mr dr by (simp add: nat_le_iff le_nat_iff)
    moreover have "r div 60000 mod 60 < 60" "r div 1000 mod 60 < 60" by simp_all
    then have "r div 60000 mod 60 \<le> 59" "r div 1000 mod 60 \<le> 59" by linarith+
    ultimately show ?thesis using mr dr rlt by (simp add: less_mult_imp_div_less)
  qed
  have "parse_iso (Y @ R) = Some t"
    unfolding parse_iso_def Let_def k using yv parts valid make time t
    by (simp add: tr [symmetric])
  with iso show ?thesis by blast
qed

lemma make_day_in_year_bounds:
  assumes "0 \<le> month" "month < 12" "1 \<le> i" "i \<le> month_length year month"
  shows "day_from_year year \<le> make_day year month i \<and> make_day year month i < day_from_year (year + 1)"
proof -
  have "days_before_month year (nat month) + month_length year month = days_before_month year (Suc (nat month))"
    using assms by (simp add: days_before_month_Suc month_length_def)
  also have "\<dots> \<le> days_in_year year" by (rule days_before_month_le_year)
  finally show ?thesis
    using assms days_before_month_nonneg [of year "nat month"]
    by (simp add: make_day_in_year day_from_year_succ)
qed

text \<open>Every month of the years -271820 to 275759 is held whole, in any zone whose offsets are
  smaller than a day.\<close>

lemma day_from_year_first_full: "- 100000000 < day_from_year (- 271820)"
  by (simp add: day_from_year_def)

lemma day_from_year_last_full: "day_from_year 275760 < 100000000"
  by (simp add: day_from_year_def)

lemma month_in_range_years:
  assumes off: "\<forall>d. \<bar>tz d\<bar> < ms_per_day"
      and yr: "- 271820 \<le> year" "year \<le> 275759" and m: "0 \<le> month" "month < 12"
  shows "month_in_range tz month year"
  unfolding month_in_range_def list_all_iff
proof
  fix i assume "i \<in> set [1..month_length year month]"
  then have i: "1 \<le> i" "i \<le> month_length year month" by simp_all
  let ?d = "make_day year month i"
  have b: "day_from_year year \<le> ?d" "?d < day_from_year (year + 1)"
    using make_day_in_year_bounds [OF m i] by simp_all
  have "day_from_year (- 271820) \<le> day_from_year year" using yr(1) by (rule day_from_year_mono)
  moreover have "day_from_year (year + 1) \<le> day_from_year 275760" using yr(2) by (intro day_from_year_mono) simp
  ultimately have "- 100000000 < ?d" "?d < 100000000"
    using b day_from_year_first_full day_from_year_last_full by linarith+
  moreover have "\<bar>tz ?d\<bar> < ms_per_day" using off by simp
  ultimately show "\<bar>get_time tz ?d\<bar> \<le> max_time"
    by (simp add: get_time_def max_time_def ms_per_day_value abs_le_iff abs_less_iff)
qed

text \<open>A day of the year 275761 or later, or of the year -271822 or earlier, is not: whatever the
  zone offset of that day, the Date of its local midnight is invalid and has no ISO string.\<close>

theorem iso_string_beyond_range:
  assumes off: "\<bar>tz' (make_day year month i)\<bar> < ms_per_day"
      and yr: "275761 \<le> year \<or> year \<le> - 271822"
      and m: "0 \<le> month" "month < 12" and i: "1 \<le> i" "i \<le> month_length year month"
  shows "iso_string (get_time tz' (make_day year month i)) = None"
proof -
  let ?d = "make_day year month i"
  have b: "day_from_year year \<le> ?d" "?d < day_from_year (year + 1)"
    using make_day_in_year_bounds [OF m i] by simp_all
  have "100000001 \<le> ?d \<or> ?d \<le> - 100000001"
  proof (cases "275761 \<le> year")
    case True
    then have "day_from_year 275761 \<le> day_from_year year" by (rule day_from_year_mono)
    with b day_from_year_high show ?thesis by linarith
  next
    case False
    with yr have "year + 1 \<le> - 271821" by simp
    then have "day_from_year (year + 1) \<le> day_from_year (- 271821)" by (rule day_from_year_mono)
    with b day_from_year_low show ?thesis by linarith
  qed
  then have "max_time < \<bar>?d * ms_per_day - tz' ?d\<bar>"
    using off by (auto simp: max_time_def ms_per_day_value abs_less_iff)
  then show ?thesis by (simp add: iso_string_def get_time_def)
qed

text \<open>\<open>toISOString()\<close> prints the date of the UTC day of the instant, and the local midnight of day \<open>d\<close> lies on the UTC day before \<open>d\<close> exactly when the zone is ahead of UTC.\<close>

lemma iso_string_date:
  "\<bar>t\<bar> \<le> max_time \<Longrightarrow> \<exists>rest. iso_string t = Some (iso_date (t div ms_per_day) @ ''T'' @ rest)"
  by (simp add: iso_string_def iso_date_def Let_def)

lemma get_time_div:
  assumes "\<bar>tz' d\<bar> < ms_per_day"
  shows "get_time tz' d div ms_per_day = (if 0 < tz' d then d - 1 else d)"
proof (cases "0 < tz' d")
  case True
  have "get_time tz' d = (ms_per_day - tz' d) + (d - 1) * ms_per_day"
    by (simp add: get_time_def algebra_simps)
  moreover have "(ms_per_day - tz' d) div ms_per_day = 0"
    using True assms by (intro div_pos_pos_trivial) simp_all
  ultimately show ?thesis using True by (simp add: ms_per_day_value)
next
  case False
  have "get_time tz' d = (- tz' d) + d * ms_per_day"
    by (simp add: get_time_def algebra_simps)
  moreover have "(- tz' d) div ms_per_day = 0"
    using False assms by (intro div_pos_pos_trivial) simp_all
  ultimately show ?thesis using False by (simp add: ms_per_day_value)
qed

end
