(* ===== verification/Widget_State.thy ===== *)
theory Widget_State
  imports Js_Iso
begin

text \<open>
  The state of one \<open>my-date-range-calendar\<close> element: the fields the
  constructor of class \<open>MyDateRangeCalendar\<close> creates
  (src/my-date-range-calendar.js, lines 6-40), the shadow tree that
  \<open>render()\<close> fills (lines 63-290) and the component's two outputs to the
  page, the \<open>dateRangeSelected\<close> events it dispatches and the messages it
  logs. Every other theory reads and writes this record. The shadow tree is
  kept as the elements the code looks up by id; an element the code looks
  up may be absent (\<open>None\<close>), which is how the error paths of
  \<open>generateCalendar\<close>, \<open>updateDisplay\<close> and \<open>connectedCallback\<close> are
  reached.
\<close>

subsection \<open>The cells of a calendar grid\<close>

text \<open>
  A day cell (\<open>div.day\<close>, lines 331-357): its text, the date stored in
  \<open>data-date\<close> (the ISO string of the cell's local midnight, which
  \<open>new Date(...)\<close> parses back to the same instant), its classes, and
  whether the click and mouseover listeners were attached to it.
\<close>

record day_div =
  day_text :: int
  day_date :: jsdate
  current_day :: bool
  past_day :: bool
  selected_delivery :: bool
  selected_pickup :: bool
  in_range :: bool
  hover_range :: bool
  day_listeners :: bool

datatype cell = DayName string | EmptyCell | DayCell day_div

text \<open>The text of \<open>#selectedRangeDisplay\<close>, before locale formatting.\<close>

datatype range_text =
    NoDatesSelected
  | Selecting jsdate
  | Hovering jsdate jsdate
  | RangeShown jsdate jsdate

text \<open>A click listener of a navigation button: \<open>navigateMonth(n, dir)\<close>.\<close>

datatype nav_listener = NavigateMonth int int

datatype grid_id = Grid1 | Grid2

datatype button_id = PrevMonth1 | NextMonth1 | PrevMonth2 | NextMonth2

record dom =
  calendarGrid1 :: "cell list option"
  calendarGrid2 :: "cell list option"
  monthYearDisplay1 :: "string option"
  monthYearDisplay2 :: "string option"
  selectedRangeDisplay :: "range_text option"
  dayCountDisplay :: "int option"
  prevMonth1 :: "nav_listener list option"
  nextMonth1 :: "nav_listener list option"
  prevMonth2 :: "nav_listener list option"
  nextMonth2 :: "nav_listener list option"

text \<open>
  The \<open>detail\<close> of a \<open>dateRangeSelected\<close> event (lines 440-448). Its two
  dates are sent as \<open>toISOString()\<close>; the model keeps the instant that
  string denotes.
\<close>

record range_detail =
  deliveryDate :: millis
  pickupDate :: millis
  numberOfDays :: int

record widget =
  selectedDeliveryDate :: "jsdate option"
  selectedPickupDate :: "jsdate option"
  hoverDate :: "jsdate option"
  currentMonth1 :: int
  currentYear1 :: int
  currentMonth2 :: int
  currentYear2 :: int
  shadowRoot :: dom
  dispatched :: "range_detail list"
  console :: "string list"

text \<open>
  The environment of a handler: the page's time zone and the local day of
  \<open>new Date()\<close> while the handler runs (a handler runs to completion
  before the next event, so it sees one clock value).
\<close>

record env =
  tz :: time_zone
  today :: jsdate

subsection \<open>Lookups by id\<close>

definition grid_element :: "grid_id \<Rightarrow> dom \<Rightarrow> cell list option" where
  "grid_element g d = (case g of Grid1 \<Rightarrow> calendarGrid1 d | Grid2 \<Rightarrow> calendarGrid2 d)"

definition set_grid :: "grid_id \<Rightarrow> cell list \<Rightarrow> dom \<Rightarrow> dom" where
  "set_grid g cs d =
     (case g of Grid1 \<Rightarrow> d\<lparr>calendarGrid1 := Some cs\<rparr> | Grid2 \<Rightarrow> d\<lparr>calendarGrid2 := Some cs\<rparr>)"

definition title_element :: "grid_id \<Rightarrow> dom \<Rightarrow> string option" where
  "title_element g d = (case g of Grid1 \<Rightarrow> monthYearDisplay1 d | Grid2 \<Rightarrow> monthYearDisplay2 d)"

definition set_title :: "grid_id \<Rightarrow> string \<Rightarrow> dom \<Rightarrow> dom" where
  "set_title g s d =
     (case g of Grid1 \<Rightarrow> d\<lparr>monthYearDisplay1 := Some s\<rparr> | Grid2 \<Rightarrow> d\<lparr>monthYearDisplay2 := Some s\<rparr>)"

definition button_element :: "button_id \<Rightarrow> dom \<Rightarrow> nav_listener list option" where
  "button_element b d =
     (case b of PrevMonth1 \<Rightarrow> prevMonth1 d | NextMonth1 \<Rightarrow> nextMonth1 d
      | PrevMonth2 \<Rightarrow> prevMonth2 d | NextMonth2 \<Rightarrow> nextMonth2 d)"

definition set_button :: "button_id \<Rightarrow> nav_listener list \<Rightarrow> dom \<Rightarrow> dom" where
  "set_button b ls d =
     (case b of PrevMonth1 \<Rightarrow> d\<lparr>prevMonth1 := Some ls\<rparr> | NextMonth1 \<Rightarrow> d\<lparr>nextMonth1 := Some ls\<rparr>
      | PrevMonth2 \<Rightarrow> d\<lparr>prevMonth2 := Some ls\<rparr> | NextMonth2 \<Rightarrow> d\<lparr>nextMonth2 := Some ls\<rparr>)"

text \<open>Every element the code looks up is present.\<close>

definition dom_complete :: "dom \<Rightarrow> bool" where
  "dom_complete d \<longleftrightarrow>
     calendarGrid1 d \<noteq> None \<and> calendarGrid2 d \<noteq> None \<and>
     monthYearDisplay1 d \<noteq> None \<and> monthYearDisplay2 d \<noteq> None \<and>
     selectedRangeDisplay d \<noteq> None \<and> dayCountDisplay d \<noteq> None \<and>
     prevMonth1 d \<noteq> None \<and> nextMonth1 d \<noteq> None \<and>
     prevMonth2 d \<noteq> None \<and> nextMonth2 d \<noteq> None"

text \<open>
  Two states agree on everything but the shadow tree and the console: the
  frame of the rendering operations.
\<close>

definition same_fields :: "widget \<Rightarrow> widget \<Rightarrow> bool" where
  "same_fields w w' \<longleftrightarrow>
     selectedDeliveryDate w' = selectedDeliveryDate w \<and>
     selectedPickupDate w' = selectedPickupDate w \<and> hoverDate w' = hoverDate w \<and>
     currentMonth1 w' = currentMonth1 w \<and> currentYear1 w' = currentYear1 w \<and>
     currentMonth2 w' = currentMonth2 w \<and> currentYear2 w' = currentYear2 w \<and>
     dispatched w' = dispatched w"

subsection \<open>Constructor and render()\<close>

definition monthNames :: "string list" where
  "monthNames = [''January'', ''February'', ''March'', ''April'', ''May'', ''June'',
     ''July'', ''August'', ''September'', ''October'', ''November'', ''December'']"

definition dayNames :: "string list" where
  "dayNames = [''Sun'', ''Mon'', ''Tue'', ''Wed'', ''Thu'', ''Fri'', ''Sat'']"

text \<open>
  \<open>`${this.monthNames[month]} ${year}`\<close>: an index outside the array reads
  \<open>undefined\<close>, which the template prints as such.
\<close>

definition month_title :: "int \<Rightarrow> int \<Rightarrow> string" where
  "month_title month year =
     (if 0 \<le> month \<and> month < 12 then monthNames ! nat month else ''undefined'')
     @ '' '' @ int_str year"

text \<open>\<open>attachShadow\<close> gives an empty shadow root.\<close>

definition empty_dom :: dom where
  "empty_dom = \<lparr>calendarGrid1 = None, calendarGrid2 = None,
     monthYearDisplay1 = None, monthYearDisplay2 = None,
     selectedRangeDisplay = None, dayCountDisplay = None,
     prevMonth1 = None, nextMonth1 = None, prevMonth2 = None, nextMonth2 = None\<rparr>"

text \<open>
  \<open>render()\<close> replaces the shadow tree by the template: two empty grids, two
  empty titles, the summary's initial texts and four buttons without
  listeners. Styles and layout are not modelled.
\<close>

definition render :: "widget \<Rightarrow> widget" where
  "render w = w\<lparr>shadowRoot := \<lparr>calendarGrid1 = Some [], calendarGrid2 = Some [],
     monthYearDisplay1 = Some [], monthYearDisplay2 = Some [],
     selectedRangeDisplay = Some NoDatesSelected, dayCountDisplay = Some 0,
     prevMonth1 = Some [], nextMonth1 = Some [], prevMonth2 = Some [], nextMonth2 = Some []\<rparr>\<rparr>"

definition construct :: "env \<Rightarrow> widget" where
  "construct e =
     (let m1 = month_from_day (today e); y1 = year_from_day (today e);
          next_month = make_day y1 (m1 + 1) 1
      in render \<lparr>selectedDeliveryDate = None, selectedPickupDate = None, hoverDate = None,
           currentMonth1 = m1, currentYear1 = y1,
           currentMonth2 = month_from_day next_month, currentYear2 = year_from_day next_month,
           shadowRoot = empty_dom, dispatched = [], console = []\<rparr>)"

subsection \<open>Lemmas on the lookups\<close>

lemma grid_element_set_grid [simp]:
  "grid_element g (set_grid g' cs d) = (if g = g' then Some cs else grid_element g d)"
  by (cases g; cases g') (simp_all add: grid_element_def set_grid_def)

lemma title_element_set_grid [simp]: "title_element g (set_grid g' cs d) = title_element g d"
  by (cases g; cases g') (simp_all add: title_element_def set_grid_def)

lemma title_element_set_title [simp]:
  "title_element g (set_title g' s d) = (if g = g' then Some s else title_element g d)"
  by (cases g; cases g') (simp_all add: title_element_def set_title_def)

lemma grid_element_set_title [simp]: "grid_element g (set_title g' s d) = grid_element g d"
  by (cases g; cases g') (simp_all add: grid_element_def set_title_def)

lemma dom_complete_lookups:
  "dom_complete d \<Longrightarrow> grid_element g d \<noteq> None \<and> title_element g d \<noteq> None \<and>
     button_element b d \<noteq> None"
  by (cases g; cases b) (simp_all add: dom_complete_def grid_element_def title_element_def
      button_element_def)

lemma dom_complete_set_grid [simp]: "dom_complete d \<Longrightarrow> dom_complete (set_grid g cs d)"
  by (cases g) (simp_all add: dom_complete_def set_grid_def)

lemma dom_complete_set_title [simp]: "dom_complete d \<Longrightarrow> dom_complete (set_title g s d)"
  by (cases g) (simp_all add: dom_complete_def set_title_def)

lemma dom_complete_set_button [simp]: "dom_complete d \<Longrightarrow> dom_complete (set_button b ls d)"
  by (cases b) (simp_all add: dom_complete_def set_button_def)

lemma same_fields_refl [simp]: "same_fields w w"
  by (simp add: same_fields_def)

lemma same_fields_trans [trans]: "same_fields w w1 \<Longrightarrow> same_fields w1 w2 \<Longrightarrow> same_fields w w2"
  by (simp add: same_fields_def)

lemma same_fields_dom [simp]: "same_fields w (w\<lparr>shadowRoot := d\<rparr>)"
  by (simp add: same_fields_def)

lemma same_fields_console [simp]: "same_fields w (w\<lparr>console := c\<rparr>)"
  by (simp add: same_fields_def)

lemma length_dayNames [simp]: "length dayNames = 7"
  by (simp add: dayNames_def)

lemma render_complete: "dom_complete (shadowRoot (render w))"
  by (simp add: render_def dom_complete_def)

subsection \<open>The constructor\<close>

text \<open>C25: The constructor shows today's month in the first calendar and the following month in the second (rolling over to January of the next year in December), with nothing selected and nothing dispatched.\<close>

theorem construct_cursors:
  "currentMonth1 (construct e) = month_from_day (today e) \<and>
   currentYear1 (construct e) = year_from_day (today e) \<and>
   0 \<le> currentMonth2 (construct e) \<and> currentMonth2 (construct e) < 12 \<and>
   12 * currentYear2 (construct e) + currentMonth2 (construct e) =
     12 * currentYear1 (construct e) + currentMonth1 (construct e) + 1 \<and>
   selectedDeliveryDate (construct e) = None \<and> selectedPickupDate (construct e) = None \<and>
   hoverDate (construct e) = None \<and> dispatched (construct e) = []"
proof -
  let ?m = "month_from_day (today e)" and ?y = "year_from_day (today e)"
  have m: "0 \<le> ?m \<and> ?m < 12" by (rule month_from_day_bounds)
  have "year_from_day (make_day ?y (?m + 1) 1) = ?y + (?m + 1) div 12 \<and>
        month_from_day (make_day ?y (?m + 1) 1) = (?m + 1) mod 12"
    using make_day_first_decompose [of ?y "?m + 1"] by simp
  with m show ?thesis by (simp add: construct_def render_def Let_def algebra_simps)
qed

end
