(* ===== verification/Calendar_Grid.thy ===== *)
theory Calendar_Grid
  imports Widget_State
begin

text \<open>
  The grid generator: \<open>generateCalendar(month, year, calendarId)\<close>
  (src/my-date-range-calendar.js, lines 298-365), the styling of a day cell
  by \<open>applyRangeStyles\<close> (lines 372-409) and the helpers \<open>minDate\<close> and
  \<open>maxDate\<close> (lines 532-544). A grid is seven day-name cells, one empty
  cell per weekday before the first of the month, and one day cell per day
  of the month. The lemmas show the shape of the grid, that each day cell
  sits under the name of its weekday and carries the date of its day, what
  each flag of a cell means in terms of day numbers, and the three outcomes
  of the lookups (success, the logged missing grid, the \<open>TypeError\<close> of a
  missing title).
\<close>

subsection \<open>minDate and maxDate\<close>

definition minDate :: "time_zone \<Rightarrow> jsdate \<Rightarrow> jsdate \<Rightarrow> jsdate" where
  "minDate tz' date1 date2 = (if get_time tz' date1 < get_time tz' date2 then date1 else date2)"

definition maxDate :: "time_zone \<Rightarrow> jsdate \<Rightarrow> jsdate \<Rightarrow> jsdate" where
  "maxDate tz' date1 date2 = (if get_time tz' date1 > get_time tz' date2 then date1 else date2)"

subsection \<open>applyRangeStyles\<close>

text \<open>
  The code compares the cell's \<open>toISOString()\<close> with the selected dates'
  (equal strings are equal instants) and compares \<open>Date\<close> objects with
  \<open>>=\<close> and \<open><=\<close> (their instants).
\<close>

definition applyRangeStyles :: "time_zone \<Rightarrow> widget \<Rightarrow> day_div \<Rightarrow> jsdate \<Rightarrow> day_div" where
  "applyRangeStyles tz' w dayDiv currentDate =
     (let t = get_time tz' currentDate in
      dayDiv\<lparr>
        selected_delivery :=
          (case selectedDeliveryDate w of Some s \<Rightarrow> t = get_time tz' s | None \<Rightarrow> False),
        selected_pickup :=
          (case selectedPickupDate w of Some p \<Rightarrow> t = get_time tz' p | None \<Rightarrow> False),
        in_range :=
          (case (selectedDeliveryDate w, selectedPickupDate w) of
             (Some s, Some p) \<Rightarrow>
               get_time tz' (minDate tz' s p) \<le> t \<and> t \<le> get_time tz' (maxDate tz' s p)
           | _ \<Rightarrow> False),
        hover_range :=
          (case (selectedDeliveryDate w, selectedPickupDate w, hoverDate w) of
             (Some s, None, Some h) \<Rightarrow>
               get_time tz' (minDate tz' s h) \<le> t \<and> t \<le> get_time tz' (maxDate tz' s h)
           | _ \<Rightarrow> False)\<rparr>)"

subsection \<open>generateCalendar\<close>

text \<open>
  One day cell (lines 331-357): \<open>current-day\<close> when its calendar date is
  today's, \<open>past-day\<close> and no listeners when its instant is before today's
  local midnight, then the range styles.
\<close>

definition day_cell :: "env \<Rightarrow> widget \<Rightarrow> int \<Rightarrow> int \<Rightarrow> int \<Rightarrow> day_div" where
  "day_cell e w year month i =
     (let currentDate = make_day year month i;
          past = get_time (tz e) currentDate < get_time (tz e) (today e)
      in applyRangeStyles (tz e) w
           \<lparr>day_text = i, day_date = currentDate, current_day = (currentDate = today e),
            past_day = past, selected_delivery = False, selected_pickup = False,
            in_range = False, hover_range = False, day_listeners = \<not> past\<rparr>
           currentDate)"

definition start_day_of_week :: "int \<Rightarrow> int \<Rightarrow> int" where
  "start_day_of_week year month = week_day (make_day year month 1)"

definition num_days_in_month :: "int \<Rightarrow> int \<Rightarrow> int" where
  "num_days_in_month year month = date_from_day (make_day year (month + 1) 0)"

definition calendar_cells :: "env \<Rightarrow> widget \<Rightarrow> int \<Rightarrow> int \<Rightarrow> cell list" where
  "calendar_cells e w month year =
     map DayName dayNames
     @ replicate (nat (start_day_of_week year month)) EmptyCell
     @ map (\<lambda>i. DayCell (day_cell e w year month i)) [1..num_days_in_month year month]"

definition grid_name :: "grid_id \<Rightarrow> string" where
  "grid_name g = (case g of Grid1 \<Rightarrow> ''calendarGrid1'' | Grid2 \<Rightarrow> ''calendarGrid2'')"

text \<open>
  A missing grid is logged and the call returns; a missing title element
  makes the assignment to its \<open>textContent\<close> throw, after the grid was
  filled.
\<close>

definition generateCalendar :: "env \<Rightarrow> widget \<Rightarrow> int \<Rightarrow> int \<Rightarrow> grid_id \<Rightarrow> widget outcome" where
  "generateCalendar e w month year calendarId =
     (case grid_element calendarId (shadowRoot w) of
        None \<Rightarrow> returns (w\<lparr>console := console w @
                   [''Calendar grid element with ID '' @ grid_name calendarId @ '' not found.'']\<rparr>)
      | Some _ \<Rightarrow>
          (let w1 = w\<lparr>shadowRoot :=
                 set_grid calendarId (calendar_cells e w month year) (shadowRoot w)\<rparr>
           in case title_element calendarId (shadowRoot w1) of
                None \<Rightarrow> throws w1 TypeError
              | Some _ \<Rightarrow> returns (w1\<lparr>shadowRoot :=
                   set_title calendarId (month_title month year) (shadowRoot w1)\<rparr>)))"

subsection \<open>The generator of the specification\<close>

text \<open>
  Section 4.2 of the specification describes the grid as a function of the
  month, today and the selection, with every flag a comparison of calendar
  dates. \<open>spec_cells\<close> is that function; it is not code.
\<close>

definition spec_day :: "jsdate \<Rightarrow> widget \<Rightarrow> int \<Rightarrow> int \<Rightarrow> int \<Rightarrow> day_div" where
  "spec_day t w year month i =
     (let d = make_day year month i in
      \<lparr>day_text = i, day_date = d, current_day = (d = t), past_day = (d < t),
       selected_delivery = (selectedDeliveryDate w = Some d),
       selected_pickup = (selectedPickupDate w = Some d),
       in_range = (case (selectedDeliveryDate w, selectedPickupDate w) of
                     (Some a, Some b) \<Rightarrow> min a b \<le> d \<and> d \<le> max a b | _ \<Rightarrow> False),
       hover_range = (case (selectedDeliveryDate w, selectedPickupDate w, hoverDate w) of
                        (Some a, None, Some h) \<Rightarrow> min a h \<le> d \<and> d \<le> max a h | _ \<Rightarrow> False),
       day_listeners = (t \<le> d)\<rparr>)"

definition spec_cells :: "jsdate \<Rightarrow> widget \<Rightarrow> int \<Rightarrow> int \<Rightarrow> cell list" where
  "spec_cells t w month year =
     map DayName dayNames
     @ replicate (nat (week_day (make_day year month 1))) EmptyCell
     @ map (\<lambda>i. DayCell (spec_day t w year month i))
           [1..month_length (year + month div 12) (month mod 12)]"

subsection \<open>Well-formed grids\<close>

text \<open>
  The shape every grid of the page has, whatever the selection: the type of
  a rendered calendar.
\<close>

definition cell_ok :: "cell \<Rightarrow> bool" where
  "cell_ok c =
     (case c of
        DayName s \<Rightarrow> s \<in> set dayNames
      | EmptyCell \<Rightarrow> True
      | DayCell d \<Rightarrow>
          1 \<le> day_text d \<and> day_text d \<le> 31 \<and> day_listeners d = (\<not> past_day d) \<and>
          (current_day d \<longrightarrow> \<not> past_day d) \<and> \<not> (in_range d \<and> hover_range d))"

definition grid_ok :: "cell list \<Rightarrow> bool" where
  "grid_ok cs \<longleftrightarrow>
     take 7 cs = map DayName dayNames \<and> list_all cell_ok cs \<and> 35 \<le> length cs \<and> length cs \<le> 44"

subsection \<open>Lemmas on minDate and maxDate\<close>

lemma minDate_time: "get_time tz' (minDate tz' a b) = min (get_time tz' a) (get_time tz' b)"
  by (simp add: minDate_def)

lemma maxDate_time: "get_time tz' (maxDate tz' a b) = max (get_time tz' a) (get_time tz' b)"
  by (simp add: maxDate_def)

lemma minDate_day: "tz_ok tz' \<Longrightarrow> minDate tz' a b = min a b"
  by (simp add: minDate_def get_time_less_iff)

lemma maxDate_day: "tz_ok tz' \<Longrightarrow> maxDate tz' a b = max a b"
  by (auto simp: maxDate_def get_time_less_iff)

lemma between_times_iff:
  "tz_ok tz' \<Longrightarrow>
   (get_time tz' (minDate tz' a b) \<le> get_time tz' d \<and> get_time tz' d \<le> get_time tz' (maxDate tz' a b))
   \<longleftrightarrow> min a b \<le> d \<and> d \<le> max a b"
  by (simp add: minDate_day maxDate_day get_time_le_iff)

subsection \<open>Shape of a grid\<close>

lemma start_day_of_week_bounds: "0 \<le> start_day_of_week year month" "start_day_of_week year month < 7"
  by (simp_all add: start_day_of_week_def week_day_def)

lemma num_days_in_month_eq:
  "num_days_in_month year month = month_length (year + month div 12) (month mod 12)"
  by (simp add: num_days_in_month_def days_in_month_last_day)

lemma num_days_in_month_bounds:
  "28 \<le> num_days_in_month year month" "num_days_in_month year month \<le> 31"
proof -
  have "28 \<le> month_length (year + month div 12) (month mod 12)"
    by (simp add: month_length_ge_28)
  then show "28 \<le> num_days_in_month year month" by (simp add: num_days_in_month_eq)
  have "\<forall>l \<in> set (month_lengths y). l \<le> 31" for y by (simp add: month_lengths_def)
  moreover have "nat (month mod 12) < length (month_lengths (year + month div 12))" by simp
  ultimately have "month_length (year + month div 12) (month mod 12) \<le> 31"
    unfolding month_length_def by (meson nth_mem)
  then show "num_days_in_month year month \<le> 31" by (simp add: num_days_in_month_eq)
qed

lemma length_calendar_cells:
  "length (calendar_cells e w month year) =
     7 + nat (start_day_of_week year month) + nat (num_days_in_month year month)"
  by (simp add: calendar_cells_def)

lemma calendar_cells_day:
  assumes "k < nat (num_days_in_month year month)"
  shows "calendar_cells e w month year ! (7 + nat (start_day_of_week year month) + k) =
         DayCell (day_cell e w year month (int k + 1))"
  using assms by (simp add: calendar_cells_def nth_append add.commute)

lemma calendar_cells_DayCell:
  assumes "j < length (calendar_cells e w month year)"
      and "calendar_cells e w month year ! j = DayCell c"
  obtains k where "j = 7 + nat (start_day_of_week year month) + k"
    and "k < nat (num_days_in_month year month)"
    and "c = day_cell e w year month (int k + 1)"
proof -
  let ?s = "nat (start_day_of_week year month)"
  have "\<not> j < 7 + ?s"
  proof
    assume j: "j < 7 + ?s"
    show False
    proof (cases "j < 7")
      case True
      then have "calendar_cells e w month year ! j = DayName (dayNames ! j)"
        by (simp add: calendar_cells_def nth_append)
      with assms(2) show False by simp
    next
      case False
      with j have "j - 7 < ?s" by simp
      with False have "calendar_cells e w month year ! j = EmptyCell"
        by (simp add: calendar_cells_def nth_append)
      with assms(2) show False by simp
    qed
  qed
  then obtain k where j: "j = 7 + ?s + k" by (metis le_add_diff_inverse not_le)
  with assms(1) have k: "k < nat (num_days_in_month year month)"
    by (simp add: length_calendar_cells)
  with j assms(2) calendar_cells_day [OF k] have "c = day_cell e w year month (int k + 1)" by simp
  with j k show ?thesis by (rule that)
qed

subsection \<open>The fields of a day cell\<close>

lemma day_cell_simps [simp]:
  "day_date (day_cell e w year month i) = make_day year month i"
  "day_text (day_cell e w year month i) = i"
  "current_day (day_cell e w year month i) = (make_day year month i = today e)"
  "past_day (day_cell e w year month i) =
     (get_time (tz e) (make_day year month i) < get_time (tz e) (today e))"
  "day_listeners (day_cell e w year month i) =
     (\<not> get_time (tz e) (make_day year month i) < get_time (tz e) (today e))"
  by (simp_all add: day_cell_def applyRangeStyles_def Let_def)

lemma day_cell_range_simps:
  "selected_delivery (day_cell e w year month i) =
     (case selectedDeliveryDate w of
        Some s \<Rightarrow> get_time (tz e) (make_day year month i) = get_time (tz e) s | None \<Rightarrow> False)"
  "selected_pickup (day_cell e w year month i) =
     (case selectedPickupDate w of
        Some p \<Rightarrow> get_time (tz e) (make_day year month i) = get_time (tz e) p | None \<Rightarrow> False)"
  "in_range (day_cell e w year month i) =
     (case (selectedDeliveryDate w, selectedPickupDate w) of
        (Some s, Some p) \<Rightarrow>
          get_time (tz e) (minDate (tz e) s p) \<le> get_time (tz e) (make_day year month i) \<and>
          get_time (tz e) (make_day year month i) \<le> get_time (tz e) (maxDate (tz e) s p)
      | _ \<Rightarrow> False)"
  "hover_range (day_cell e w year month i) =
     (case (selectedDeliveryDate w, selectedPickupDate w, hoverDate w) of
        (Some s, None, Some h) \<Rightarrow>
          get_time (tz e) (minDate (tz e) s h) \<le> get_time (tz e) (make_day year month i) \<and>
          get_time (tz e) (make_day year month i) \<le> get_time (tz e) (maxDate (tz e) s h)
      | _ \<Rightarrow> False)"
  by (simp_all add: day_cell_def applyRangeStyles_def Let_def)

subsection \<open>Claims about grids\<close>

text \<open>C8: A generated grid has seven day-name cells, as many padding cells as the weekday of the first of the month, and one cell per day of the month.\<close>

theorem calendar_cells_length:
  "length (calendar_cells e w month year) =
     7 + nat (week_day (make_day year month 1))
       + nat (month_length (year + month div 12) (month mod 12))"
  by (simp add: length_calendar_cells start_day_of_week_def num_days_in_month_eq)

text \<open>C9: Every day cell of a generated grid sits in the column of its weekday (position mod 7).\<close>

theorem calendar_cells_column:
  assumes "j < length (calendar_cells e w month year)"
      and "calendar_cells e w month year ! j = DayCell c"
  shows "int (j mod 7) = week_day (day_date c)"
proof -
  obtain k where j: "j = 7 + nat (start_day_of_week year month) + k"
    and c: "c = day_cell e w year month (int k + 1)"
    using calendar_cells_DayCell [OF assms] by blast
  let ?f = "make_day year month 1"
  have s: "start_day_of_week year month = (?f + 4) mod 7"
    by (simp add: start_day_of_week_def week_day_def)
  have "int (j mod 7) = (7 + (?f + 4) mod 7 + int k) mod 7"
    unfolding j using start_day_of_week_bounds(1) [of year month] by (simp add: of_nat_mod s)
  also have "\<dots> = (?f + int k + 4) mod 7"
    by (simp only: mod_cycle_add) (simp add: algebra_simps)
  also have "\<dots> = week_day (day_date c)"
    using make_day_offset [of year month "int k + 1"] c by (simp add: week_day_def)
  finally show ?thesis .
qed

text \<open>C10: Every day cell of a generated grid carries the date of its own text in the displayed month (after month overflow): the year, month and day read back from the date are the grid's.\<close>

theorem calendar_cells_dates:
  assumes "j < length (calendar_cells e w month year)"
      and "calendar_cells e w month year ! j = DayCell c"
  shows "year_from_day (day_date c) = year + month div 12 \<and>
         month_from_day (day_date c) = month mod 12 \<and>
         date_from_day (day_date c) = day_text c"
proof -
  obtain k where k: "k < nat (num_days_in_month year month)"
    and c: "c = day_cell e w year month (int k + 1)"
    using calendar_cells_DayCell [OF assms] by blast
  have "int k + 1 \<le> month_length (year + month div 12) (month mod 12)"
    using k by (simp add: num_days_in_month_eq)
  then show ?thesis
    using make_day_roundtrip [of "month mod 12" "int k + 1" "year + month div 12"] c
    by (simp add: make_day_norm [of year month])
qed

text \<open>C11: A day cell is past exactly when its date is before today, current exactly when it is today, and has listeners exactly when it is today or later.\<close>

theorem day_cell_today_flags:
  assumes "tz_ok (tz e)"
  shows "(past_day (day_cell e w year month i) \<longleftrightarrow> make_day year month i < today e) \<and>
         (current_day (day_cell e w year month i) \<longleftrightarrow> make_day year month i = today e) \<and>
         (day_listeners (day_cell e w year month i) \<longleftrightarrow> today e \<le> make_day year month i)"
  using assms by (simp add: get_time_less_iff not_less)

text \<open>C12: A day cell is marked selected, in range or in the hover range exactly as the specification's flags say, with the range taken from the earlier to the later of its two ends, inclusive.\<close>

theorem day_cell_selection_flags:
  assumes "tz_ok (tz e)"
  shows "(selected_delivery (day_cell e w year month i) \<longleftrightarrow>
            selectedDeliveryDate w = Some (make_day year month i)) \<and>
         (selected_pickup (day_cell e w year month i) \<longleftrightarrow>
            selectedPickupDate w = Some (make_day year month i)) \<and>
         (in_range (day_cell e w year month i) \<longleftrightarrow>
            (\<exists>a b. selectedDeliveryDate w = Some a \<and> selectedPickupDate w = Some b \<and>
               min a b \<le> make_day year month i \<and> make_day year month i \<le> max a b)) \<and>
         (hover_range (day_cell e w year month i) \<longleftrightarrow>
            (\<exists>a h. selectedDeliveryDate w = Some a \<and> selectedPickupDate w = None \<and>
               hoverDate w = Some h \<and>
               min a h \<le> make_day year month i \<and> make_day year month i \<le> max a h))"
  using assms
  by (auto simp: day_cell_range_simps between_times_iff get_time_eq_iff
      split: option.splits)

subsection \<open>The outcomes of generateCalendar\<close>

lemma generateCalendar_ok:
  "grid_element g (shadowRoot w) \<noteq> None \<Longrightarrow> title_element g (shadowRoot w) \<noteq> None \<Longrightarrow>
   generateCalendar e w month year g =
     returns (w\<lparr>shadowRoot := set_title g (month_title month year)
                 (set_grid g (calendar_cells e w month year) (shadowRoot w))\<rparr>)"
  by (auto simp: generateCalendar_def)

lemma generateCalendar_no_grid:
  "grid_element g (shadowRoot w) = None \<Longrightarrow>
   generateCalendar e w month year g =
     returns (w\<lparr>console := console w @
       [''Calendar grid element with ID '' @ grid_name g @ '' not found.'']\<rparr>)"
  by (simp add: generateCalendar_def)

lemma generateCalendar_no_title:
  "grid_element g (shadowRoot w) \<noteq> None \<Longrightarrow> title_element g (shadowRoot w) = None \<Longrightarrow>
   generateCalendar e w month year g =
     throws (w\<lparr>shadowRoot := set_grid g (calendar_cells e w month year) (shadowRoot w)\<rparr>) TypeError"
  by (auto simp: generateCalendar_def)

lemma generateCalendar_frame: "same_fields w (fst (generateCalendar e w month year g))"
  by (auto simp: generateCalendar_def returns_def throws_def Let_def split: option.splits)

lemma generateCalendar_complete:
  assumes "dom_complete (shadowRoot w)"
  shows "snd (generateCalendar e w month year g) = None \<and>
         dom_complete (shadowRoot (fst (generateCalendar e w month year g)))"
  using assms dom_complete_lookups [OF assms, of g PrevMonth1]
  by (simp add: generateCalendar_ok returns_def)

subsection \<open>The specification's generator\<close>

lemma day_cell_spec:
  assumes "tz_ok (tz e)"
  shows "day_cell e w year month i = spec_day (today e) w year month i"
  using assms
  by (simp add: day_cell_def applyRangeStyles_def spec_day_def Let_def get_time_less_iff
      get_time_eq_iff between_times_iff not_less eq_commute [of "make_day year month i"]
      split: option.splits)

text \<open>C21: When the zone's offsets differ by less than a day, the grid the code generates (comparing instants and ISO strings) is exactly the grid of the specification's generator (comparing calendar dates): the same cells in the same order with the same flags.\<close>

theorem calendar_cells_spec:
  assumes "tz_ok (tz e)"
  shows "calendar_cells e w month year = spec_cells (today e) w month year"
  using day_cell_spec [OF assms]
  by (simp add: calendar_cells_def spec_cells_def start_day_of_week_def num_days_in_month_eq)

subsection \<open>Well-formedness of the grids\<close>

lemma day_cell_ok:
  assumes "1 \<le> i" "i \<le> 31"
  shows "cell_ok (DayCell (day_cell e w year month i))"
proof -
  have "\<not> (in_range (day_cell e w year month i) \<and> hover_range (day_cell e w year month i))"
    by (auto simp: day_cell_range_simps split: option.splits)
  then show ?thesis using assms by (simp add: cell_ok_def)
qed

text \<open>C24: Every generated grid is well formed: it starts with the seven day names in order, has between 35 and 44 cells, and every day cell has a day number in 1..31, listeners exactly when it is not past, is never both today and past, and is never both in the range and in the hover range.\<close>

theorem calendar_cells_wf: "grid_ok (calendar_cells e w month year)"
proof -
  have n: "28 \<le> num_days_in_month year month" "num_days_in_month year month \<le> 31"
    by (rule num_days_in_month_bounds)+
  have s: "0 \<le> start_day_of_week year month" "start_day_of_week year month < 7"
    by (rule start_day_of_week_bounds)+
  have "list_all cell_ok (map (\<lambda>i. DayCell (day_cell e w year month i)) [1..num_days_in_month year month])"
    using n(2) by (auto simp: list_all_iff intro: day_cell_ok)
  moreover have "list_all cell_ok (map DayName dayNames)" by (simp add: list_all_iff cell_ok_def)
  moreover have "list_all cell_ok (replicate k EmptyCell)" for k by (simp add: list_all_iff cell_ok_def)
  moreover have "28 \<le> nat (start_day_of_week year month) + nat (num_days_in_month year month) \<and>
      nat (start_day_of_week year month) + nat (num_days_in_month year month) \<le> 37"
    using n s by (simp add: nat_add_distrib [symmetric] le_nat_iff nat_le_iff)
  ultimately show ?thesis
    by (simp add: grid_ok_def calendar_cells_def length_calendar_cells)
qed

end
