(* ===== verification/Calendar_Display.thy ===== *)
theory Calendar_Display
  imports Calendar_Grid
begin

text \<open>
  The re-rendering of the whole widget: \<open>updateDisplay()\<close>
  (src/my-date-range-calendar.js, lines 471-509) regenerates both grids and
  writes the summary, whose day count is \<open>calculateDaysBetween\<close>
  (lines 517-524). The lemmas give the count in day numbers, exactly when no
  change of the time-zone offset lies between the two dates and with the
  extra day the ceiling adds when the offset falls back (the end of daylight
  saving time); the summary in each state of the selection; the shadow tree
  \<open>updateDisplay\<close> leaves when every element exists, and that a second call
  changes nothing; and what happens when an element is missing. The claims
  that nothing is thrown or logged assume that the displayed months lie
  within the range of a \<open>Date\<close> (\<open>displayed_in_range\<close>).
\<close>

subsection \<open>calculateDaysBetween\<close>

definition calculateDaysBetween :: "time_zone \<Rightarrow> jsdate \<Rightarrow> jsdate \<Rightarrow> int" where
  "calculateDaysBetween tz' startDate endDate =
     (let oneDay = ms_per_day;
          diffTime = \<bar>get_time tz' endDate - get_time tz' startDate\<bar>;
          diffDays = ceil_div diffTime oneDay
      in diffDays + 1)"

subsection \<open>The summary\<close>

text \<open>
  The four branches of lines 480-504: the text of
  \<open>#selectedRangeDisplay\<close> and the number of \<open>#dayCountDisplay\<close>. The
  ordered pair is chosen with \<open><=\<close> on the two dates' instants.
\<close>

definition ordered_pair :: "time_zone \<Rightarrow> jsdate \<Rightarrow> jsdate \<Rightarrow> jsdate \<times> jsdate" where
  "ordered_pair tz' a b = (if get_time tz' a \<le> get_time tz' b then (a, b) else (b, a))"

definition display_summary :: "time_zone \<Rightarrow> widget \<Rightarrow> range_text \<times> int" where
  "display_summary tz' w =
     (case (selectedDeliveryDate w, selectedPickupDate w) of
        (Some d, Some p) \<Rightarrow>
          (let (s, e) = ordered_pair tz' d p in (RangeShown s e, calculateDaysBetween tz' s e))
      | (Some d, None) \<Rightarrow>
          (case hoverDate w of
             Some h \<Rightarrow>
               (let (s, e) = ordered_pair tz' d h in (Hovering s e, calculateDaysBetween tz' s e))
           | None \<Rightarrow> (Selecting d, 1))
      | (None, _) \<Rightarrow> (NoDatesSelected, 0))"

subsection \<open>updateDisplay\<close>

text \<open>
  Both grids are regenerated in order (either call may throw, which ends the
  handler); the two summary elements are written only when present.
\<close>

definition write_summary :: "range_text \<Rightarrow> int \<Rightarrow> dom \<Rightarrow> dom" where
  "write_summary displayRange dayCount d =
     (let d1 = (if selectedRangeDisplay d \<noteq> None
                then d\<lparr>selectedRangeDisplay := Some displayRange\<rparr> else d)
      in if dayCountDisplay d1 \<noteq> None then d1\<lparr>dayCountDisplay := Some dayCount\<rparr> else d1)"

definition updateDisplay :: "env \<Rightarrow> widget \<Rightarrow> widget outcome" where
  "updateDisplay e w =
     then_js (generateCalendar e w (currentMonth1 w) (currentYear1 w) Grid1) (\<lambda>w1.
     then_js (generateCalendar e w1 (currentMonth2 w1) (currentYear2 w1) Grid2) (\<lambda>w2.
       (let (displayRange, dayCount) = display_summary (tz e) w2
        in returns (w2\<lparr>shadowRoot := write_summary displayRange dayCount (shadowRoot w2)\<rparr>))))"

text \<open>The shadow tree \<open>updateDisplay\<close> produces when every element exists.\<close>

definition shown_dom :: "env \<Rightarrow> widget \<Rightarrow> dom" where
  "shown_dom e w =
     (shadowRoot w)\<lparr>
       calendarGrid1 := Some (calendar_cells e w (currentMonth1 w) (currentYear1 w)),
       calendarGrid2 := Some (calendar_cells e w (currentMonth2 w) (currentYear2 w)),
       monthYearDisplay1 := Some (month_title (currentMonth1 w) (currentYear1 w)),
       monthYearDisplay2 := Some (month_title (currentMonth2 w) (currentYear2 w)),
       selectedRangeDisplay := Some (fst (display_summary (tz e) w)),
       dayCountDisplay := Some (snd (display_summary (tz e) w))\<rparr>"

text \<open>
  Both displayed months lie within the range of a JavaScript Date in the
  page's zone, so that every \<open>new Date(year, month, i)\<close> of
  \<open>generateCalendar\<close> is a valid date. The claims that \<open>updateDisplay\<close>
  neither throws nor logs are stated for such states.
\<close>

definition displayed_in_range :: "env \<Rightarrow> widget \<Rightarrow> bool" where
  "displayed_in_range e w \<longleftrightarrow>
     month_in_range (tz e) (currentMonth1 w) (currentYear1 w) \<and>
     month_in_range (tz e) (currentMonth2 w) (currentYear2 w)"

subsection \<open>The day count\<close>

lemma calculateDaysBetween_sym: "calculateDaysBetween tz' a b = calculateDaysBetween tz' b a"
  by (simp add: calculateDaysBetween_def abs_minus_commute)

lemma ceil_div_nonneg: "0 \<le> a \<Longrightarrow> 0 < b \<Longrightarrow> 0 \<le> ceil_div a b"
  by (simp add: ceil_div_def div_nonpos_pos_le0)

lemma calculateDaysBetween_pos: "1 \<le> calculateDaysBetween tz' a b"
  by (simp add: calculateDaysBetween_def ceil_div_nonneg)

theorem calculateDaysBetween_same_offset:
  assumes "tz' s = tz' e"
  shows "calculateDaysBetween tz' s e = \<bar>e - s\<bar> + 1"
proof -
  have "\<bar>get_time tz' e - get_time tz' s\<bar> = \<bar>e - s\<bar> * ms_per_day"
    using assms by (simp add: get_time_diff abs_mult)
  then show ?thesis by (simp add: calculateDaysBetween_def)
qed

lemma days_between_ordered:
  assumes tz: "tz_ok tz'" and le: "s \<le> e"
  shows "calculateDaysBetween tz' s e = e - s + 1 + (if tz' e < tz' s then 1 else 0)"
proof (cases "s = e")
  case True
  then show ?thesis by (simp add: calculateDaysBetween_def)
next
  case False
  with le have lt: "s < e" by simp
  let ?k = "e - s" and ?d = "tz' e - tz' s"
  have off: "\<bar>?d\<bar> < ms_per_day" using tz by (simp add: tz_ok_def)
  have diff: "get_time tz' e - get_time tz' s = ?k * ms_per_day - ?d"
    by (rule get_time_diff)
  have "ms_per_day \<le> ?k * ms_per_day" using day_diff_scaled(1) [OF lt] .
  with off have pos: "0 < ?k * ms_per_day - ?d" by linarith
  show ?thesis
  proof (cases "tz' e < tz' s")
    case True
    have "ceil_div (?k * ms_per_day + (- ?d)) ms_per_day = ?k + 1"
      using True off by (intro ceil_div_above) simp_all
    then have "ceil_div (?k * ms_per_day - ?d) ms_per_day = ?k + 1"
      by (simp only: diff_conv_add_uminus)
    with diff pos True show ?thesis by (simp add: calculateDaysBetween_def)
  next
    case False
    have "ceil_div (?k * ms_per_day - ?d) ms_per_day = ?k"
      using False off by (intro ceil_div_below) simp_all
    with diff pos False show ?thesis by (simp add: calculateDaysBetween_def)
  qed
qed

text \<open>C5: calculateDaysBetween counts the local days from one date to the other inclusive, plus one more exactly when the later date's offset is smaller than the earlier one's (a range across the end of daylight saving).\<close>

theorem calculateDaysBetween_offsets:
  assumes "tz_ok tz'"
  shows "calculateDaysBetween tz' s e =
           \<bar>e - s\<bar> + 1 + (if tz' (max s e) < tz' (min s e) then 1 else 0)"
proof (cases "s \<le> e")
  case True
  then show ?thesis using days_between_ordered [OF assms True] by simp
next
  case False
  then show ?thesis
    using days_between_ordered [OF assms, of e s] calculateDaysBetween_sym [of tz' s e] by simp
qed

subsection \<open>The summary\<close>

lemma ordered_pair_day: "tz_ok tz' \<Longrightarrow> ordered_pair tz' a b = (min a b, max a b)"
  by (auto simp: ordered_pair_def get_time_le_iff)

text \<open>C13: The summary shows No dates selected with 0, the selected date with 1, or the ordered range (hovered or complete) with its calculateDaysBetween count, by the state of the selection.\<close>

theorem display_summary_days:
  assumes "tz_ok tz'"
  shows "display_summary tz' w =
    (case (selectedDeliveryDate w, selectedPickupDate w, hoverDate w) of
       (None, _, _) \<Rightarrow> (NoDatesSelected, 0)
     | (Some a, Some b, _) \<Rightarrow>
         (RangeShown (min a b) (max a b), calculateDaysBetween tz' (min a b) (max a b))
     | (Some a, None, None) \<Rightarrow> (Selecting a, 1)
     | (Some a, None, Some h) \<Rightarrow>
         (Hovering (min a h) (max a h), calculateDaysBetween tz' (min a h) (max a h)))"
  using assms
  by (simp add: display_summary_def ordered_pair_day split: option.splits)

subsection \<open>updateDisplay\<close>

lemma calendar_cells_same_fields:
  "same_fields w w' \<Longrightarrow> calendar_cells e w' month year = calendar_cells e w month year"
  by (simp add: same_fields_def calendar_cells_def day_cell_def applyRangeStyles_def)

lemma display_summary_same_fields:
  assumes "same_fields w w'"
  shows "display_summary tz' w' = display_summary tz' w"
proof -
  have "selectedDeliveryDate w' = selectedDeliveryDate w" "selectedPickupDate w' = selectedPickupDate w"
    "hoverDate w' = hoverDate w"
    using assms by (simp_all add: same_fields_def)
  then show ?thesis unfolding display_summary_def by (simp only:)
qed

lemma write_summary_frame [simp]: "same_fields w (w\<lparr>shadowRoot := write_summary r c d\<rparr>)"
  by simp

lemma updateDisplay_frame: "same_fields w (fst (updateDisplay e w))"
proof -
  let ?g1 = "generateCalendar e w (currentMonth1 w) (currentYear1 w) Grid1"
  let ?w1 = "fst ?g1"
  let ?g2 = "generateCalendar e ?w1 (currentMonth2 ?w1) (currentYear2 ?w1) Grid2"
  have f1: "same_fields w ?w1" by (rule generateCalendar_frame)
  have f2: "same_fields ?w1 (fst ?g2)" by (rule generateCalendar_frame)
  show ?thesis
  proof (cases "snd ?g1")
    case None
    show ?thesis
    proof (cases "snd ?g2")
      case None
      with \<open>snd ?g1 = None\<close> f1 f2 show ?thesis
        by (auto simp: updateDisplay_def then_js_state returns_def split: prod.splits
            intro: same_fields_trans)
    next
      case (Some err)
      with \<open>snd ?g1 = None\<close> f1 f2 show ?thesis
        by (auto simp: updateDisplay_def then_js_def then_js_state split: prod.splits
            intro: same_fields_trans)
    qed
  next
    case (Some err)
    with f1 show ?thesis by (auto simp: updateDisplay_def then_js_def split: prod.splits)
  qed
qed

lemma calendar_cells_dom [simp]:
  "calendar_cells e (w\<lparr>shadowRoot := d\<rparr>) month year = calendar_cells e w month year"
  "calendar_cells e (w\<lparr>console := c\<rparr>) month year = calendar_cells e w month year"
  by (simp_all add: calendar_cells_same_fields)

lemma display_summary_dom [simp]:
  "display_summary tz' (w\<lparr>shadowRoot := d\<rparr>) = display_summary tz' w"
  "display_summary tz' (w\<lparr>console := c\<rparr>) = display_summary tz' w"
  by (simp_all add: display_summary_same_fields)

lemma updateDisplay_complete:
  assumes c: "dom_complete (shadowRoot w)"
  shows "updateDisplay e w = returns (w\<lparr>shadowRoot := shown_dom e w\<rparr>)"
proof -
  let ?w1 = "w\<lparr>shadowRoot := set_title Grid1 (month_title (currentMonth1 w) (currentYear1 w))
     (set_grid Grid1 (calendar_cells e w (currentMonth1 w) (currentYear1 w)) (shadowRoot w))\<rparr>"
  have g1: "generateCalendar e w (currentMonth1 w) (currentYear1 w) Grid1 = returns ?w1"
    using dom_complete_lookups [OF c, of Grid1 PrevMonth1] by (simp add: generateCalendar_ok)
  have c1: "dom_complete (shadowRoot ?w1)" using c by simp
  let ?w2 = "?w1\<lparr>shadowRoot := set_title Grid2 (month_title (currentMonth2 w) (currentYear2 w))
     (set_grid Grid2 (calendar_cells e w (currentMonth2 w) (currentYear2 w)) (shadowRoot ?w1))\<rparr>"
  have g2: "generateCalendar e ?w1 (currentMonth2 w) (currentYear2 w) Grid2 = returns ?w2"
    using dom_complete_lookups [OF c1, of Grid2 PrevMonth1] by (simp add: generateCalendar_ok)
  have c2: "dom_complete (shadowRoot ?w2)" using c1 by simp
  obtain r n where rn: "display_summary (tz e) w = (r, n)" by (cases "display_summary (tz e) w")
  have "write_summary r n (shadowRoot ?w2) = shown_dom e w"
    using c2 rn
    by (simp add: write_summary_def shown_dom_def set_grid_def set_title_def dom_complete_def)
  then show ?thesis
    by (simp add: updateDisplay_def g1 g2 rn)
qed

text \<open>C14: When every element exists, re-rendering a rendered widget gives the same result.\<close>

theorem updateDisplay_idempotent:
  assumes "dom_complete (shadowRoot w)"
  shows "updateDisplay e (fst (updateDisplay e w)) = updateDisplay e w"
proof -
  have "dom_complete (shown_dom e w)"
    using assms by (simp add: shown_dom_def dom_complete_def)
  then show ?thesis
    using assms by (simp add: updateDisplay_complete returns_def shown_dom_def)
qed

text \<open>C20: When every element exists and both displayed months lie within the range of a JavaScript Date, updateDisplay neither throws nor logs, and every element still exists afterwards.\<close>

theorem updateDisplay_no_error:
  assumes "dom_complete (shadowRoot w)" and "displayed_in_range e w"
  shows "snd (updateDisplay e w) = None \<and> dom_complete (shadowRoot (fst (updateDisplay e w))) \<and>
         console (fst (updateDisplay e w)) = console w"
proof -
  have "dom_complete (shown_dom e w)"
    using assms by (simp add: shown_dom_def dom_complete_def)
  then show ?thesis using assms by (simp add: updateDisplay_complete returns_def)
qed

text \<open>C16: If the first month title is missing while its grid exists, updateDisplay throws a TypeError.\<close>

theorem updateDisplay_missing_title:
  assumes "grid_element Grid1 (shadowRoot w) \<noteq> None" "title_element Grid1 (shadowRoot w) = None"
  shows "snd (updateDisplay e w) = Some TypeError"
  using assms by (simp add: updateDisplay_def generateCalendar_no_title throws_def)

text \<open>C17: If the first grid is missing and the second calendar's month lies within the range of a JavaScript Date, updateDisplay logs the error and does not throw, leaves the first calendar as it was, renders the second calendar's grid and title, and writes the summary.\<close>

theorem updateDisplay_missing_grid:
  assumes "grid_element Grid1 (shadowRoot w) = None"
      and "grid_element Grid2 (shadowRoot w) \<noteq> None" "title_element Grid2 (shadowRoot w) \<noteq> None"
      and "month_in_range (tz e) (currentMonth2 w) (currentYear2 w)"
  shows "updateDisplay e w =
           returns (w\<lparr>console := console w @ [''Calendar grid element with ID calendarGrid1 not found.''],
                      shadowRoot := write_summary (fst (display_summary (tz e) w)) (snd (display_summary (tz e) w))
                        (set_title Grid2 (month_title (currentMonth2 w) (currentYear2 w))
                          (set_grid Grid2 (calendar_cells e w (currentMonth2 w) (currentYear2 w))
                            (shadowRoot w)))\<rparr>)"
  using assms
  by (simp add: updateDisplay_def generateCalendar_no_grid generateCalendar_ok grid_name_def
      returns_def split: prod.splits)

end
