(* ===== verification/Calendar_Selection.thy ===== *)
theory Calendar_Selection
  imports Calendar_Display
begin

text \<open>
  The selection state machine: \<open>handleDayClick\<close> and \<open>handleDayHover\<close>
  (src/my-date-range-calendar.js, lines 415-466) on the fields
  \<open>selectedDeliveryDate\<close>, \<open>selectedPickupDate\<close> and \<open>hoverDate\<close>. Both
  handlers end with \<open>updateDisplay()\<close>; a completed range also dispatches
  a \<open>dateRangeSelected\<close> event. The handlers are attached only to day cells
  that are not past (\<open>generateCalendar\<close>, lines 345-352), so their target is
  a day cell; such a cell never carries the class \<open>empty\<close>, so of the guard
  on \<open>past-day\<close> or \<open>empty\<close> only the first can hold.

  The lemmas state the invariant of the three fields (a pickup date only with
  a delivery date, a hover date only while the pickup date is pending), the
  refinement of the handlers to the abstract machine
  \<open>Empty | PendingEnd | Complete\<close> of the specification with the event each
  transition emits, and the properties of an emitted range.
\<close>

subsection \<open>The handlers\<close>

text \<open>
  The branches of lines 421-449 (\<open>click_fields\<close>), followed by the
  unconditional \<open>updateDisplay()\<close> of line 451. The event's dates are the earlier and the
  later of the two clicked dates, and its count is \<open>calculateDaysBetween\<close>
  of them.
\<close>

definition click_fields :: "env \<Rightarrow> widget \<Rightarrow> jsdate \<Rightarrow> widget" where
  "click_fields e w clickedDate =
     (if selectedDeliveryDate w = None \<or>
         (selectedDeliveryDate w \<noteq> None \<and> selectedPickupDate w \<noteq> None)
      then w\<lparr>selectedDeliveryDate := Some clickedDate, selectedPickupDate := None,
             hoverDate := None\<rparr>
      else
        (case selectedDeliveryDate w of
           None \<Rightarrow> w
         | Some delivery \<Rightarrow>
             (let w1 = w\<lparr>selectedPickupDate := Some clickedDate, hoverDate := None\<rparr>;
                  finalDeliveryDate = minDate (tz e) delivery clickedDate;
                  finalPickupDate = maxDate (tz e) delivery clickedDate;
                  finalDayCount = calculateDaysBetween (tz e) finalDeliveryDate finalPickupDate
              in w1\<lparr>dispatched := dispatched w1 @
                    [\<lparr>deliveryDate = get_time (tz e) finalDeliveryDate,
                      pickupDate = get_time (tz e) finalPickupDate,
                      numberOfDays = finalDayCount\<rparr>]\<rparr>)))"

definition handleDayClick :: "env \<Rightarrow> widget \<Rightarrow> day_div \<Rightarrow> widget outcome" where
  "handleDayClick e w target =
     (if past_day target then returns w
      else updateDisplay e (click_fields e w (day_date target)))"

definition handleDayHover :: "env \<Rightarrow> widget \<Rightarrow> day_div \<Rightarrow> widget outcome" where
  "handleDayHover e w target =
     (if selectedDeliveryDate w \<noteq> None \<and> selectedPickupDate w = None \<and> \<not> past_day target
      then updateDisplay e (w\<lparr>hoverDate := Some (day_date target)\<rparr>)
      else returns w)"

subsection \<open>Invariant and abstract machine\<close>

definition sel_inv :: "widget \<Rightarrow> bool" where
  "sel_inv w \<longleftrightarrow>
     (selectedPickupDate w \<noteq> None \<longrightarrow> selectedDeliveryDate w \<noteq> None) \<and>
     (hoverDate w \<noteq> None \<longrightarrow> selectedDeliveryDate w \<noteq> None \<and> selectedPickupDate w = None)"

text \<open>The states of the specification (section 4.3) and their transitions.\<close>

datatype sel_state = Empty | PendingEnd jsdate "jsdate option" | Complete jsdate jsdate

definition abs_sel :: "widget \<Rightarrow> sel_state" where
  "abs_sel w =
     (case (selectedDeliveryDate w, selectedPickupDate w) of
        (None, _) \<Rightarrow> Empty
      | (Some a, None) \<Rightarrow> PendingEnd a (hoverDate w)
      | (Some a, Some b) \<Rightarrow> Complete a b)"

text \<open>A click gives the next state and, on completion, the range it emits.\<close>

fun spec_click :: "jsdate \<Rightarrow> sel_state \<Rightarrow> sel_state \<times> (jsdate \<times> jsdate) option" where
  "spec_click d Empty = (PendingEnd d None, None)"
| "spec_click d (PendingEnd a h) = (Complete a d, Some (min a d, max a d))"
| "spec_click d (Complete a b) = (PendingEnd d None, None)"

fun spec_hover :: "jsdate \<Rightarrow> sel_state \<Rightarrow> sel_state" where
  "spec_hover d (PendingEnd a h) = PendingEnd a (Some d)"
| "spec_hover d s = s"

definition range_event :: "time_zone \<Rightarrow> jsdate \<times> jsdate \<Rightarrow> range_detail" where
  "range_event tz' r =
     \<lparr>deliveryDate = get_time tz' (fst r), pickupDate = get_time tz' (snd r),
      numberOfDays = calculateDaysBetween tz' (fst r) (snd r)\<rparr>"

subsection \<open>Lemmas on the handlers\<close>

lemma handleDayClick_past: "past_day c \<Longrightarrow> handleDayClick e w c = returns w"
  by (simp add: handleDayClick_def)

lemma handleDayClick_fields:
  "\<not> past_day c \<Longrightarrow> same_fields (click_fields e w (day_date c)) (fst (handleDayClick e w c))"
  by (simp add: handleDayClick_def updateDisplay_frame)

lemma handleDayHover_fields:
  "selectedDeliveryDate w \<noteq> None \<Longrightarrow> selectedPickupDate w = None \<Longrightarrow> \<not> past_day c \<Longrightarrow>
   same_fields (w\<lparr>hoverDate := Some (day_date c)\<rparr>) (fst (handleDayHover e w c))"
  by (simp add: handleDayHover_def updateDisplay_frame)

lemma handleDayHover_ignored:
  assumes "\<not> (selectedDeliveryDate w \<noteq> None \<and> selectedPickupDate w = None \<and> \<not> past_day c)"
  shows "handleDayHover e w c = returns w"
  using assms unfolding handleDayHover_def by (rule if_not_P)

lemma sel_inv_same_fields: "same_fields w w' \<Longrightarrow> sel_inv w' = sel_inv w"
  by (simp add: same_fields_def sel_inv_def)

lemma abs_sel_same_fields:
  assumes "same_fields w w'"
  shows "abs_sel w' = abs_sel w"
proof -
  have "selectedDeliveryDate w' = selectedDeliveryDate w" "selectedPickupDate w' = selectedPickupDate w"
    "hoverDate w' = hoverDate w"
    using assms by (simp_all add: same_fields_def)
  then show ?thesis unfolding abs_sel_def by (simp only:)
qed

lemma dispatched_same_fields: "same_fields w w' \<Longrightarrow> dispatched w' = dispatched w"
  by (simp add: same_fields_def)

lemma sel_inv_click_fields: "sel_inv (click_fields e w d)"
  by (auto simp: click_fields_def sel_inv_def Let_def split: option.splits)

text \<open>C6: handleDayClick keeps the selection invariant: a pickup date only with a delivery date, a hover date only while the pickup date is pending.\<close>

theorem handleDayClick_sel_inv: "sel_inv w \<Longrightarrow> sel_inv (fst (handleDayClick e w c))"
proof (cases "past_day c")
  case True
  assume "sel_inv w"
  with True show ?thesis by (simp add: handleDayClick_past returns_def)
next
  case False
  with handleDayClick_fields [OF False, of e w] show ?thesis
    using sel_inv_same_fields sel_inv_click_fields by blast
qed

text \<open>C7: handleDayHover keeps the selection invariant.\<close>

theorem handleDayHover_sel_inv: "sel_inv w \<Longrightarrow> sel_inv (fst (handleDayHover e w c))"
proof (cases "selectedDeliveryDate w \<noteq> None \<and> selectedPickupDate w = None \<and> \<not> past_day c")
  case True
  then have "sel_inv (w\<lparr>hoverDate := Some (day_date c)\<rparr>)" by (simp add: sel_inv_def)
  with True handleDayHover_fields [of w c e] show ?thesis
    using sel_inv_same_fields by blast
next
  case False
  assume "sel_inv w"
  with False show ?thesis by (simp add: handleDayHover_ignored returns_def)
qed

subsection \<open>Refinement of the abstract machine\<close>

lemma click_fields_abs:
  assumes "tz_ok (tz e)"
  shows "abs_sel (click_fields e w d) = fst (spec_click d (abs_sel w)) \<and>
         dispatched (click_fields e w d) = dispatched w @
           (case snd (spec_click d (abs_sel w)) of None \<Rightarrow> [] | Some r \<Rightarrow> [range_event (tz e) r])"
  using assms
  by (auto simp: click_fields_def abs_sel_def range_event_def minDate_day maxDate_day Let_def
      split: option.splits)

text \<open>C2: A click on a cell that is not past moves the selection as the specification's machine Empty, PendingEnd, Complete does, and appends to the dispatched events exactly the range event of that transition, with the earlier date as delivery.\<close>

theorem handleDayClick_refines:
  assumes "tz_ok (tz e)" "\<not> past_day c"
  shows "abs_sel (fst (handleDayClick e w c)) = fst (spec_click (day_date c) (abs_sel w)) \<and>
         dispatched (fst (handleDayClick e w c)) = dispatched w @
           (case snd (spec_click (day_date c) (abs_sel w)) of
              None \<Rightarrow> [] | Some r \<Rightarrow> [range_event (tz e) r])"
proof -
  have "same_fields (click_fields e w (day_date c)) (fst (handleDayClick e w c))"
    using assms(2) by (rule handleDayClick_fields)
  then show ?thesis
    using click_fields_abs [OF assms(1), of w "day_date c"]
    by (simp add: abs_sel_same_fields dispatched_same_fields)
qed

text \<open>C3: A hover sets the preview date exactly when the machine is in PendingEnd and the cell is not past, and never dispatches an event.\<close>

theorem handleDayHover_refines:
  "abs_sel (fst (handleDayHover e w c)) =
     (if past_day c then abs_sel w else spec_hover (day_date c) (abs_sel w)) \<and>
   dispatched (fst (handleDayHover e w c)) = dispatched w"
proof (cases "selectedDeliveryDate w \<noteq> None \<and> selectedPickupDate w = None \<and> \<not> past_day c")
  case True
  then have sf: "same_fields (w\<lparr>hoverDate := Some (day_date c)\<rparr>) (fst (handleDayHover e w c))"
    by (intro handleDayHover_fields) simp_all
  have "abs_sel (w\<lparr>hoverDate := Some (day_date c)\<rparr>) = spec_hover (day_date c) (abs_sel w)"
    using True by (auto simp: abs_sel_def)
  with True sf show ?thesis
    by (simp add: abs_sel_same_fields [OF sf] dispatched_same_fields [OF sf])
next
  case False
  then show ?thesis
    by (auto simp: handleDayHover_ignored returns_def abs_sel_def split: option.splits)
qed

subsection \<open>Emitted ranges\<close>

text \<open>An emitted range has delivery no later than pickup, and its count is the inclusive local day count plus one across the end of daylight saving.\<close>

theorem range_event_ordered:
  assumes "tz_ok tz'"
  shows "deliveryDate (range_event tz' (min a b, max a b)) \<le> pickupDate (range_event tz' (min a b, max a b)) \<and>
         numberOfDays (range_event tz' (min a b, max a b)) =
           max a b - min a b + 1 + (if tz' (max a b) < tz' (min a b) then 1 else 0)"
  using assms by (simp add: range_event_def get_time_le_iff days_between_ordered)

text \<open>C18: From an empty or complete selection, two clicks on cells that are not past emit exactly one event, from the earlier to the later of the two dates, whichever was clicked first.\<close>

theorem two_clicks_emit:
  assumes tz: "tz_ok (tz e)" and a: "\<not> past_day ca" and b: "\<not> past_day cb"
      and start: "abs_sel w = Empty \<or> (\<exists>x y. abs_sel w = Complete x y)"
  shows "dispatched (fst (handleDayClick e (fst (handleDayClick e w ca)) cb)) =
         dispatched w @
           [range_event (tz e) (min (day_date ca) (day_date cb), max (day_date ca) (day_date cb))]"
proof -
  let ?w1 = "fst (handleDayClick e w ca)" and ?w2 = "fst (handleDayClick e (fst (handleDayClick e w ca)) cb)"
  have sf1: "same_fields (click_fields e w (day_date ca)) ?w1" using a by (rule handleDayClick_fields)
  have sf2: "same_fields (click_fields e ?w1 (day_date cb)) ?w2" using b by (rule handleDayClick_fields)
  have "spec_click (day_date ca) (abs_sel w) = (PendingEnd (day_date ca) None, None)"
    using start by auto
  then have w1: "abs_sel ?w1 = PendingEnd (day_date ca) None" "dispatched ?w1 = dispatched w"
    using click_fields_abs [OF tz, of w "day_date ca"]
    by (simp_all add: abs_sel_same_fields [OF sf1] dispatched_same_fields [OF sf1])
  show ?thesis
    using click_fields_abs [OF tz, of ?w1 "day_date cb"] w1 by (simp add: dispatched_same_fields [OF sf2])
qed

end
