(* ===== verification/Calendar_Navigator.thy ===== *)
theory Calendar_Navigator
  imports Calendar_Display
begin

text \<open>
  The calendar-pair navigator: \<open>navigateMonth(calendarNum, direction)\<close>
  (src/my-date-range-calendar.js, lines 551-584) on the two cursors
  \<open>currentMonth1\<close>/\<open>currentYear1\<close> and \<open>currentMonth2\<close>/\<open>currentYear2\<close>.
  The moved cursor rolls over at the ends of the year; the other one is
  recomputed through \<open>new Date(y, m \<plusminus> 1, 1)\<close> and its getters. The
  lemmas state the invariant of the pair (both months in \<open>0..11\<close>, the second
  one month after the first), that navigation keeps it, and the refinement to
  a single month counter that the specification describes: a step of \<open>+1\<close>
  or \<open>-1\<close> on either calendar moves both by that step; a step forward and
  a step back restore the whole widget.
\<close>

subsection \<open>navigateMonth\<close>

text \<open>The roll-over of lines 554-561 (and 569-576).\<close>

definition roll_month :: "int \<Rightarrow> int \<Rightarrow> int \<times> int" where
  "roll_month month year =
     (if month < 0 then (11, year - 1) else if month > 11 then (0, year + 1) else (month, year))"

text \<open>
  The cursor updates of lines 552-580 (\<open>navigate_fields\<close>), then the
  \<open>updateDisplay()\<close> of line 583. Any \<open>calendarNum\<close> other than 1 takes
  the second branch, as the code's \<open>else\<close> does.
\<close>

definition navigate_fields :: "widget \<Rightarrow> int \<Rightarrow> int \<Rightarrow> widget" where
  "navigate_fields w calendarNum direction =
     (if calendarNum = 1 then
        (let (m1, y1) = roll_month (currentMonth1 w + direction) (currentYear1 w);
             tempDate = make_day y1 (m1 + 1) 1
         in w\<lparr>currentMonth1 := m1, currentYear1 := y1,
              currentMonth2 := month_from_day tempDate, currentYear2 := year_from_day tempDate\<rparr>)
      else
        (let (m2, y2) = roll_month (currentMonth2 w + direction) (currentYear2 w);
             tempDate = make_day y2 (m2 - 1) 1
         in w\<lparr>currentMonth2 := m2, currentYear2 := y2,
              currentMonth1 := month_from_day tempDate, currentYear1 := year_from_day tempDate\<rparr>))"

definition navigateMonth :: "env \<Rightarrow> widget \<Rightarrow> int \<Rightarrow> int \<Rightarrow> widget outcome" where
  "navigateMonth e w calendarNum direction =
     updateDisplay e (navigate_fields w calendarNum direction)"

subsection \<open>Invariant and abstraction\<close>

text \<open>A cursor as a month counter: twelve per year.\<close>

definition month_index :: "int \<Rightarrow> int \<Rightarrow> int" where
  "month_index month year = 12 * year + month"

definition cursors_inv :: "widget \<Rightarrow> bool" where
  "cursors_inv w \<longleftrightarrow>
     0 \<le> currentMonth1 w \<and> currentMonth1 w < 12 \<and>
     0 \<le> currentMonth2 w \<and> currentMonth2 w < 12 \<and>
     month_index (currentMonth2 w) (currentYear2 w) =
       month_index (currentMonth1 w) (currentYear1 w) + 1"

subsection \<open>Lemmas on navigation\<close>

lemma roll_month_step:
  assumes "0 \<le> m" "m < 12" "d = 1 \<or> d = - 1"
  shows "roll_month (m + d) y = ((m + d) mod 12, y + (m + d) div 12)"
proof -
  consider "m + d = - 1" | "m + d = 12" | "0 \<le> m + d \<and> m + d < 12"
    using assms by linarith
  then show ?thesis
  proof cases
    case 1
    then show ?thesis by (simp add: roll_month_def)
  next
    case 2
    then show ?thesis by (simp add: roll_month_def)
  next
    case 3
    then show ?thesis by (simp add: roll_month_def)
  qed
qed

lemma month_index_div_mod [simp]: "month_index (n mod 12) (y + n div 12) = 12 * y + n"
  by (simp add: month_index_def algebra_simps)

lemma month_index_first_of: "month_index (month_from_day (make_day y m 1)) (year_from_day (make_day y m 1)) = 12 * y + m"
  using make_day_first_decompose [of y m] by simp

lemma navigate_fields_cursors:
  assumes inv: "cursors_inv w" and d: "d = 1 \<or> d = - 1"
  shows "cursors_inv (navigate_fields w n d) \<and>
         month_index (currentMonth1 (navigate_fields w n d)) (currentYear1 (navigate_fields w n d))
           = month_index (currentMonth1 w) (currentYear1 w) + d"
proof (cases "n = 1")
  case True
  let ?m = "currentMonth1 w + d" and ?y = "currentYear1 w"
  have r: "roll_month ?m ?y = (?m mod 12, ?y + ?m div 12)"
    using inv d by (intro roll_month_step) (simp_all add: cursors_inv_def)
  show ?thesis
    using True r make_day_first_decompose [of "?y + ?m div 12" "?m mod 12 + 1"]
    by (simp add: navigate_fields_def cursors_inv_def month_index_def algebra_simps)
next
  case False
  let ?m = "currentMonth2 w + d" and ?y = "currentYear2 w"
  have r: "roll_month ?m ?y = (?m mod 12, ?y + ?m div 12)"
    using inv d by (intro roll_month_step) (simp_all add: cursors_inv_def)
  have idx: "month_index (currentMonth2 w) (currentYear2 w) = month_index (currentMonth1 w) (currentYear1 w) + 1"
    using inv by (simp add: cursors_inv_def)
  show ?thesis
    using False r idx make_day_first_decompose [of "?y + ?m div 12" "?m mod 12 - 1"]
    by (simp add: navigate_fields_def cursors_inv_def month_index_def algebra_simps)
qed

lemma cursors_inv_same_fields: "same_fields w w' \<Longrightarrow> cursors_inv w' = cursors_inv w"
  by (simp add: same_fields_def cursors_inv_def)

lemma month_index_same_fields:
  "same_fields w w' \<Longrightarrow> month_index (currentMonth1 w') (currentYear1 w') = month_index (currentMonth1 w) (currentYear1 w)"
  by (simp add: same_fields_def)

text \<open>C4: Navigation by one month forward or back, on either calendar, keeps both months in 0..11 and the second calendar one month after the first, and moves the first calendar's month counter by exactly the step.\<close>

theorem navigateMonth_cursors:
  assumes inv: "cursors_inv w" and d: "d = 1 \<or> d = - 1"
  shows "cursors_inv (fst (navigateMonth e w n d)) \<and>
         month_index (currentMonth1 (fst (navigateMonth e w n d))) (currentYear1 (fst (navigateMonth e w n d)))
           = month_index (currentMonth1 w) (currentYear1 w) + d"
proof -
  have sf: "same_fields (navigate_fields w n d) (fst (navigateMonth e w n d))"
    unfolding navigateMonth_def by (rule updateDisplay_frame)
  show ?thesis
    using navigate_fields_cursors [OF inv d, of n] cursors_inv_same_fields [OF sf]
      month_index_same_fields [OF sf] by simp
qed

lemma navigate_fields_selection:
  "selectedDeliveryDate (navigate_fields w n d) = selectedDeliveryDate w \<and>
   selectedPickupDate (navigate_fields w n d) = selectedPickupDate w \<and>
   hoverDate (navigate_fields w n d) = hoverDate w \<and>
   dispatched (navigate_fields w n d) = dispatched w"
  by (simp add: navigate_fields_def Let_def split: prod.splits)

text \<open>C19: Navigation leaves the selection and the dispatched events unchanged.\<close>

theorem navigateMonth_keeps_selection:
  "selectedDeliveryDate (fst (navigateMonth e w n d)) = selectedDeliveryDate w \<and>
   selectedPickupDate (fst (navigateMonth e w n d)) = selectedPickupDate w \<and>
   hoverDate (fst (navigateMonth e w n d)) = hoverDate w \<and>
   dispatched (fst (navigateMonth e w n d)) = dispatched w"
  using updateDisplay_frame [of "navigate_fields w n d" e] navigate_fields_selection [of w n d]
  by (simp add: navigateMonth_def same_fields_def)

lemma cursors_inv_index_eq:
  assumes "cursors_inv w" "cursors_inv w'"
      and "month_index (currentMonth1 w') (currentYear1 w') = month_index (currentMonth1 w) (currentYear1 w)"
  shows "currentMonth1 w' = currentMonth1 w \<and> currentYear1 w' = currentYear1 w \<and>
         currentMonth2 w' = currentMonth2 w \<and> currentYear2 w' = currentYear2 w"
proof -
  have key: "\<And>m y m' y'. 0 \<le> m \<Longrightarrow> m < 12 \<Longrightarrow> 0 \<le> m' \<Longrightarrow> m' < 12 \<Longrightarrow>
      month_index m' y' = month_index m y \<Longrightarrow> m' = m \<and> y' = y"
    by (simp add: month_index_def) presburger
  have 1: "currentMonth1 w' = currentMonth1 w \<and> currentYear1 w' = currentYear1 w"
    using assms by (intro key) (simp_all add: cursors_inv_def)
  moreover have "currentMonth2 w' = currentMonth2 w \<and> currentYear2 w' = currentYear2 w"
    using assms 1 by (intro key) (simp_all add: cursors_inv_def)
  ultimately show ?thesis by simp
qed


lemma navigate_fields_dom [simp]:
  "shadowRoot (navigate_fields w n d) = shadowRoot w \<and> console (navigate_fields w n d) = console w"
  by (simp add: navigate_fields_def Let_def split: prod.splits)

text \<open>C26: Navigating one month forward and then one month back, on either calendar, returns a widget whose shadow tree shows its state to exactly that state: the cursors, the selection, the events, the console and the whole shadow tree.\<close>

theorem navigateMonth_roundtrip:
  assumes inv: "cursors_inv w" and c: "dom_complete (shadowRoot w)"
      and shown: "shadowRoot w = shown_dom e w" and d: "d = 1 \<or> d = - 1"
  shows "navigateMonth e (fst (navigateMonth e w n d)) n' (- d) = returns w"
proof -
  let ?w1 = "navigate_fields w n d"
  let ?v = "?w1\<lparr>shadowRoot := shown_dom e ?w1\<rparr>"
  let ?w2 = "navigate_fields ?v n' (- d)"
  have c1: "dom_complete (shadowRoot ?w1)"
    using c by (simp add: navigate_fields_def Let_def split: prod.splits)
  have n1: "navigateMonth e w n d = returns ?v"
    using c1 by (simp add: navigateMonth_def updateDisplay_complete)
  have i1: "cursors_inv ?v"
    "month_index (currentMonth1 ?v) (currentYear1 ?v) = month_index (currentMonth1 w) (currentYear1 w) + d"
    using navigate_fields_cursors [OF inv d, of n] by (simp_all add: cursors_inv_def)
  have d': "- d = 1 \<or> - d = - 1" using d by auto
  have i2: "cursors_inv ?w2"
    "month_index (currentMonth1 ?w2) (currentYear1 ?w2) = month_index (currentMonth1 w) (currentYear1 w)"
    using navigate_fields_cursors [OF i1(1) d', of n'] i1(2) by simp_all
  have cur: "currentMonth1 ?w2 = currentMonth1 w \<and> currentYear1 ?w2 = currentYear1 w \<and>
      currentMonth2 ?w2 = currentMonth2 w \<and> currentYear2 ?w2 = currentYear2 w"
    using cursors_inv_index_eq [OF inv i2(1) i2(2)] .
  have sf: "same_fields w ?w2"
    using cur navigate_fields_selection [of ?v n' "- d"] navigate_fields_selection [of w n d]
    by (simp add: same_fields_def)
  have c2: "dom_complete (shadowRoot ?w2)"
    using c by (simp add: navigate_fields_def shown_dom_def dom_complete_def Let_def split: prod.splits)
  have n2: "navigateMonth e ?v n' (- d) = returns (?w2\<lparr>shadowRoot := shown_dom e ?w2\<rparr>)"
    using c2 by (simp add: navigateMonth_def updateDisplay_complete)
  have root: "shadowRoot ?w2 = shown_dom e ?w1" "shadowRoot ?w1 = shadowRoot w" "console ?w2 = console w"
    by (simp_all add: navigate_fields_dom)
  have "shown_dom e ?w2 = shown_dom e w"
    using root cur calendar_cells_same_fields [OF sf, of e] display_summary_same_fields [OF sf]
    by (simp add: shown_dom_def)
  then have "?w2\<lparr>shadowRoot := shown_dom e ?w2\<rparr> = w"
    using sf root(3) shown by (intro widget.equality) (simp_all add: same_fields_def)
  then show ?thesis using n1 n2 by (simp add: returns_def)
qed

end
