(* ===== verification/Widget_Events.thy ===== *)
theory Widget_Events
  imports Calendar_Selection Calendar_Navigator
begin

text \<open>
  The element's life cycle and the page's events: \<open>connectedCallback\<close>
  (src/my-date-range-calendar.js, lines 47-57), which renders and attaches the
  four navigation listeners, and the dispatch of a click or mouseover to the
  listeners the rendered shadow tree carries. A listener that throws is
  reported by the browser and does not stop the others. The reachable states
  are those of an element constructed, inserted into the page, and then given
  any sequence of events, in any time zone and on any day, while the two
  displayed months stay within the range of a JavaScript Date; the invariant
  of the whole widget holds in all of them. The other lemmas show that a
  missing button makes \<open>connectedCallback\<close> throw, that two clicks on
  interactive cells always dispatch an event, that a click or a hover on a
  past day changes nothing, and that each re-insertion
  appends a further listener to every button.
\<close>

subsection \<open>connectedCallback\<close>

text \<open>
  \<open>getElementById(id).addEventListener(...)\<close>: a missing button makes the
  call on \<open>null\<close> throw; otherwise the listener is appended to the ones the
  button already has.
\<close>

definition add_nav_listener :: "button_id \<Rightarrow> nav_listener \<Rightarrow> widget \<Rightarrow> widget outcome" where
  "add_nav_listener b l w =
     (case button_element b (shadowRoot w) of
        None \<Rightarrow> throws w TypeError
      | Some ls \<Rightarrow> returns (w\<lparr>shadowRoot := set_button b (ls @ [l]) (shadowRoot w)\<rparr>))"

definition connectedCallback :: "env \<Rightarrow> widget \<Rightarrow> widget outcome" where
  "connectedCallback e w =
     then_js (updateDisplay e w) (\<lambda>w1.
     then_js (add_nav_listener PrevMonth1 (NavigateMonth 1 (- 1)) w1) (\<lambda>w2.
     then_js (add_nav_listener NextMonth1 (NavigateMonth 1 1) w2) (\<lambda>w3.
     then_js (add_nav_listener PrevMonth2 (NavigateMonth 2 (- 1)) w3) (\<lambda>w4.
     add_nav_listener NextMonth2 (NavigateMonth 2 1) w4))))"

subsection \<open>Events\<close>

text \<open>An exception that escapes a listener is reported on the console.\<close>

definition report :: "widget outcome \<Rightarrow> widget" where
  "report r = (case r of (w, None) \<Rightarrow> w | (w, Some _) \<Rightarrow> w\<lparr>console := console w @ [''Uncaught TypeError'']\<rparr>)"

fun run_nav_listeners :: "env \<Rightarrow> nav_listener list \<Rightarrow> widget \<Rightarrow> widget" where
  "run_nav_listeners e [] w = w"
| "run_nav_listeners e (NavigateMonth n d # ls) w = run_nav_listeners e ls (report (navigateMonth e w n d))"

text \<open>
  The page's events: a click or a mouseover on the cell at a position of a
  grid, a click on a navigation button, and the removal and re-insertion of
  the element, which runs \<open>connectedCallback\<close> again.
\<close>

datatype ui_event = ClickDay grid_id nat | HoverDay grid_id nat | ClickButton button_id | Reconnect

text \<open>The day cell at a position, if the handlers were attached to it.\<close>

definition day_target :: "grid_id \<Rightarrow> nat \<Rightarrow> widget \<Rightarrow> day_div option" where
  "day_target g j w =
     (case grid_element g (shadowRoot w) of
        None \<Rightarrow> None
      | Some cs \<Rightarrow>
          (if j < length cs then
             (case cs ! j of DayCell c \<Rightarrow> if day_listeners c then Some c else None | _ \<Rightarrow> None)
           else None))"

definition dispatch :: "env \<Rightarrow> widget \<Rightarrow> ui_event \<Rightarrow> widget" where
  "dispatch e w ev =
     (case ev of
        ClickDay g j \<Rightarrow>
          (case day_target g j w of None \<Rightarrow> w | Some c \<Rightarrow> report (handleDayClick e w c))
      | HoverDay g j \<Rightarrow>
          (case day_target g j w of None \<Rightarrow> w | Some c \<Rightarrow> report (handleDayHover e w c))
      | ClickButton b \<Rightarrow>
          (case button_element b (shadowRoot w) of None \<Rightarrow> w | Some ls \<Rightarrow> run_nav_listeners e ls w)
      | Reconnect \<Rightarrow> report (connectedCallback e w))"

text \<open>The element as the page first sees it: constructed, then inserted.\<close>

definition initial :: "env \<Rightarrow> widget" where
  "initial e = report (connectedCallback e (construct e))"

text \<open>
  The states reached while both displayed months stay within the range of a
  JavaScript Date (\<open>displayed_in_range\<close>): beyond it the code's dates are
  invalid, which the model of \<open>generateCalendar\<close> and \<open>navigateMonth\<close>
  does not cover.
\<close>

inductive reachable :: "widget \<Rightarrow> bool" where
  init: "displayed_in_range e (initial e) \<Longrightarrow> reachable (initial e)"
| step: "reachable w \<Longrightarrow> displayed_in_range e (dispatch e w ev) \<Longrightarrow> reachable (dispatch e w ev)"

subsection \<open>The invariant of the widget\<close>

definition listener_ok :: "nav_listener \<Rightarrow> bool" where
  "listener_ok l = (case l of NavigateMonth n d \<Rightarrow> d = 1 \<or> d = - 1)"

definition buttons_ok :: "dom \<Rightarrow> bool" where
  "buttons_ok d \<longleftrightarrow>
     (\<forall>b ls. button_element b d = Some ls \<longrightarrow> (\<forall>l \<in> set ls. listener_ok l))"

definition event_ok :: "range_detail \<Rightarrow> bool" where
  "event_ok r \<longleftrightarrow> deliveryDate r \<le> pickupDate r \<and> 1 \<le> numberOfDays r"

text \<open>
  The shadow tree shows the state: it is what \<open>updateDisplay\<close> writes for
  the current fields, for the clock and zone of some rendering.
\<close>

definition display_current :: "widget \<Rightarrow> bool" where
  "display_current w \<longleftrightarrow> (\<exists>e. shadowRoot w = shown_dom e w)"

definition widget_inv :: "widget \<Rightarrow> bool" where
  "widget_inv w \<longleftrightarrow>
     sel_inv w \<and> cursors_inv w \<and> dom_complete (shadowRoot w) \<and> buttons_ok (shadowRoot w) \<and>
     display_current w \<and> console w = [] \<and> (\<forall>r \<in> set (dispatched w). event_ok r)"


text \<open>The month step of a navigation listener.\<close>

definition listener_step :: "nav_listener \<Rightarrow> int" where
  "listener_step l = (case l of NavigateMonth n d \<Rightarrow> d)"

subsection \<open>Lemmas on rendering\<close>

lemma report_returns [simp]: "report (returns w) = w"
  by (simp add: report_def returns_def)

lemma button_element_shown_dom [simp]:
  "button_element b (shown_dom e w) = button_element b (shadowRoot w)"
  by (cases b) (simp_all add: button_element_def shown_dom_def)

lemma button_element_set_button [simp]:
  "button_element b' (set_button b ls d) = (if b' = b then Some ls else button_element b' d)"
  by (cases b; cases b') (simp_all add: button_element_def set_button_def)

lemma shown_dom_idem [simp]: "shown_dom e (w\<lparr>shadowRoot := shown_dom e w\<rparr>) = shown_dom e w"
  by (simp add: shown_dom_def)

lemma shown_dom_set_button:
  "shown_dom e (w\<lparr>shadowRoot := set_button b ls d\<rparr>) = set_button b ls (shown_dom e (w\<lparr>shadowRoot := d\<rparr>))"
  by (cases b) (simp_all add: shown_dom_def set_button_def)

lemma dom_complete_shown_dom: "dom_complete (shadowRoot w) \<Longrightarrow> dom_complete (shown_dom e w)"
  by (simp add: shown_dom_def dom_complete_def)

lemma buttons_ok_shown_dom [simp]: "buttons_ok (shown_dom e w) = buttons_ok (shadowRoot w)"
  by (simp add: buttons_ok_def)

lemma buttons_ok_set_button:
  "buttons_ok d \<Longrightarrow> button_element b d = Some ls \<Longrightarrow> listener_ok l \<Longrightarrow>
   buttons_ok (set_button b (ls @ [l]) d)"
  by (auto simp: buttons_ok_def)

text \<open>Rendering a state whose fields are consistent gives a state of the invariant.\<close>

lemma inv_after_render:
  assumes "dom_complete (shadowRoot v)" "buttons_ok (shadowRoot v)" "console v = []"
      and "sel_inv v" "cursors_inv v" "\<forall>r \<in> set (dispatched v). event_ok r"
  shows "widget_inv (report (updateDisplay e v))"
proof -
  let ?v = "v\<lparr>shadowRoot := shown_dom e v\<rparr>"
  have "display_current ?v" unfolding display_current_def by (rule exI [of _ e]) simp
  moreover have "sel_inv ?v" "cursors_inv ?v" "dom_complete (shadowRoot ?v)"
    using assms dom_complete_shown_dom [OF assms(1), of e] by (simp_all add: sel_inv_def cursors_inv_def)
  ultimately have "widget_inv ?v" using assms by (simp add: widget_inv_def)
  then show ?thesis using assms(1) by (simp add: updateDisplay_complete)
qed

lemma widget_inv_ready:
  "widget_inv w \<Longrightarrow> dom_complete (shadowRoot w) \<and> buttons_ok (shadowRoot w) \<and> console w = [] \<and>
     sel_inv w \<and> cursors_inv w \<and> (\<forall>r \<in> set (dispatched w). event_ok r)"
  by (simp add: widget_inv_def)

subsection \<open>Each event keeps the invariant\<close>

lemma click_fields_keeps:
  "shadowRoot (click_fields e w d) = shadowRoot w \<and> console (click_fields e w d) = console w \<and>
   cursors_inv (click_fields e w d) = cursors_inv w"
  by (auto simp: click_fields_def Let_def cursors_inv_def split: option.splits)

lemma click_fields_events:
  "\<forall>r \<in> set (dispatched w). event_ok r \<Longrightarrow> \<forall>r \<in> set (dispatched (click_fields e w d)). event_ok r"
  by (auto simp: click_fields_def Let_def event_ok_def minDate_time maxDate_time
      calculateDaysBetween_pos split: option.splits)

lemma inv_click: "widget_inv w \<Longrightarrow> widget_inv (report (handleDayClick e w c))"
proof (cases "past_day c")
  case True
  assume "widget_inv w"
  with True show ?thesis by (simp add: handleDayClick_past)
next
  case False
  assume "widget_inv w"
  then show ?thesis
    using False widget_inv_ready [of w] click_fields_keeps [of e w "day_date c"]
      click_fields_events [of w e "day_date c"] sel_inv_click_fields [of e w "day_date c"]
    by (simp add: handleDayClick_def inv_after_render)
qed

lemma inv_hover: "widget_inv w \<Longrightarrow> widget_inv (report (handleDayHover e w c))"
proof (cases "selectedDeliveryDate w \<noteq> None \<and> selectedPickupDate w = None \<and> \<not> past_day c")
  case True
  assume inv: "widget_inv w"
  have "sel_inv (w\<lparr>hoverDate := Some (day_date c)\<rparr>)" using True by (simp add: sel_inv_def)
  then show ?thesis
    using True inv widget_inv_ready [of w]
    by (simp add: handleDayHover_def inv_after_render cursors_inv_def)
next
  case False
  assume "widget_inv w"
  with False show ?thesis by (simp add: handleDayHover_ignored)
qed

lemma inv_navigate:
  assumes inv: "widget_inv w" and ok: "listener_ok (NavigateMonth n d)"
  shows "widget_inv (report (navigateMonth e w n d))"
proof -
  let ?v = "navigate_fields w n d"
  have d: "d = 1 \<or> d = - 1" using ok by (simp add: listener_ok_def)
  have cur: "cursors_inv ?v"
    using navigate_fields_cursors [of w d n] inv d by (simp add: widget_inv_def)
  have keep: "shadowRoot ?v = shadowRoot w" "console ?v = console w" "dispatched ?v = dispatched w"
    "sel_inv ?v = sel_inv w"
    by (simp_all add: navigate_fields_def Let_def sel_inv_def split: prod.splits)
  show ?thesis
    using inv widget_inv_ready [of w] cur keep by (simp add: navigateMonth_def inv_after_render)
qed

lemma inv_run_listeners:
  "widget_inv w \<Longrightarrow> \<forall>l \<in> set ls. listener_ok l \<Longrightarrow> widget_inv (run_nav_listeners e ls w)"
proof (induction e ls w rule: run_nav_listeners.induct)
  case (1 e w)
  then show ?case by simp
next
  case (2 e n d ls w)
  then show ?case by (simp add: inv_navigate)
qed

subsection \<open>The navigation buttons\<close>

lemma button_element_set_grid [simp]: "button_element b (set_grid g cs d) = button_element b d"
  by (cases b; cases g) (simp_all add: button_element_def set_grid_def)

lemma button_element_set_title [simp]: "button_element b (set_title g s d) = button_element b d"
  by (cases b; cases g) (simp_all add: button_element_def set_title_def)

lemma button_element_write_summary [simp]:
  "button_element b (write_summary r n d) = button_element b d"
  by (cases b) (simp_all add: button_element_def write_summary_def Let_def)

lemma generateCalendar_buttons:
  "button_element b (shadowRoot (fst (generateCalendar e w month year g))) = button_element b (shadowRoot w)"
  by (auto simp: generateCalendar_def returns_def throws_def Let_def split: option.splits)

lemma generateCalendar_buttons_eq:
  "generateCalendar e w month year g = (w', r) \<Longrightarrow> button_element b (shadowRoot w') = button_element b (shadowRoot w)"
  using generateCalendar_buttons [of b e w month year g] by simp

lemma updateDisplay_buttons:
  "button_element b (shadowRoot (fst (updateDisplay e w))) = button_element b (shadowRoot w)"
  by (auto simp: updateDisplay_def then_js_def returns_def dest!: generateCalendar_buttons_eq [where b = b]
      split: prod.splits option.splits)

lemma js_error_single: "r \<noteq> None \<Longrightarrow> r = Some TypeError"
  by (metis js_error.exhaust not_None_eq)

text \<open>C15: If a navigation button is missing from the shadow tree, connectedCallback throws a TypeError rather than logging and aborting.\<close>

theorem connectedCallback_missing_button:
  assumes "button_element b (shadowRoot w) = None"
  shows "snd (connectedCallback e w) = Some TypeError"
proof -
  obtain w1 r where u: "updateDisplay e w = (w1, r)" by (cases "updateDisplay e w")
  have "button_element b (shadowRoot w1) = None"
    using updateDisplay_buttons [of b e w] assms u by simp
  then show ?thesis
    using u js_error_single [of r]
    by (cases b) (auto simp: connectedCallback_def add_nav_listener_def then_js_def throws_def returns_def
        split: option.splits)
qed

subsection \<open>Insertion keeps the invariant\<close>

lemma display_current_set_button:
  "display_current w \<Longrightarrow> display_current (w\<lparr>shadowRoot := set_button b ls (shadowRoot w)\<rparr>)"
  unfolding display_current_def
  by (auto simp: shown_dom_set_button)

lemma inv_add_listener:
  assumes inv: "widget_inv w" and ok: "listener_ok l"
  shows "\<exists>w'. add_nav_listener b l w = returns w' \<and> widget_inv w'"
proof -
  obtain ls where ls: "button_element b (shadowRoot w) = Some ls"
    using inv dom_complete_lookups [of "shadowRoot w" Grid1 b] by (auto simp: widget_inv_def)
  let ?w' = "w\<lparr>shadowRoot := set_button b (ls @ [l]) (shadowRoot w)\<rparr>"
  have "widget_inv ?w'"
    using inv ls ok buttons_ok_set_button [of "shadowRoot w" b ls l]
      display_current_set_button [of w b "ls @ [l]"]
    by (simp add: widget_inv_def sel_inv_def cursors_inv_def)
  then show ?thesis using ls by (intro exI [of _ ?w']) (simp add: add_nav_listener_def)
qed

lemma inv_connect:
  assumes "dom_complete (shadowRoot v)" "buttons_ok (shadowRoot v)" "console v = []"
      and "sel_inv v" "cursors_inv v" "\<forall>r \<in> set (dispatched v). event_ok r"
  shows "widget_inv (report (connectedCallback e v))"
proof -
  let ?w1 = "v\<lparr>shadowRoot := shown_dom e v\<rparr>"
  have u: "updateDisplay e v = returns ?w1" using assms(1) by (rule updateDisplay_complete)
  have i1: "widget_inv ?w1" using inv_after_render [OF assms, of e] u by simp
  have oks: "listener_ok (NavigateMonth n 1)" "listener_ok (NavigateMonth n (- 1))" for n
    by (simp_all add: listener_ok_def)
  obtain w2 where w2: "add_nav_listener PrevMonth1 (NavigateMonth 1 (- 1)) ?w1 = returns w2" "widget_inv w2"
    using inv_add_listener [OF i1 oks(2)] by blast
  obtain w3 where w3: "add_nav_listener NextMonth1 (NavigateMonth 1 1) w2 = returns w3" "widget_inv w3"
    using inv_add_listener [OF w2(2) oks(1)] by blast
  obtain w4 where w4: "add_nav_listener PrevMonth2 (NavigateMonth 2 (- 1)) w3 = returns w4" "widget_inv w4"
    using inv_add_listener [OF w3(2) oks(2)] by blast
  obtain w5 where w5: "add_nav_listener NextMonth2 (NavigateMonth 2 1) w4 = returns w5" "widget_inv w5"
    using inv_add_listener [OF w4(2) oks(1)] by blast
  show ?thesis using u w2 w3 w4 w5 by (simp add: connectedCallback_def)
qed

lemma construct_ready:
  "dom_complete (shadowRoot (construct e)) \<and> buttons_ok (shadowRoot (construct e)) \<and>
   console (construct e) = [] \<and> sel_inv (construct e) \<and> cursors_inv (construct e) \<and>
   dispatched (construct e) = []"
proof -
  let ?m = "month_from_day (today e)" and ?y = "year_from_day (today e)"
  have "0 \<le> ?m \<and> ?m < 12" by (rule month_from_day_bounds)
  then have "cursors_inv (construct e)"
    using make_day_first_decompose [of ?y "?m + 1"]
    by (simp add: construct_def render_def cursors_inv_def month_index_def Let_def)
  moreover have "buttons_ok (shadowRoot (construct e))"
    by (auto simp: construct_def render_def buttons_ok_def button_element_def Let_def split: button_id.splits)
  ultimately show ?thesis
    using render_complete by (simp add: construct_def sel_inv_def Let_def render_def)
qed

lemma inv_initial: "widget_inv (initial e)"
  using construct_ready [of e] by (simp add: initial_def inv_connect)

lemma inv_dispatch: "widget_inv w \<Longrightarrow> widget_inv (dispatch e w ev)"
proof (cases ev)
  case (ClickDay g j)
  assume "widget_inv w"
  then show ?thesis using ClickDay by (simp add: dispatch_def inv_click split: option.splits)
next
  case (HoverDay g j)
  assume "widget_inv w"
  then show ?thesis using HoverDay by (simp add: dispatch_def inv_hover split: option.splits)
next
  case (ClickButton b)
  assume inv: "widget_inv w"
  show ?thesis
  proof (cases "button_element b (shadowRoot w)")
    case None
    with inv ClickButton show ?thesis by (simp add: dispatch_def)
  next
    case (Some ls)
    then have "\<forall>l \<in> set ls. listener_ok l" using inv by (simp add: widget_inv_def buttons_ok_def)
    with inv Some ClickButton show ?thesis by (simp add: dispatch_def inv_run_listeners)
  qed
next
  case Reconnect
  assume "widget_inv w"
  then show ?thesis using Reconnect widget_inv_ready [of w] by (simp add: dispatch_def inv_connect)
qed

text \<open>C1: The invariant of the whole widget holds in every reachable state: for any time zone and any day, after construction, insertion and any sequence of clicks, hovers, button clicks and re-insertions along which both displayed months stay within the range of a JavaScript Date, the selection invariant holds, the cursors are consecutive, every looked-up element exists, every button listener steps one month, the shadow tree shows the state, nothing was logged or thrown, and every dispatched event has delivery no later than pickup and a count of at least 1.\<close>

theorem reachable_widget_inv: "reachable w \<Longrightarrow> widget_inv w"
  by (induction rule: reachable.induct) (simp_all add: inv_initial inv_dispatch)

subsection \<open>Progress of the selection\<close>

lemma grid_element_shown_dom:
  "grid_element g (shown_dom e w) =
     Some (calendar_cells e w (if g = Grid1 then currentMonth1 w else currentMonth2 w)
                              (if g = Grid1 then currentYear1 w else currentYear2 w))"
  by (cases g) (simp_all add: grid_element_def shown_dom_def)

lemma grid_cells_shown:
  assumes "display_current w" "grid_element g (shadowRoot w) = Some cs"
  shows "\<exists>e' month year. cs = calendar_cells e' w month year"
proof -
  obtain e' where "shadowRoot w = shown_dom e' w" using assms(1) unfolding display_current_def by blast
  with assms(2) have "cs = calendar_cells e' w (if g = Grid1 then currentMonth1 w else currentMonth2 w)
                              (if g = Grid1 then currentYear1 w else currentYear2 w)"
    by (simp add: grid_element_shown_dom)
  then show ?thesis by blast
qed

lemma day_target_not_past:
  assumes "widget_inv w" "day_target g j w = Some c"
  shows "\<not> past_day c"
proof -
  obtain cs where cs: "grid_element g (shadowRoot w) = Some cs" "j < length cs" "cs ! j = DayCell c"
    "day_listeners c"
    using assms(2) by (auto simp: day_target_def split: option.splits if_splits cell.splits)
  obtain e' month year where "cs = calendar_cells e' w month year"
    using grid_cells_shown [OF _ cs(1)] assms(1) by (auto simp: widget_inv_def)
  with cs obtain k where "c = day_cell e' w year month (int k + 1)"
    using calendar_cells_DayCell by metis
  with cs(4) show ?thesis by simp
qed

text \<open>C27: In a state of the invariant, a click or a mouseover on a past day cell of either grid changes nothing: the code attaches no listeners to past days.\<close>

theorem past_day_events_ignored:
  assumes inv: "widget_inv w" and g: "grid_element g (shadowRoot w) = Some cs"
      and j: "j < length cs" "cs ! j = DayCell c" and past: "past_day c"
  shows "dispatch e w (ClickDay g j) = w \<and> dispatch e w (HoverDay g j) = w"
proof -
  have "day_target g j w = None"
  proof (rule ccontr)
    assume "day_target g j w \<noteq> None"
    then obtain c' where t: "day_target g j w = Some c'" by blast
    then have "c' = c" using g j by (simp add: day_target_def split: if_splits)
    with day_target_not_past [OF inv t] past show False by simp
  qed
  then show ?thesis by (simp add: dispatch_def)
qed

lemma click_report:
  assumes "widget_inv w" "\<not> past_day c"
  shows "widget_inv (report (handleDayClick e w c)) \<and>
         same_fields (click_fields e w (day_date c)) (report (handleDayClick e w c))"
proof -
  have "dom_complete (shadowRoot (click_fields e w (day_date c)))"
    using assms(1) click_fields_keeps [of e w "day_date c"] by (simp add: widget_inv_def)
  then show ?thesis
    using assms inv_click [OF assms(1), of e c]
    by (simp add: handleDayClick_def updateDisplay_complete)
qed

text \<open>C23: From any state of the invariant, in a zone whose offsets differ by less than a day, two clicks on cells that carry listeners always dispatch a dateRangeSelected event: the selection never gets stuck.\<close>

theorem two_clicks_dispatch:
  assumes inv: "widget_inv w" and tz: "tz_ok (tz e)"
      and t1: "day_target g j w = Some c"
      and t2: "day_target g' j' (dispatch e w (ClickDay g j)) = Some c'"
  shows "length (dispatched w) < length (dispatched (dispatch e (dispatch e w (ClickDay g j)) (ClickDay g' j')))"
proof -
  let ?w1 = "dispatch e w (ClickDay g j)"
  let ?w2 = "dispatch e ?w1 (ClickDay g' j')"
  have np1: "\<not> past_day c" using day_target_not_past [OF inv t1] .
  have w1: "?w1 = report (handleDayClick e w c)" using t1 by (simp add: dispatch_def)
  have r1: "widget_inv ?w1" "same_fields (click_fields e w (day_date c)) ?w1"
    using click_report [OF inv np1, of e] w1 by simp_all
  have np2: "\<not> past_day c'" using day_target_not_past [OF r1(1) t2] .
  have w2: "?w2 = report (handleDayClick e ?w1 c')" using t2 by (simp add: dispatch_def)
  have r2: "same_fields (click_fields e ?w1 (day_date c')) ?w2"
    using click_report [OF r1(1) np2, of e] w2 by simp
  have a1: "abs_sel ?w1 = fst (spec_click (day_date c) (abs_sel w))"
    "dispatched ?w1 = dispatched w @ (case snd (spec_click (day_date c) (abs_sel w)) of
        None \<Rightarrow> [] | Some r \<Rightarrow> [range_event (tz e) r])"
    using click_fields_abs [OF tz, of w "day_date c"]
    by (simp_all add: abs_sel_same_fields [OF r1(2)] dispatched_same_fields [OF r1(2)])
  have a2: "dispatched ?w2 = dispatched ?w1 @ (case snd (spec_click (day_date c') (abs_sel ?w1)) of
        None \<Rightarrow> [] | Some r \<Rightarrow> [range_event (tz e) r])"
    using click_fields_abs [OF tz, of ?w1 "day_date c'"] by (simp add: dispatched_same_fields [OF r2])
  show ?thesis using a1 a2 by (cases "abs_sel w") auto
qed

subsection \<open>Repeated insertion\<close>

lemma navigate_step_index:
  assumes inv: "widget_inv w" and ok: "listener_ok (NavigateMonth n d)"
  shows "month_index (currentMonth1 (report (navigateMonth e w n d))) (currentYear1 (report (navigateMonth e w n d)))
         = month_index (currentMonth1 w) (currentYear1 w) + d"
proof -
  let ?v = "navigate_fields w n d"
  have d: "d = 1 \<or> d = - 1" using ok by (simp add: listener_ok_def)
  have c: "dom_complete (shadowRoot ?v)" using inv
    by (simp add: widget_inv_def navigate_fields_def Let_def split: prod.splits)
  have "cursors_inv w" using inv by (simp add: widget_inv_def)
  with navigate_fields_cursors [OF this d, of n] c show ?thesis
    by (simp add: navigateMonth_def updateDisplay_complete)
qed

lemma run_listeners_index:
  "widget_inv w \<Longrightarrow> \<forall>l \<in> set ls. listener_ok l \<Longrightarrow>
   month_index (currentMonth1 (run_nav_listeners e ls w)) (currentYear1 (run_nav_listeners e ls w))
     = month_index (currentMonth1 w) (currentYear1 w) + sum_list (map listener_step ls)"
proof (induction e ls w rule: run_nav_listeners.induct)
  case (1 e w)
  then show ?case by simp
next
  case (2 e n d ls w)
  then have "widget_inv (report (navigateMonth e w n d))" by (simp add: inv_navigate)
  with 2 show ?case by (simp add: navigate_step_index listener_step_def)
qed

lemma connect_next_month1:
  assumes c: "dom_complete (shadowRoot w)" and b: "button_element NextMonth1 (shadowRoot w) = Some ls"
  shows "button_element NextMonth1 (shadowRoot (report (connectedCallback e w))) =
           Some (ls @ [NavigateMonth 1 1]) \<and>
         same_fields w (report (connectedCallback e w))"
proof -
  have u: "updateDisplay e w = returns (w\<lparr>shadowRoot := shown_dom e w\<rparr>)" using c by (rule updateDisplay_complete)
  obtain p1 p2 n2 where "button_element PrevMonth1 (shadowRoot w) = Some p1"
    "button_element PrevMonth2 (shadowRoot w) = Some p2" "button_element NextMonth2 (shadowRoot w) = Some n2"
    using c dom_complete_lookups [of "shadowRoot w" Grid1] by fastforce
  then show ?thesis using u b
    by (simp add: connectedCallback_def add_nav_listener_def same_fields_def)
qed

lemma initial_next_month1: "button_element NextMonth1 (shadowRoot (initial e)) = Some [NavigateMonth 1 1]"
proof -
  have "dom_complete (shadowRoot (construct e))" "button_element NextMonth1 (shadowRoot (construct e)) = Some []"
    by (simp_all add: construct_def render_def dom_complete_def button_element_def Let_def)
  then show ?thesis unfolding initial_def using connect_next_month1 [of "construct e" "[]" e] by simp
qed

text \<open>C22: In any time zone and on any day, after the element is removed and re-inserted, the button nextMonth1 carries two listeners navigateMonth(1, 1), and one click on it moves the first calendar forward by two months.\<close>

theorem reconnect_doubles_listeners:
  "button_element NextMonth1 (shadowRoot (dispatch e (initial e) Reconnect)) =
     Some [NavigateMonth 1 1, NavigateMonth 1 1] \<and>
   month_index (currentMonth1 (dispatch e (dispatch e (initial e) Reconnect) (ClickButton NextMonth1)))
               (currentYear1 (dispatch e (dispatch e (initial e) Reconnect) (ClickButton NextMonth1))) =
   month_index (currentMonth1 (initial e)) (currentYear1 (initial e)) + 2"
proof -
  let ?w = "initial e" and ?w1 = "dispatch e (initial e) Reconnect"
  have i: "widget_inv ?w" by (rule inv_initial)
  have b1: "button_element NextMonth1 (shadowRoot ?w1) = Some [NavigateMonth 1 1, NavigateMonth 1 1]"
    using i initial_next_month1 [of e] connect_next_month1 [of ?w "[NavigateMonth 1 1]" e]
    by (simp add: dispatch_def widget_inv_def)
  have i1: "widget_inv ?w1" using i by (rule inv_dispatch)
  have "same_fields ?w ?w1"
    using i initial_next_month1 [of e] connect_next_month1 [of ?w "[NavigateMonth 1 1]" e]
    by (simp add: dispatch_def widget_inv_def)
  then have same: "month_index (currentMonth1 ?w1) (currentYear1 ?w1) = month_index (currentMonth1 ?w) (currentYear1 ?w)"
    by (rule month_index_same_fields)
  show ?thesis using b1 i1 run_listeners_index [OF i1, of "[NavigateMonth 1 1, NavigateMonth 1 1]" e] same
    by (simp add: dispatch_def listener_ok_def listener_step_def)
qed

end
