(* ===== verification/Spec2Isabelle.thy ===== *)
theory Spec2Isabelle
  imports Widget_Events
begin

text \<open>
  \<^bold>\<open>A verification library for the dual date-range calendar\<close>
  (src/my-date-range-calendar.js, custom element \<open>my-date-range-calendar\<close>,
  class \<open>MyDateRangeCalendar\<close>).

  \<^bold>\<open>The program.\<close> One class whose instance fields hold a selection
  (\<open>selectedDeliveryDate\<close>, \<open>selectedPickupDate\<close>, \<open>hoverDate\<close>) and two
  month cursors (\<open>currentMonth1/currentYear1\<close>, \<open>currentMonth2/currentYear2\<close>).
  \<open>render()\<close> writes a fixed shadow tree; \<open>connectedCallback()\<close> renders the
  calendars and attaches the navigation listeners; \<open>generateCalendar()\<close>
  rebuilds one grid of day cells, attaching click and hover listeners to the
  cells that are not past; \<open>handleDayClick()\<close> and \<open>handleDayHover()\<close> drive the
  selection and dispatch a \<open>dateRangeSelected\<close> event when a range completes;
  \<open>navigateMonth()\<close> moves the cursors; \<open>updateDisplay()\<close> rebuilds both grids
  and the summary after every change.

  \<^bold>\<open>Theories and what they model.\<close>
  \<^item> \<open>Calendar_Base\<close>: the prelude. The named collections \<open>date_simps\<close> and
    \<open>widget_simps\<close>, the constant \<open>ms_per_day\<close> of line 518, JavaScript's
    exceptions without roll-back as the type \<open>'w outcome = 'w \<times> js_error option\<close>
    (the state reached and the exception thrown, if any) with the sequencing
    \<open>then_js\<close>, the rounding of \<open>Math.ceil\<close> on a quotient (\<open>ceil_div\<close>), and the
    decimal printing of a year.
  \<^item> \<open>Js_Date\<close>: the part of ECMAScript's \<open>Date\<close> the code uses. A date is
    modelled as its local day number (days since 1970-01-01 at local midnight,
    type \<open>jsdate\<close>); \<open>new Date(y, m, d)\<close> is \<open>make_day\<close> (MakeDay, with month
    overflow), \<open>getFullYear\<close>, \<open>getMonth\<close>, \<open>getDate\<close>, \<open>getDay\<close> are
    \<open>year_from_day\<close>, \<open>month_from_day\<close>, \<open>date_from_day\<close>, \<open>week_day\<close>, and
    \<open>getTime\<close> is \<open>get_time\<close>, which subtracts the zone's offset at that
    midnight. The year search \<open>find_year\<close> is a \<open>function\<close> with a measure.
  \<^item> \<open>Js_Iso\<close>: \<open>toISOString()\<close> (\<open>iso_string\<close>), which the code uses
    for the \<open>data-date\<close> of a day cell and for the event's dates, and the parse
    of such a string by \<open>new Date(string)\<close> (\<open>parse_iso\<close>), with the round
    trip between them on the whole range of a \<open>Date\<close>; \<open>month_in_range\<close>,
    the months every day of which a \<open>Date\<close> holds (all months of the years
    -271820 to 275759, in any zone whose offsets are below a day).
  \<^item> \<open>Widget_State\<close>: the instance fields (constructor, lines 6-40) as the
    record \<open>widget\<close>, the elements the code looks up in the shadow tree as the
    record \<open>dom\<close> (an absent element is \<open>None\<close>), the cells of a grid, the
    event detail, \<open>render\<close> (lines 63-290, structure only) and \<open>construct\<close>.
  \<^item> \<open>Calendar_Grid\<close>: \<open>minDate\<close>, \<open>maxDate\<close>, \<open>applyRangeStyles\<close> and
    \<open>generateCalendar\<close> (lines 298-409, 532-544) with \<open>calendar_cells\<close>, the cell
    list it builds.
  \<^item> \<open>Calendar_Display\<close>: \<open>calculateDaysBetween\<close> (lines 517-524), the summary
    of \<open>updateDisplay\<close> (lines 471-509) and \<open>updateDisplay\<close> itself.
  \<^item> \<open>Calendar_Selection\<close>: \<open>handleDayClick\<close> and \<open>handleDayHover\<close> (lines
    415-466), the invariant of the selection and the abstract machine
    \<open>Empty | PendingEnd | Complete\<close> of the specification they refine.
  \<^item> \<open>Calendar_Navigator\<close>: \<open>navigateMonth\<close> (lines 551-584), the invariant of
    the two cursors and its refinement to one month counter.
  \<^item> \<open>Widget_Events\<close>: \<open>connectedCallback\<close> (lines 47-57), the page's events
    (a click or a hover on a grid position, a click on a button, re-insertion
    of the element) as \<open>dispatch\<close>, the inductive set \<open>reachable\<close> of the states
    of an element constructed, inserted and then given any events, in any
    time zone and on any day, while both displayed months stay within the
    range of a \<open>Date\<close> (\<open>displayed_in_range\<close>), and the invariant
    \<open>widget_inv\<close> of all of them.
  \<^item> This theory: concrete inputs, the properties that span the
    components (the summary agrees with the event a click dispatches, and
    the date part of the event's ISO strings in every zone), the findings,
    and the scenarios of the specification (section 8) run end to end
    through \<open>dispatch\<close>.

  \<^bold>\<open>What is proved.\<close> The whole-widget invariant by rule induction on
  \<open>reachable\<close> (selection invariant, consecutive cursors, every looked-up
  element present, every listener a step of one month, the shadow tree
  showing the state, an empty console, every dispatched event ordered with a
  positive count); progress of the selection (from any state of the
  invariant, two clicks on interactive cells dispatch an event) and its
  safety at the grid (a click or hover on a past day changes nothing);
  refinement of the click and hover handlers to the abstract selection
  machine, with the event each transition emits; refinement of navigation
  to a month counter, and the round trip of one step forward and one back,
  which restores the whole widget; the grid's length, columns, dates and
  flags; the exact day count of \<open>calculateDaysBetween\<close> in terms of the
  zone's offsets; the error paths (a missing grid is logged and the rest
  rendered, a missing title or button throws a \<open>TypeError\<close>); that every
  re-insertion adds a second set of navigation listeners; idempotence of
  \<open>updateDisplay\<close>; the equality of the generated grid with the generator of
  the specification (section 4.2), which compares calendar dates where the
  code compares instants and ISO strings; the well-formedness of every
  generated grid (its type: day names, 35 to 44 cells, consistent flags); the
  constructor's two consecutive cursors; that after a completed range the
  summary shows the event's dates and count; that the event's delivery date
  is printed with the date of the previous day in every zone ahead of UTC. Supporting lemmas show the round
  trip of an instant through \<open>toISOString\<close> and \<open>new Date(string)\<close> (so
  that a cell's \<open>data-date\<close> gives back its date), termination of the year
  search of \<open>getFullYear\<close> with a bound on its steps, and that the ISO
  string of a day beyond the years -271822 and 275761 does not exist.

  \<^bold>\<open>Bounds and choices.\<close> There is no fuel: every loop of the code is
  structural (the grid's loops are list constructions over \<open>[0..<n]\<close>), and
  the year search terminates by the measure \<open>t - day_from_year y\<close>. A zone is
  any function from local day to offset whose offsets differ by less than a
  day (\<open>tz_ok\<close>): this covers daylight-saving changes and all that the
  comparisons of dates need, but not a zone that skipped a calendar day by
  moving across the date line, whose offset changed by exactly a day (Samoa
  on 30 December 2011). Years are unbounded integers; the claims that no
  error is thrown or logged (the invariant, \<open>updateDisplay\<close> without
  error, the missing grid) are stated for states whose displayed months lie
  within the range of a \<open>Date\<close> (\<open>month_in_range\<close>,
  \<open>displayed_in_range\<close>), the range in which the model is the code.

  \<^bold>\<open>Not modelled.\<close> The CSS and the markup of \<open>render()\<close> beyond the
  elements looked up by id (presentation); the text of
  \<open>toLocaleDateString()\<close>, which depends on the browser's locale (the model
  keeps the date it shows); the event's dates are kept as instants, which
  \<open>iso_string\<close> prints; months outside the range of a JavaScript
  \<open>Date\<close>, reached only after about 3.3 million navigation clicks, where
  \<open>new Date\<close> gives invalid dates whose getters return \<open>NaN\<close>: from
  September 275760 on the grid has no day cells and the cursors computed by
  \<open>navigateMonth\<close> become \<open>NaN\<close> (lines 306-309, 563-565, 578-580), and
  in April -271821 \<open>toISOString\<close> throws a \<open>RangeError\<close> at line 337 with
  the grid half built; the model keeps computing with unbounded years there,
  so the claims above that depend on it are stated within the range;
  \<open>customElements.define\<close> (line 589), a registration call into the
  browser; the event's propagation flags \<open>bubbles\<close> and \<open>composed\<close>.
\<close>

section \<open>Concrete inputs\<close>

text \<open>The page on 10 January 2025 in a zone without daylight saving.\<close>

definition e0 :: env where
  "e0 = \<lparr>tz = (\<lambda>_. 0), today = make_day 2025 0 10\<rparr>"

text \<open>New York in 2025: daylight saving (UTC-4) ends on 2 November.\<close>

definition nyc :: time_zone where
  "nyc d = (if d \<le> make_day 2025 10 2 then - 14400000 else - 18000000)"

text \<open>A rendered element showing January and February 2025, nothing selected.\<close>

definition w0 :: widget where
  "w0 = render \<lparr>selectedDeliveryDate = None, selectedPickupDate = None, hoverDate = None,
     currentMonth1 = 0, currentYear1 = 2025, currentMonth2 = 1, currentYear2 = 2025,
     shadowRoot = empty_dom, dispatched = [], console = []\<rparr>"

text \<open>The same element after \<open>updateDisplay\<close> in \<open>e0\<close>: its shadow tree shows its state.\<close>

definition w1 :: widget where
  "w1 = w0\<lparr>shadowRoot := shown_dom e0 w0\<rparr>"

text \<open>The cell of 15 January 2025 as the grid of \<open>e0\<close> builds it.\<close>

text \<open>Berlin in winter (UTC+1) on 10 January 2025.\<close>

definition e_berlin :: env where
  "e_berlin = \<lparr>tz = (\<lambda>_. 3600000), today = make_day 2025 0 10\<rparr>"

definition c0 :: day_div where
  "c0 = \<lparr>day_text = 15, day_date = make_day 2025 0 15, current_day = False, past_day = False,
     selected_delivery = False, selected_pickup = False, in_range = False, hover_range = False,
     day_listeners = True\<rparr>"

section \<open>Across components\<close>

text \<open>C28: After the click that completes a range, the event handleDayClick dispatches and the summary updateDisplay writes agree: both show the earlier and the later of the two dates, and the displayed day count is the event's numberOfDays, in any zone whose offsets differ by less than a day.\<close>

theorem range_summary_matches_event:
  assumes tz: "tz_ok (tz e)" and c: "dom_complete (shadowRoot w)" and np: "\<not> past_day t"
      and pend: "selectedDeliveryDate w = Some a" "selectedPickupDate w = None"
  shows "dispatched (fst (handleDayClick e w t)) = dispatched w @
           [\<lparr>deliveryDate = get_time (tz e) (min a (day_date t)),
             pickupDate = get_time (tz e) (max a (day_date t)),
             numberOfDays = calculateDaysBetween (tz e) (min a (day_date t)) (max a (day_date t))\<rparr>] \<and>
         selectedRangeDisplay (shadowRoot (fst (handleDayClick e w t))) =
           Some (RangeShown (min a (day_date t)) (max a (day_date t))) \<and>
         dayCountDisplay (shadowRoot (fst (handleDayClick e w t))) =
           Some (calculateDaysBetween (tz e) (min a (day_date t)) (max a (day_date t)))"
proof -
  let ?w1 = "click_fields e w (day_date t)"
  have c1: "dom_complete (shadowRoot ?w1)" using c click_fields_keeps [of e w "day_date t"] by simp
  have h: "handleDayClick e w t = returns (?w1\<lparr>shadowRoot := shown_dom e ?w1\<rparr>)"
    using np c1 by (simp add: handleDayClick_def updateDisplay_complete)
  have f: "selectedDeliveryDate ?w1 = Some a" "selectedPickupDate ?w1 = Some (day_date t)"
    "dispatched ?w1 = dispatched w @
           [\<lparr>deliveryDate = get_time (tz e) (min a (day_date t)),
             pickupDate = get_time (tz e) (max a (day_date t)),
             numberOfDays = calculateDaysBetween (tz e) (min a (day_date t)) (max a (day_date t))\<rparr>]"
    using pend tz by (simp_all add: click_fields_def Let_def minDate_day maxDate_day)
  show ?thesis
    using h f tz by (simp add: returns_def shown_dom_def display_summary_def ordered_pair_day)
qed

text \<open>C29: The dateRangeSelected event sends its delivery date as toISOString() of the local midnight: in any zone whose offset is less than a day, the date part of that string is the day before the selected date exactly when the zone is ahead of UTC (the specification promises the ISO-8601 date of the selected day).\<close>

theorem event_iso_date:
  assumes tz: "tz_ok (tz e)" and np: "\<not> past_day t"
      and pend: "selectedDeliveryDate w = Some a" "selectedPickupDate w = None"
      and off: "\<bar>tz e (min a (day_date t))\<bar> < ms_per_day"
      and rng: "\<bar>get_time (tz e) (min a (day_date t))\<bar> \<le> max_time"
  shows "\<exists>r rest. dispatched (fst (handleDayClick e w t)) = dispatched w @ [r] \<and>
           iso_string (deliveryDate r) =
             Some (iso_date (if 0 < tz e (min a (day_date t)) then min a (day_date t) - 1
                             else min a (day_date t)) @ ''T'' @ rest)"
proof -
  let ?a = "min a (day_date t)"
  let ?r = "\<lparr>deliveryDate = get_time (tz e) ?a, pickupDate = get_time (tz e) (max a (day_date t)),
             numberOfDays = calculateDaysBetween (tz e) ?a (max a (day_date t))\<rparr>"
  have "dispatched (fst (handleDayClick e w t)) = dispatched (click_fields e w (day_date t))"
    using dispatched_same_fields [OF handleDayClick_fields [OF np]] .
  also have "\<dots> = dispatched w @ [?r]"
    using pend tz by (simp add: click_fields_def Let_def minDate_day maxDate_day)
  finally have d: "dispatched (fst (handleDayClick e w t)) = dispatched w @ [?r]" .
  obtain rest where "iso_string (get_time (tz e) ?a) =
      Some (iso_date (get_time (tz e) ?a div ms_per_day) @ ''T'' @ rest)"
    using iso_string_date [OF rng] by blast
  then have "iso_string (deliveryDate ?r) =
      Some (iso_date (if 0 < tz e ?a then ?a - 1 else ?a) @ ''T'' @ rest)"
    by (simp add: get_time_div [of "tz e" ?a, OF off])
  with d show ?thesis by blast
qed

section \<open>Findings\<close>

text \<open>
  \<open>calculateDaysBetween\<close> rounds the difference of the two instants up
  (\<open>Math.ceil\<close>, line 521). Across the end of daylight saving the local days
  are 25 hours long, so the range 1-5 November 2025 in New York, five days,
  is counted as six.
\<close>

theorem days_between_dst_overcount:
  "calculateDaysBetween nyc (make_day 2025 10 1) (make_day 2025 10 5) = 6 \<and>
   make_day 2025 10 5 - make_day 2025 10 1 + 1 = 5"
  by code_simp

text \<open>
  \<open>connectedCallback\<close> attaches the navigation listeners each time the
  element is inserted. After a removal and re-insertion the button
  \<open>nextMonth1\<close> carries two listeners, and one click on it moves both
  calendars forward by two months.
\<close>

theorem reconnect_double_navigation:
  "currentMonth1 (initial e0) = 0 \<and> currentYear1 (initial e0) = 2025 \<and>
   currentMonth1 (dispatch e0 (dispatch e0 (initial e0) Reconnect) (ClickButton NextMonth1)) = 2 \<and>
   currentYear1 (dispatch e0 (dispatch e0 (initial e0) Reconnect) (ClickButton NextMonth1)) = 2025"
  by code_simp

text \<open>
  The event's dates are \<open>toISOString()\<close> of local midnights, which are
  UTC timestamps. East of UTC their date part is the previous day: in Berlin
  the range 10-15 January 2025 is sent with the delivery date
  \<open>2025-01-09T23:00:00.000Z\<close>, where the specification promises an ISO-8601
  date.
\<close>

theorem iso_detail_previous_day:
  "map (\<lambda>r. iso_string (deliveryDate r))
     (dispatched (dispatch e_berlin (dispatch e_berlin (initial e_berlin) (ClickDay Grid1 19))
        (ClickDay Grid1 24))) =
   [Some ''2025-01-09T23:00:00.000Z'']"
  by code_simp

section \<open>Scenarios of the specification\<close>

text \<open>
  On 10 January 2025, clicking 10 January then 15 January in the first
  calendar (grid positions 19 and 24: seven day names, three padding cells
  before Wednesday the first) emits one event, from 2025-01-10 to 2025-01-15,
  six days.
\<close>

theorem range_scenario:
  "dispatched (dispatch e0 (dispatch e0 (initial e0) (ClickDay Grid1 19)) (ClickDay Grid1 24)) =
   [\<lparr>deliveryDate = 1736467200000, pickupDate = 1736899200000, numberOfDays = 6\<rparr>]"
  by code_simp

text \<open>The same two clicks in the reverse order emit the same event.\<close>

theorem range_scenario_reversed:
  "dispatched (dispatch e0 (dispatch e0 (initial e0) (ClickDay Grid1 24)) (ClickDay Grid1 19)) =
   [\<lparr>deliveryDate = 1736467200000, pickupDate = 1736899200000, numberOfDays = 6\<rparr>]"
  by code_simp

text \<open>
  After a date is clicked, a click on a past day (5 January, position
  14) changes nothing and emits nothing: the cell has no listener.
\<close>

theorem past_click_ignored:
  "dispatch e0 (dispatch e0 (initial e0) (ClickDay Grid1 24)) (ClickDay Grid1 14) =
   dispatch e0 (initial e0) (ClickDay Grid1 24)"
  by code_simp

text \<open>Clicking the same day twice selects a one-day range and emits a count of 1.\<close>

theorem single_day_range:
  "let w = dispatch e0 (dispatch e0 (initial e0) (ClickDay Grid1 24)) (ClickDay Grid1 24)
   in selectedDeliveryDate w = Some (make_day 2025 0 15) \<and>
      selectedPickupDate w = Some (make_day 2025 0 15) \<and>
      dispatched w = [\<lparr>deliveryDate = 1736899200000, pickupDate = 1736899200000, numberOfDays = 1\<rparr>]"
  by code_simp

text \<open>After a first click on 10 January the summary shows that date with a count of 1; hovering 15 January then previews the range 10-15 January with a count of 6, and nothing is dispatched.\<close>

theorem hover_preview_scenario:
  "let w1 = dispatch e0 (initial e0) (ClickDay Grid1 19);
       w2 = dispatch e0 w1 (HoverDay Grid1 24)
   in selectedRangeDisplay (shadowRoot w1) = Some (Selecting (make_day 2025 0 10)) \<and>
      dayCountDisplay (shadowRoot w1) = Some 1 \<and>
      selectedRangeDisplay (shadowRoot w2) = Some (Hovering (make_day 2025 0 10) (make_day 2025 0 15)) \<and>
      dayCountDisplay (shadowRoot w2) = Some 6 \<and> dispatched w2 = []"
  by code_simp

text \<open>Once a range is complete, hovering another day changes nothing.\<close>

theorem hover_after_complete_ignored:
  "let w2 = dispatch e0 (dispatch e0 (initial e0) (ClickDay Grid1 19)) (ClickDay Grid1 24)
   in dispatch e0 w2 (HoverDay Grid1 29) = w2"
  by code_simp

text \<open>From January and February 2025, the previous-month button of either calendar shows December 2024 and January 2025: the year rolls over.\<close>

theorem navigation_year_boundary:
  "let w = dispatch e0 (initial e0) (ClickButton PrevMonth1);
       w' = dispatch e0 (initial e0) (ClickButton PrevMonth2)
   in (currentMonth1 w, currentYear1 w, currentMonth2 w, currentYear2 w) = (11, 2024, 0, 2025) \<and>
      (currentMonth1 w', currentYear1 w', currentMonth2 w', currentYear2 w') = (11, 2024, 0, 2025)"
  by code_simp

section \<open>The claims at concrete inputs\<close>

text \<open>
  Each theorem of the library with a hypothesis, applied where its
  hypotheses hold: the page \<open>e0\<close>, the rendered element \<open>w0\<close>, the cell
  \<open>c0\<close> of 15 January 2025 and New York's zone \<open>nyc\<close>.
\<close>

lemma tz_ok_e0: "tz_ok (tz e0)"
  by (simp add: e0_def tz_ok_def)

lemma tz_ok_nyc: "tz_ok nyc"
  by (simp add: tz_ok_def nyc_def ms_per_day_value split: if_split)

lemma w0_ready: "dom_complete (shadowRoot w0) \<and> sel_inv w0 \<and> cursors_inv w0"
  by (simp add: w0_def render_def dom_complete_def sel_inv_def cursors_inv_def month_index_def)

lemma c0_not_past: "\<not> past_day c0"
  by (simp add: c0_def)

theorem handleDayClick_refines_witness:
  "tz_ok (tz e0) \<and> \<not> past_day c0 \<and>
   abs_sel (fst (handleDayClick e0 w0 c0)) = fst (spec_click (day_date c0) (abs_sel w0)) \<and>
   dispatched (fst (handleDayClick e0 w0 c0)) = dispatched w0 @
     (case snd (spec_click (day_date c0) (abs_sel w0)) of
        None \<Rightarrow> [] | Some r \<Rightarrow> [range_event (tz e0) r])"
  using tz_ok_e0 c0_not_past handleDayClick_refines [OF tz_ok_e0 c0_not_past, of w0] by simp

theorem navigateMonth_cursors_witness:
  "cursors_inv w0 \<and> ((1::int) = 1 \<or> (1::int) = - 1) \<and>
   cursors_inv (fst (navigateMonth e0 w0 1 1)) \<and>
   month_index (currentMonth1 (fst (navigateMonth e0 w0 1 1))) (currentYear1 (fst (navigateMonth e0 w0 1 1)))
     = month_index (currentMonth1 w0) (currentYear1 w0) + 1"
proof -
  have h: "cursors_inv w0" "(1::int) = 1 \<or> (1::int) = - 1" using w0_ready by simp_all
  show ?thesis using h navigateMonth_cursors [OF h, of e0 1] by simp
qed

theorem calculateDaysBetween_offsets_witness:
  "tz_ok nyc \<and>
   calculateDaysBetween nyc (make_day 2025 10 1) (make_day 2025 10 5) =
     \<bar>make_day 2025 10 5 - make_day 2025 10 1\<bar> + 1 +
     (if nyc (max (make_day 2025 10 1) (make_day 2025 10 5)) < nyc (min (make_day 2025 10 1) (make_day 2025 10 5))
      then 1 else 0)"
  using tz_ok_nyc calculateDaysBetween_offsets [OF tz_ok_nyc, of "make_day 2025 10 1" "make_day 2025 10 5"]
  by simp

theorem handleDayClick_sel_inv_witness: "sel_inv w0 \<and> sel_inv (fst (handleDayClick e0 w0 c0))"
proof -
  have h: "sel_inv w0" using w0_ready by simp
  show ?thesis using h handleDayClick_sel_inv [OF h, of e0 c0] by simp
qed

theorem handleDayHover_sel_inv_witness: "sel_inv w0 \<and> sel_inv (fst (handleDayHover e0 w0 c0))"
proof -
  have h: "sel_inv w0" using w0_ready by simp
  show ?thesis using h handleDayHover_sel_inv [OF h, of e0 c0] by simp
qed

lemma grid_e0_cell_24:
  "24 < length (calendar_cells e0 w0 0 2025) \<and>
   calendar_cells e0 w0 0 2025 ! 24 = DayCell (day_cell e0 w0 2025 0 15)"
  by code_simp

theorem calendar_cells_column_witness:
  "24 < length (calendar_cells e0 w0 0 2025) \<and>
   calendar_cells e0 w0 0 2025 ! 24 = DayCell (day_cell e0 w0 2025 0 15) \<and>
   int (24 mod 7) = week_day (day_date (day_cell e0 w0 2025 0 15))"
proof -
  have h: "24 < length (calendar_cells e0 w0 0 2025)"
    "calendar_cells e0 w0 0 2025 ! 24 = DayCell (day_cell e0 w0 2025 0 15)"
    using grid_e0_cell_24 by simp_all
  show ?thesis using h calendar_cells_column [OF h] by simp
qed

theorem calendar_cells_dates_witness:
  "24 < length (calendar_cells e0 w0 0 2025) \<and>
   calendar_cells e0 w0 0 2025 ! 24 = DayCell (day_cell e0 w0 2025 0 15) \<and>
   year_from_day (day_date (day_cell e0 w0 2025 0 15)) = 2025 + 0 div 12 \<and>
   month_from_day (day_date (day_cell e0 w0 2025 0 15)) = 0 mod 12 \<and>
   date_from_day (day_date (day_cell e0 w0 2025 0 15)) = day_text (day_cell e0 w0 2025 0 15)"
proof -
  have h: "24 < length (calendar_cells e0 w0 0 2025)"
    "calendar_cells e0 w0 0 2025 ! 24 = DayCell (day_cell e0 w0 2025 0 15)"
    using grid_e0_cell_24 by simp_all
  show ?thesis using h calendar_cells_dates [OF h] by simp
qed

theorem day_cell_today_flags_witness:
  "tz_ok (tz e0) \<and>
   (past_day (day_cell e0 w0 2025 0 15) \<longleftrightarrow> make_day 2025 0 15 < today e0) \<and>
   (current_day (day_cell e0 w0 2025 0 15) \<longleftrightarrow> make_day 2025 0 15 = today e0) \<and>
   (day_listeners (day_cell e0 w0 2025 0 15) \<longleftrightarrow> today e0 \<le> make_day 2025 0 15)"
  by (rule conjI [OF tz_ok_e0 day_cell_today_flags [OF tz_ok_e0, of w0 2025 0 15]])

theorem day_cell_selection_flags_witness:
  "tz_ok (tz e0) \<and>
   (selected_delivery (day_cell e0 w0 2025 0 15) \<longleftrightarrow>
      selectedDeliveryDate w0 = Some (make_day 2025 0 15)) \<and>
   (selected_pickup (day_cell e0 w0 2025 0 15) \<longleftrightarrow>
      selectedPickupDate w0 = Some (make_day 2025 0 15)) \<and>
   (in_range (day_cell e0 w0 2025 0 15) \<longleftrightarrow>
      (\<exists>a b. selectedDeliveryDate w0 = Some a \<and> selectedPickupDate w0 = Some b \<and>
         min a b \<le> make_day 2025 0 15 \<and> make_day 2025 0 15 \<le> max a b)) \<and>
   (hover_range (day_cell e0 w0 2025 0 15) \<longleftrightarrow>
      (\<exists>a h. selectedDeliveryDate w0 = Some a \<and> selectedPickupDate w0 = None \<and>
         hoverDate w0 = Some h \<and>
         min a h \<le> make_day 2025 0 15 \<and> make_day 2025 0 15 \<le> max a h))"
  by (rule conjI [OF tz_ok_e0 day_cell_selection_flags [OF tz_ok_e0, of w0 2025 0 15]])

theorem display_summary_days_witness:
  "tz_ok (tz e0) \<and>
   display_summary (tz e0) w0 =
    (case (selectedDeliveryDate w0, selectedPickupDate w0, hoverDate w0) of
       (None, _, _) \<Rightarrow> (NoDatesSelected, 0)
     | (Some a, Some b, _) \<Rightarrow>
         (RangeShown (min a b) (max a b), calculateDaysBetween (tz e0) (min a b) (max a b))
     | (Some a, None, None) \<Rightarrow> (Selecting a, 1)
     | (Some a, None, Some h) \<Rightarrow>
         (Hovering (min a h) (max a h), calculateDaysBetween (tz e0) (min a h) (max a h)))"
  using tz_ok_e0 display_summary_days [OF tz_ok_e0, of w0] by simp

theorem updateDisplay_idempotent_witness:
  "dom_complete (shadowRoot w0) \<and> updateDisplay e0 (fst (updateDisplay e0 w0)) = updateDisplay e0 w0"
proof -
  have h: "dom_complete (shadowRoot w0)" using w0_ready by simp
  show ?thesis using h updateDisplay_idempotent [OF h, of e0] by simp
qed

theorem connectedCallback_missing_button_witness:
  "button_element PrevMonth1 (shadowRoot (w0\<lparr>shadowRoot := empty_dom\<rparr>)) = None \<and>
   snd (connectedCallback e0 (w0\<lparr>shadowRoot := empty_dom\<rparr>)) = Some TypeError"
proof -
  have h: "button_element PrevMonth1 (shadowRoot (w0\<lparr>shadowRoot := empty_dom\<rparr>)) = None"
    by (simp add: button_element_def empty_dom_def)
  show ?thesis using h connectedCallback_missing_button [OF h, of e0] by simp
qed

theorem updateDisplay_missing_title_witness:
  "grid_element Grid1 (shadowRoot (w0\<lparr>shadowRoot := (shadowRoot w0)\<lparr>monthYearDisplay1 := None\<rparr>\<rparr>)) \<noteq> None \<and>
   title_element Grid1 (shadowRoot (w0\<lparr>shadowRoot := (shadowRoot w0)\<lparr>monthYearDisplay1 := None\<rparr>\<rparr>)) = None \<and>
   snd (updateDisplay e0 (w0\<lparr>shadowRoot := (shadowRoot w0)\<lparr>monthYearDisplay1 := None\<rparr>\<rparr>)) = Some TypeError"
proof -
  let ?w = "w0\<lparr>shadowRoot := (shadowRoot w0)\<lparr>monthYearDisplay1 := None\<rparr>\<rparr>"
  have h: "grid_element Grid1 (shadowRoot ?w) \<noteq> None" "title_element Grid1 (shadowRoot ?w) = None"
    by (simp_all add: w0_def render_def grid_element_def title_element_def)
  show ?thesis using h updateDisplay_missing_title [OF h, of e0] by simp
qed

theorem two_clicks_emit_witness:
  "tz_ok (tz e0) \<and> \<not> past_day c0 \<and> \<not> past_day (c0\<lparr>day_date := make_day 2025 0 10\<rparr>) \<and>
   (abs_sel w0 = Empty \<or> (\<exists>x y. abs_sel w0 = Complete x y)) \<and>
   dispatched (fst (handleDayClick e0 (fst (handleDayClick e0 w0 c0)) (c0\<lparr>day_date := make_day 2025 0 10\<rparr>))) =
     dispatched w0 @
       [range_event (tz e0) (min (day_date c0) (day_date (c0\<lparr>day_date := make_day 2025 0 10\<rparr>)),
                             max (day_date c0) (day_date (c0\<lparr>day_date := make_day 2025 0 10\<rparr>)))]"
proof -
  have h: "\<not> past_day (c0\<lparr>day_date := make_day 2025 0 10\<rparr>)"
      "abs_sel w0 = Empty \<or> (\<exists>x y. abs_sel w0 = Complete x y)"
    by (simp_all add: c0_def w0_def render_def abs_sel_def)
  show ?thesis using tz_ok_e0 c0_not_past h two_clicks_emit [OF tz_ok_e0 c0_not_past h] by simp
qed

theorem calendar_cells_spec_witness:
  "tz_ok (tz e0) \<and> calendar_cells e0 w0 0 2025 = spec_cells (today e0) w0 0 2025"
  by (rule conjI [OF tz_ok_e0 calendar_cells_spec [OF tz_ok_e0]])

theorem two_clicks_dispatch_witness:
  "widget_inv (initial e0) \<and> tz_ok (tz e0) \<and>
   day_target Grid1 19 (initial e0) =
     Some (c0\<lparr>day_text := 10, day_date := make_day 2025 0 10, current_day := True\<rparr>) \<and>
   day_target Grid1 24 (dispatch e0 (initial e0) (ClickDay Grid1 19)) = Some c0 \<and>
   length (dispatched (initial e0)) <
     length (dispatched (dispatch e0 (dispatch e0 (initial e0) (ClickDay Grid1 19)) (ClickDay Grid1 24)))"
proof -
  have h1: "day_target Grid1 19 (initial e0) =
      Some (c0\<lparr>day_text := 10, day_date := make_day 2025 0 10, current_day := True\<rparr>)"
    by code_simp
  have h2: "day_target Grid1 24 (dispatch e0 (initial e0) (ClickDay Grid1 19)) = Some c0"
    by code_simp
  show ?thesis
    using inv_initial tz_ok_e0 h1 h2 two_clicks_dispatch [OF inv_initial tz_ok_e0 h1 h2] by simp
qed

theorem calendar_cells_wf_witness: "grid_ok (calendar_cells e0 w0 0 2025)"
  by (rule calendar_cells_wf)

lemma w0_in_range: "displayed_in_range e0 w0"
  by (simp add: displayed_in_range_def w0_def render_def e0_def month_in_range_years ms_per_day_value)

lemma initial_e0_cursors:
  "currentMonth1 (initial e0) = 0 \<and> currentYear1 (initial e0) = 2025 \<and>
   currentMonth2 (initial e0) = 1 \<and> currentYear2 (initial e0) = 2025"
  by code_simp

lemma w1_inv: "widget_inv w1 \<and> cursors_inv w1 \<and> dom_complete (shadowRoot w1) \<and> shadowRoot w1 = shown_dom e0 w1"
proof -
  have "shadowRoot w1 = shown_dom e0 w1" by (simp add: w1_def)
  moreover have "dom_complete (shadowRoot w1)"
    by (simp add: w1_def shown_dom_def w0_def render_def dom_complete_def)
  moreover have "buttons_ok (shadowRoot w1)"
    by (simp add: w1_def shown_dom_def w0_def render_def buttons_ok_def button_element_def split: button_id.splits)
  moreover have "sel_inv w1 \<and> cursors_inv w1 \<and> console w1 = [] \<and> (\<forall>r \<in> set (dispatched w1). event_ok r)"
    by (simp add: w1_def w0_def render_def sel_inv_def cursors_inv_def month_index_def)
  moreover have "display_current w1"
    unfolding display_current_def by (rule exI [of _ e0]) (simp add: w1_def)
  ultimately show ?thesis unfolding widget_inv_def by blast
qed

lemma w1_grid1_cell_14:
  "grid_element Grid1 (shadowRoot w1) = Some (calendar_cells e0 w0 0 2025) \<and>
   14 < length (calendar_cells e0 w0 0 2025) \<and>
   calendar_cells e0 w0 0 2025 ! 14 = DayCell (day_cell e0 w0 2025 0 5) \<and>
   past_day (day_cell e0 w0 2025 0 5)"
proof -
  have "grid_element Grid1 (shadowRoot w1) = Some (calendar_cells e0 w0 0 2025)"
    by (simp add: w1_def shown_dom_def grid_element_def w0_def render_def)
  moreover have "14 < length (calendar_cells e0 w0 0 2025) \<and>
      calendar_cells e0 w0 0 2025 ! 14 = DayCell (day_cell e0 w0 2025 0 5) \<and>
      past_day (day_cell e0 w0 2025 0 5)"
    by code_simp
  ultimately show ?thesis by simp
qed

theorem reachable_widget_inv_witness:
  "displayed_in_range e0 (initial e0) \<and> reachable (initial e0) \<and> widget_inv (initial e0)"
proof -
  have r: "displayed_in_range e0 (initial e0)"
    using initial_e0_cursors
    by (simp add: displayed_in_range_def e0_def month_in_range_years ms_per_day_value)
  have h: "reachable (initial e0)" by (rule reachable.init [OF r])
  show ?thesis using r h reachable_widget_inv [OF h] by simp
qed

theorem updateDisplay_no_error_witness:
  "dom_complete (shadowRoot w0) \<and> displayed_in_range e0 w0 \<and>
   snd (updateDisplay e0 w0) = None \<and> dom_complete (shadowRoot (fst (updateDisplay e0 w0))) \<and>
   console (fst (updateDisplay e0 w0)) = console w0"
proof -
  have h: "dom_complete (shadowRoot w0)" "displayed_in_range e0 w0" using w0_ready w0_in_range by simp_all
  show ?thesis using h updateDisplay_no_error [OF h] by simp
qed

theorem updateDisplay_missing_grid_witness:
  "grid_element Grid1 (shadowRoot (w0\<lparr>shadowRoot := (shadowRoot w0)\<lparr>calendarGrid1 := None\<rparr>\<rparr>)) = None \<and>
   grid_element Grid2 (shadowRoot (w0\<lparr>shadowRoot := (shadowRoot w0)\<lparr>calendarGrid1 := None\<rparr>\<rparr>)) \<noteq> None \<and>
   title_element Grid2 (shadowRoot (w0\<lparr>shadowRoot := (shadowRoot w0)\<lparr>calendarGrid1 := None\<rparr>\<rparr>)) \<noteq> None \<and>
   month_in_range (tz e0) (currentMonth2 (w0\<lparr>shadowRoot := (shadowRoot w0)\<lparr>calendarGrid1 := None\<rparr>\<rparr>))
     (currentYear2 (w0\<lparr>shadowRoot := (shadowRoot w0)\<lparr>calendarGrid1 := None\<rparr>\<rparr>)) \<and>
   updateDisplay e0 (w0\<lparr>shadowRoot := (shadowRoot w0)\<lparr>calendarGrid1 := None\<rparr>\<rparr>) =
     returns ((w0\<lparr>shadowRoot := (shadowRoot w0)\<lparr>calendarGrid1 := None\<rparr>\<rparr>)\<lparr>
       console := console w0 @ [''Calendar grid element with ID calendarGrid1 not found.''],
       shadowRoot := write_summary (fst (display_summary (tz e0) w0)) (snd (display_summary (tz e0) w0))
         (set_title Grid2 (month_title 1 2025)
           (set_grid Grid2 (calendar_cells e0 w0 1 2025) ((shadowRoot w0)\<lparr>calendarGrid1 := None\<rparr>)))\<rparr>)"
proof -
  let ?w = "w0\<lparr>shadowRoot := (shadowRoot w0)\<lparr>calendarGrid1 := None\<rparr>\<rparr>"
  have h: "grid_element Grid1 (shadowRoot ?w) = None" "grid_element Grid2 (shadowRoot ?w) \<noteq> None"
    "title_element Grid2 (shadowRoot ?w) \<noteq> None"
    "month_in_range (tz e0) (currentMonth2 ?w) (currentYear2 ?w)"
    using w0_in_range by (simp_all add: w0_def render_def grid_element_def title_element_def
      displayed_in_range_def)
  have c: "currentMonth2 w0 = 1" "currentYear2 w0 = 2025" by (simp_all add: w0_def render_def)
  show ?thesis using h updateDisplay_missing_grid [OF h] c by simp
qed

theorem navigateMonth_roundtrip_witness:
  "cursors_inv w1 \<and> dom_complete (shadowRoot w1) \<and> shadowRoot w1 = shown_dom e0 w1 \<and>
   ((1::int) = 1 \<or> (1::int) = - 1) \<and>
   navigateMonth e0 (fst (navigateMonth e0 w1 1 1)) 2 (- 1) = returns w1"
proof -
  have h: "cursors_inv w1" "dom_complete (shadowRoot w1)" "shadowRoot w1 = shown_dom e0 w1"
    "(1::int) = 1 \<or> (1::int) = - 1"
    using w1_inv by blast+
  show ?thesis using h navigateMonth_roundtrip [OF h, of 1 2] by simp
qed

theorem past_day_events_ignored_witness:
  "widget_inv w1 \<and> grid_element Grid1 (shadowRoot w1) = Some (calendar_cells e0 w0 0 2025) \<and>
   14 < length (calendar_cells e0 w0 0 2025) \<and>
   calendar_cells e0 w0 0 2025 ! 14 = DayCell (day_cell e0 w0 2025 0 5) \<and>
   past_day (day_cell e0 w0 2025 0 5) \<and>
   dispatch e0 w1 (ClickDay Grid1 14) = w1 \<and> dispatch e0 w1 (HoverDay Grid1 14) = w1"
proof -
  have h: "widget_inv w1" "grid_element Grid1 (shadowRoot w1) = Some (calendar_cells e0 w0 0 2025)"
    "14 < length (calendar_cells e0 w0 0 2025)"
    "calendar_cells e0 w0 0 2025 ! 14 = DayCell (day_cell e0 w0 2025 0 5)"
    "past_day (day_cell e0 w0 2025 0 5)"
    using w1_inv w1_grid1_cell_14 by simp_all
  show ?thesis using h past_day_events_ignored [OF h, of e0] by simp
qed

theorem range_summary_matches_event_witness:
  "tz_ok (tz e0) \<and> dom_complete (shadowRoot (w0\<lparr>selectedDeliveryDate := Some (make_day 2025 0 20)\<rparr>)) \<and>
   \<not> past_day c0 \<and>
   selectedDeliveryDate (w0\<lparr>selectedDeliveryDate := Some (make_day 2025 0 20)\<rparr>) = Some (make_day 2025 0 20) \<and>
   selectedPickupDate (w0\<lparr>selectedDeliveryDate := Some (make_day 2025 0 20)\<rparr>) = None \<and>
   selectedRangeDisplay (shadowRoot (fst (handleDayClick e0 (w0\<lparr>selectedDeliveryDate := Some (make_day 2025 0 20)\<rparr>) c0))) =
     Some (RangeShown (min (make_day 2025 0 20) (day_date c0)) (max (make_day 2025 0 20) (day_date c0))) \<and>
   dayCountDisplay (shadowRoot (fst (handleDayClick e0 (w0\<lparr>selectedDeliveryDate := Some (make_day 2025 0 20)\<rparr>) c0))) =
     Some (calculateDaysBetween (tz e0) (min (make_day 2025 0 20) (day_date c0)) (max (make_day 2025 0 20) (day_date c0)))"
proof -
  let ?w = "w0\<lparr>selectedDeliveryDate := Some (make_day 2025 0 20)\<rparr>"
  have h: "dom_complete (shadowRoot ?w)" "selectedDeliveryDate ?w = Some (make_day 2025 0 20)"
    "selectedPickupDate ?w = None"
    using w0_ready by (simp_all add: w0_def render_def)
  show ?thesis using tz_ok_e0 c0_not_past h range_summary_matches_event [OF tz_ok_e0 h(1) c0_not_past h(2,3)]
    by simp
qed

theorem event_iso_date_witness:
  "tz_ok (tz e_berlin) \<and> \<not> past_day c0 \<and>
   selectedDeliveryDate (w0\<lparr>selectedDeliveryDate := Some (make_day 2025 0 20)\<rparr>) = Some (make_day 2025 0 20) \<and>
   selectedPickupDate (w0\<lparr>selectedDeliveryDate := Some (make_day 2025 0 20)\<rparr>) = None \<and>
   \<bar>tz e_berlin (min (make_day 2025 0 20) (day_date c0))\<bar> < ms_per_day \<and>
   \<bar>get_time (tz e_berlin) (min (make_day 2025 0 20) (day_date c0))\<bar> \<le> max_time \<and>
   (\<exists>r rest. dispatched (fst (handleDayClick e_berlin (w0\<lparr>selectedDeliveryDate := Some (make_day 2025 0 20)\<rparr>) c0)) =
       dispatched (w0\<lparr>selectedDeliveryDate := Some (make_day 2025 0 20)\<rparr>) @ [r] \<and>
     iso_string (deliveryDate r) =
       Some (iso_date (if 0 < tz e_berlin (min (make_day 2025 0 20) (day_date c0))
                       then min (make_day 2025 0 20) (day_date c0) - 1
                       else min (make_day 2025 0 20) (day_date c0)) @ ''T'' @ rest))"
proof -
  let ?w = "w0\<lparr>selectedDeliveryDate := Some (make_day 2025 0 20)\<rparr>"
  have tz: "tz_ok (tz e_berlin)" by (simp add: e_berlin_def tz_ok_def)
  have h: "selectedDeliveryDate ?w = Some (make_day 2025 0 20)" "selectedPickupDate ?w = None"
    by (simp_all add: w0_def render_def)
  have o: "\<bar>tz e_berlin (min (make_day 2025 0 20) (day_date c0))\<bar> < ms_per_day"
    by (simp add: e_berlin_def ms_per_day_value)
  have g: "\<bar>get_time (tz e_berlin) (min (make_day 2025 0 20) (day_date c0))\<bar> \<le> max_time"
    by (simp add: e_berlin_def c0_def get_time_def make_day_def day_from_year_def
      days_before_month_def month_lengths_def leap_year_def max_time_def ms_per_day_value)
  show ?thesis using tz c0_not_past h o g event_iso_date [OF tz c0_not_past h o g] by simp
qed

end
